theory Spec2Isabelle
  imports Complex_Main "HOL-Library.Sublist"
begin

section \<open>Tensors\<close>

text \<open>
  The router of \<^verbatim>\<open>megatron/core/transformer/moe/router.py\<close> computes on tensors of the
  tensor library. A tensor is modelled as its shape, its elements in row-major order, its
  element type and its autograd flag. Elements are real numbers, as in the data model of the
  specification; the element type is carried as a tag, and a cast changes the tag only.
  \<open>precision\<close> is the element type in which the elements were computed: an arithmetic
  operation sets it to the element type of its result, whereas a cast, a view or a selection
  of elements keeps it. \<open>attached\<close> lists the auxiliary losses that the gradient pass-through
  wrapper has attached to this very tensor.
\<close>

datatype dtype = Float16 | BFloat16 | Float32 | Float64

datatype error =
  AssertionError | RuntimeError | ValueError | NotImplementedError | ZeroDivisionError | IndexError

text \<open>
  A loss is a scalar tensor: its value, its element type and, for every tensor operand of the
  operation that produced it, whether that operand requires a gradient (the inputs of its
  node in the autograd graph; the gradient of the loss flows through these operands only).
\<close>

record scalar =
  sval :: real
  sdtype :: dtype
  operands_grad :: "bool list"

record tensor =
  shape :: "nat list"
  data :: "real list"
  dtype :: dtype
  precision :: dtype
  requires_grad :: bool
  attached :: "scalar list"

text \<open>Integer tensors (expert indices, selection counts) carry no gradient.\<close>

record itensor =
  ishape :: "nat list"
  idata :: "nat list"

definition mk_tensor :: "nat list \<Rightarrow> real list \<Rightarrow> dtype \<Rightarrow> bool \<Rightarrow> tensor" where
  "mk_tensor sh xs d rg =
     \<lparr>shape = sh, data = xs, dtype = d, precision = d, requires_grad = rg, attached = []\<rparr>"

definition numel :: "nat list \<Rightarrow> nat" where
  "numel sh = prod_list sh"

definition last_dim :: "nat list \<Rightarrow> nat" where
  "last_dim sh = (case sh of [] \<Rightarrow> 1 | _ \<Rightarrow> last sh)"

text \<open>The \<open>cnt\<close> rows of length \<open>n\<close> along the last dimension of row-major data.\<close>

definition rows_of :: "nat \<Rightarrow> nat \<Rightarrow> 'a list \<Rightarrow> 'a list list" where
  "rows_of cnt n xs = map (\<lambda>i. take n (drop (i * n) xs)) [0..<cnt]"

definition trows :: "tensor \<Rightarrow> real list list" where
  "trows t = rows_of (numel (butlast (shape t))) (last_dim (shape t)) (data t)"

definition irows :: "itensor \<Rightarrow> nat list list" where
  "irows t = rows_of (numel (butlast (ishape t))) (last_dim (ishape t)) (idata t)"

definition wf_tensor :: "tensor \<Rightarrow> bool" where
  "wf_tensor t = (length (data t) = numel (shape t))"

subsection \<open>Shape changes, casts and gradient mode\<close>

text \<open>\<^verbatim>\<open>t.view(-1, n)\<close>: the leading size is inferred; it is ambiguous for \<open>n = 0\<close>.\<close>

definition view_2d :: "tensor \<Rightarrow> nat \<Rightarrow> error + tensor" where
  "view_2d t n =
     (if n = 0 \<or> numel (shape t) mod n \<noteq> 0 then Inl RuntimeError
      else Inr (t\<lparr>shape := [numel (shape t) div n, n]\<rparr>))"

text \<open>\<^verbatim>\<open>t.view(-1, a, b)\<close>.\<close>

definition view_3d :: "tensor \<Rightarrow> nat \<Rightarrow> nat \<Rightarrow> error + tensor" where
  "view_3d t a b =
     (if a * b = 0 \<or> numel (shape t) mod (a * b) \<noteq> 0 then Inl RuntimeError
      else Inr (t\<lparr>shape := [numel (shape t) div (a * b), a, b]\<rparr>))"

definition iview_2d :: "itensor \<Rightarrow> nat \<Rightarrow> error + itensor" where
  "iview_2d t n =
     (if n = 0 \<or> numel (ishape t) mod n \<noteq> 0 then Inl RuntimeError
      else Inr (t\<lparr>ishape := [numel (ishape t) div n, n]\<rparr>))"

text \<open>
  \<^verbatim>\<open>t.to(dtype=d)\<close> and \<^verbatim>\<open>t.type_as(other)\<close>: a cast to the element type the tensor
  already has returns the tensor itself.
\<close>

definition to_dtype :: "tensor \<Rightarrow> dtype \<Rightarrow> tensor" where
  "to_dtype t d =
     (if dtype t = d then t
      else (mk_tensor (shape t) (data t) d (requires_grad t))\<lparr>precision := precision t\<rparr>)"

definition type_as :: "tensor \<Rightarrow> tensor \<Rightarrow> tensor" where
  "type_as t other = to_dtype t (dtype other)"

text \<open>A tensor computed inside \<^verbatim>\<open>with torch.no_grad():\<close> does not require a gradient.\<close>

definition no_grad :: "tensor \<Rightarrow> tensor" where
  "no_grad t = t\<lparr>requires_grad := False\<rparr>"

text \<open>\<^verbatim>\<open>t.to(dtype=d)\<close> inside \<^verbatim>\<open>with torch.no_grad():\<close>.\<close>

definition to_dtype_no_grad :: "tensor \<Rightarrow> dtype \<Rightarrow> tensor" where
  "to_dtype_no_grad t d = (if dtype t = d then t else no_grad (to_dtype t d))"

text \<open>Type promotion of a binary operation on two floating tensors.\<close>

definition promote :: "dtype \<Rightarrow> dtype \<Rightarrow> dtype" where
  "promote a b =
     (if a = b then a else if a = Float64 \<or> b = Float64 then Float64 else Float32)"

subsection \<open>Elementwise and row-wise functions\<close>

definition softmax_row :: "real list \<Rightarrow> real list" where
  "softmax_row xs = map (\<lambda>x. exp x / sum_list (map exp xs)) xs"

text \<open>\<^verbatim>\<open>torch.softmax(t, dim=-1, dtype=d)\<close>.\<close>

definition torch_softmax :: "tensor \<Rightarrow> dtype \<Rightarrow> tensor" where
  "torch_softmax t d =
     mk_tensor (shape t) (concat (map softmax_row (trows t))) d (requires_grad t)"

definition sigmoid :: "real \<Rightarrow> real" where
  "sigmoid x = 1 / (1 + exp (- x))"

definition torch_sigmoid :: "tensor \<Rightarrow> tensor" where
  "torch_sigmoid t = mk_tensor (shape t) (map sigmoid (data t)) (dtype t) (requires_grad t)"

text \<open>\<^verbatim>\<open>a * b\<close> for two tensors of the same shape.\<close>

definition mul :: "tensor \<Rightarrow> tensor \<Rightarrow> tensor" where
  "mul a b =
     mk_tensor (shape a) (map2 (*) (data a) (data b)) (promote (dtype a) (dtype b))
       (requires_grad a \<or> requires_grad b)"

subsection \<open>Selection\<close>

text \<open>
  The indices of the \<open>k\<close> largest entries of a row, largest first. Among equal entries the
  smaller index comes first (the sort is stable); the library leaves that order open.
\<close>

definition topk_row :: "nat \<Rightarrow> real list \<Rightarrow> nat list" where
  "topk_row k xs = take k (sort_key (\<lambda>i. - (xs ! i)) [0..<length xs])"

definition pick :: "'a list \<Rightarrow> nat list \<Rightarrow> 'a list" where
  "pick xs is = map (\<lambda>i. xs ! i) is"

text \<open>\<^verbatim>\<open>torch.topk(t, k=k, dim=-1)\<close> (for a matrix, \<^verbatim>\<open>dim=1\<close>).\<close>

definition torch_topk :: "tensor \<Rightarrow> nat \<Rightarrow> error + tensor \<times> itensor" where
  "torch_topk t k =
     (if k > last_dim (shape t) then Inl RuntimeError
      else
        let rs = trows t;
            sh = butlast (shape t) @ [k]
        in Inr ((mk_tensor sh (concat (map (\<lambda>r. pick r (topk_row k r)) rs)) (dtype t)
                   (requires_grad t))\<lparr>precision := precision t\<rparr>,
                \<lparr>ishape = sh, idata = concat (map (topk_row k) rs)\<rparr>))"

text \<open>\<^verbatim>\<open>torch.gather(t, 1, index)\<close> for matrices.\<close>

definition torch_gather :: "tensor \<Rightarrow> itensor \<Rightarrow> error + tensor" where
  "torch_gather t index =
     (case (shape t, ishape index) of
        ([T, N], [T', K]) \<Rightarrow>
          if T' > T \<or> (\<exists>i \<in> set (idata index). i \<ge> N) then Inl RuntimeError
          else Inr ((mk_tensor [T', K]
                       (concat (map2 pick (rows_of T N (data t)) (rows_of T' K (idata index))))
                       (dtype t) (requires_grad t))\<lparr>precision := precision t\<rparr>)
      | _ \<Rightarrow> Inl RuntimeError)"

text \<open>
  \<^verbatim>\<open>torch.zeros_like(p).scatter_(-1, index, src)\<close> for matrices: the row of zeros receives
  \<open>src[t][j]\<close> at position \<open>index[t][j]\<close>.
\<close>

definition scatter_row :: "nat \<Rightarrow> nat list \<Rightarrow> real list \<Rightarrow> real list" where
  "scatter_row n is vs = foldl (\<lambda>row (i, v). row[i := v]) (replicate n 0) (zip is vs)"

definition scatter_zeros :: "tensor \<Rightarrow> itensor \<Rightarrow> tensor \<Rightarrow> error + tensor" where
  "scatter_zeros p index src =
     (case (shape p, ishape index, shape src) of
        ([T, N], [T', K], [T'', K'']) \<Rightarrow>
          if T' > T \<or> T' > T'' \<or> K > K'' \<or> dtype p \<noteq> dtype src
             \<or> (\<exists>i \<in> set (idata index). i \<ge> N) then Inl RuntimeError
          else Inr ((mk_tensor [T, N]
                       (concat (map (\<lambda>t. if t < T'
                                          then scatter_row N (take K (drop (t * K) (idata index)))
                                                 (take K (drop (t * K'') (data src)))
                                          else replicate N 0) [0..<T]))
                       (dtype p) (requires_grad src))\<lparr>precision := precision src\<rparr>)
      | _ \<Rightarrow> Inl RuntimeError)"

text \<open>\<^verbatim>\<open>t.mean(0)\<close> of a matrix and \<^verbatim>\<open>c * t\<close> for a number \<open>c\<close>.\<close>

definition mean0 :: "tensor \<Rightarrow> tensor" where
  "mean0 t =
     (let T = hd (shape t); N = last_dim (shape t)
      in mk_tensor [N] (map (\<lambda>e. (\<Sum>r \<leftarrow> rows_of T N (data t). r ! e) / real T) [0..<N])
           (dtype t) (requires_grad t))"

definition mul_scalar :: "real \<Rightarrow> tensor \<Rightarrow> tensor" where
  "mul_scalar c t = mk_tensor (shape t) (map (\<lambda>x. c * x) (data t)) (dtype t) (requires_grad t)"

text \<open>
  The product \<^verbatim>\<open>a @ b\<close> of two vectors, a scalar: the vectors must agree in length and in
  element type.
\<close>

definition dot :: "real list \<Rightarrow> real list \<Rightarrow> real" where
  "dot a b = sum_list (map2 (*) a b)"

definition vdot :: "tensor \<Rightarrow> tensor \<Rightarrow> error + scalar" where
  "vdot a b =
     (if length (shape a) \<noteq> 1 \<or> shape a \<noteq> shape b \<or> dtype a \<noteq> dtype b then Inl RuntimeError
      else Inr \<lparr>sval = dot (data a) (data b), sdtype = dtype a,
                operands_grad = [requires_grad a, requires_grad b]\<rparr>)"

text \<open>
  \<^verbatim>\<open>torch.nn.functional.one_hot(index, num_classes=n).sum(dim=1)\<close> for an index matrix:
  entry \<open>(t, e)\<close> counts how often row \<open>t\<close> selects expert \<open>e\<close>.
\<close>

definition one_hot_sum :: "itensor \<Rightarrow> nat \<Rightarrow> error + itensor" where
  "one_hot_sum index n =
     (case ishape index of
        [T, K] \<Rightarrow>
          if n = 0 \<or> (\<exists>i \<in> set (idata index). i \<ge> n) then Inl RuntimeError
          else Inr \<lparr>ishape = [T, n],
                    idata = concat (map (\<lambda>r. map (\<lambda>e. count_list r e) [0..<n])
                                      (rows_of T K (idata index)))\<rparr>
      | _ \<Rightarrow> Inl RuntimeError)"

text \<open>\<^verbatim>\<open>torch.arange(0, n, step)\<close>.\<close>

definition arange :: "nat \<Rightarrow> nat \<Rightarrow> error + nat list" where
  "arange n step =
     (if step = 0 then Inl RuntimeError
      else Inr (map (\<lambda>j. j * step) [0..<(n + step - 1) div step]))"

text \<open>
  \<^verbatim>\<open>index + offs.view(1, -1, 1)\<close> for a three-dimensional \<open>index\<close> and a vector \<open>offs\<close>, with
  the library's broadcasting: the middle sizes must agree unless one of them is 1.
\<close>

definition add_offsets :: "itensor \<Rightarrow> nat list \<Rightarrow> error + itensor" where
  "add_offsets index offs =
     (case ishape index of
        [R, G, K] \<Rightarrow>
          let L = length offs in
          if G = L \<or> L = 1 \<or> G = 1 then
            let J = (if G = 1 then L else G) in
            Inr \<lparr>ishape = [R, J, K],
                 idata = concat (map (\<lambda>r. concat (map (\<lambda>j.
                           map (\<lambda>v. v + offs ! (if L = 1 then 0 else j))
                             (take K (drop ((r * G + (if G = 1 then 0 else j)) * K) (idata index))))
                           [0..<J])) [0..<R])\<rparr>
          else Inl RuntimeError
      | _ \<Rightarrow> Inl RuntimeError)"

text \<open>\<^verbatim>\<open>torch.nn.functional.linear(input, weight)\<close>, without bias.\<close>

definition linear :: "tensor \<Rightarrow> tensor \<Rightarrow> error + tensor" where
  "linear input w =
     (case shape w of
        [N, H] \<Rightarrow>
          if shape input = [] \<or> last (shape input) \<noteq> H \<or> dtype input \<noteq> dtype w then Inl RuntimeError
          else Inr (mk_tensor (butlast (shape input) @ [N])
                      (concat (map (\<lambda>x. map (\<lambda>wr. dot x wr) (rows_of N H (data w))) (trows input)))
                      (dtype input) (requires_grad input \<or> requires_grad w))
      | _ \<Rightarrow> Inl RuntimeError)"

subsection \<open>Random numbers\<close>

text \<open>
  The process-wide random state is a stream of draws from \<open>[0, 1)\<close>; drawing \<open>n\<close> numbers
  returns them together with the rest of the stream.
\<close>

type_synonym rng = "nat \<Rightarrow> real"

definition draw :: "nat \<Rightarrow> rng \<Rightarrow> real list \<times> rng" where
  "draw n g = (map g [0..<n], (\<lambda>i. g (i + n)))"

text \<open>
  The sampler \<^verbatim>\<open>torch.distributions.uniform.Uniform(low, high)\<close> is kept as its two bounds;
  its \<^verbatim>\<open>rsample(shape)\<close> is \<open>low + rand(shape) * (high - low)\<close>, in 32-bit precision.
\<close>

definition Uniform :: "real \<Rightarrow> real \<Rightarrow> real \<times> real" where
  "Uniform low high = (low, high)"

definition rsample :: "real \<times> real \<Rightarrow> nat list \<Rightarrow> rng \<Rightarrow> tensor \<times> rng" where
  "rsample s sh g =
     (let (us, g') = draw (numel sh) g
      in (mk_tensor sh (map (\<lambda>u. fst s + u * (snd s - fst s)) us) Float32 False, g'))"

text \<open>\<^verbatim>\<open>torch.empty_like(t).bernoulli_(p).bool()\<close>: an element is set with probability \<open>p\<close>.\<close>

definition bernoulli_mask :: "tensor \<Rightarrow> real \<Rightarrow> rng \<Rightarrow> (error + bool list) \<times> rng" where
  "bernoulli_mask t p g =
     (if p < 0 \<or> 1 < p then (Inl RuntimeError, g)
      else let (us, g') = draw (numel (shape t)) g in (Inr (map (\<lambda>u. u < p) us), g'))"

section \<open>Configuration and collaborators\<close>

text \<open>The fields of \<^verbatim>\<open>TransformerConfig\<close> that the router reads.\<close>

record config =
  num_moe_experts :: nat
  hidden_size :: nat
  moe_router_topk :: nat
  moe_router_load_balancing_type :: string
  moe_aux_loss_type :: string
  moe_router_type :: string
  moe_aux_loss_coeff :: real
  moe_z_loss_coeff :: "real option"
  moe_input_jitter_eps :: "real option"
  moe_dropout :: "real option"
  moe_group_size :: nat
  moe_token_dropping :: bool
  moe_groupedmoe :: bool

text \<open>
  The functions imported from \<^verbatim>\<open>megatron.core.transformer.moe.moe_utils\<close> are not part of
  the sources at hand; they are parameters of the development.
\<close>

record moe_utils =
  sinkhorn :: "tensor \<Rightarrow> tensor"
  switch_load_balancing_loss_func :: "tensor \<Rightarrow> itensor \<Rightarrow> real \<Rightarrow> scalar"
  z_loss_func :: "tensor \<Rightarrow> real \<Rightarrow> scalar"

text \<open>
  Modelled from the spec: \<^verbatim>\<open>MoEAuxLossAutoScaler.apply\<close> (of \<^verbatim>\<open>moe_utils\<close>, not in the
  sources at hand) is the gradient pass-through wrapper: it forwards the tensor untouched and
  attaches the loss to its gradient computation.
\<close>

definition MoEAuxLossAutoScaler_apply :: "tensor \<Rightarrow> scalar \<Rightarrow> tensor" where
  "MoEAuxLossAutoScaler_apply output aux_loss = output\<lparr>attached := attached output @ [aux_loss]\<rparr>"

text \<open>
  Modelled from the spec: \<^verbatim>\<open>attention_mask_func\<close> (of \<^verbatim>\<open>megatron.core.transformer.utils\<close>,
  not in the sources at hand) overwrites the masked positions with a large negative value
  \<open>fill\<close>, which is a parameter here.
\<close>

definition attention_mask_func :: "real \<Rightarrow> tensor \<Rightarrow> bool list \<Rightarrow> tensor" where
  "attention_mask_func fill attention_scores attention_mask =
     attention_scores\<lparr>data := map2 (\<lambda>x m. if m then fill else x) (data attention_scores) attention_mask\<rparr>"

section \<open>The router\<close>

text \<open>
  The attributes of a \<^verbatim>\<open>TopKRouter\<close>. \<open>input_jitter\<close> holds the bounds of the jitter sampler
  once it has been constructed; \<open>hidden\<close> is set by \<^verbatim>\<open>forward\<close>; \<open>training\<close> is the mode
  flag of the module.
\<close>

record router =
  config :: config
  num_experts :: nat
  moe_aux_loss_func :: "tensor \<Rightarrow> itensor \<Rightarrow> real \<Rightarrow> scalar"
  weight :: tensor
  topk :: nat
  routing_type :: string
  input_jitter :: "(real \<times> real) option"
  hidden :: "nat option"
  training :: bool

text \<open>
  \<^verbatim>\<open>Router.__init__\<close> creates the gate weight of shape \<open>(num_moe_experts, hidden_size)\<close>
  and has \<^verbatim>\<open>config.init_method\<close> fill it (under either placement); \<open>init_method\<close> gives
  the values. The loss function is still unset when it returns.
\<close>

record router_base =
  b_config :: config
  b_num_experts :: nat
  b_weight :: tensor

definition Router_init :: "(nat \<Rightarrow> real list) \<Rightarrow> config \<Rightarrow> router_base" where
  "Router_init init_method cfg =
     \<lparr>b_config = cfg,
      b_num_experts = num_moe_experts cfg,
      b_weight = mk_tensor [num_moe_experts cfg, hidden_size cfg]
                   (init_method (num_moe_experts cfg * hidden_size cfg)) Float32 True\<rparr>"

definition TopKRouter_init :: "moe_utils \<Rightarrow> (nat \<Rightarrow> real list) \<Rightarrow> config \<Rightarrow> error + router" where
  "TopKRouter_init U init_method cfg =
     (let base = Router_init init_method cfg in
      if moe_token_dropping cfg \<noteq> False then Inl AssertionError
      else Inr \<lparr>config = b_config base,
                num_experts = b_num_experts base,
                moe_aux_loss_func = switch_load_balancing_loss_func U,
                weight = b_weight base,
                topk = moe_router_topk (b_config base),
                routing_type = moe_router_load_balancing_type (b_config base),
                input_jitter = None,
                hidden = None,
                training = True\<rparr>)"

definition gating :: "router \<Rightarrow> tensor \<Rightarrow> error + tensor" where
  "gating self input = linear input (weight self)"

subsection \<open>Routing strategies\<close>

definition sinkhorn_activation :: "router \<Rightarrow> tensor \<Rightarrow> tensor" where
  "sinkhorn_activation self logits =
     (if topk self = 1 then torch_sigmoid logits
      else type_as (torch_softmax logits Float32) logits)"

definition sinkhorn_load_balancing :: "moe_utils \<Rightarrow> router \<Rightarrow> tensor \<Rightarrow> error + tensor \<times> itensor" where
  "sinkhorn_load_balancing U self logits =
     (if moe_aux_loss_coeff (config self) \<noteq> 0 then Inl AssertionError
      else if training self then
        (case torch_topk (no_grad (sinkhorn U (to_dtype_no_grad logits Float32))) (topk self) of
           Inl e \<Rightarrow> Inl e
         | Inr (_, indices) \<Rightarrow>
             (case torch_gather (sinkhorn_activation self logits) indices of
                Inl e \<Rightarrow> Inl e
              | Inr scores \<Rightarrow> Inr (scores, indices)))
      else torch_topk (sinkhorn_activation self logits) (topk self))"

definition apply_aux_loss ::
  "router \<Rightarrow> (tensor \<Rightarrow> itensor \<Rightarrow> real \<Rightarrow> scalar) \<Rightarrow> tensor \<Rightarrow> itensor \<Rightarrow> tensor \<Rightarrow> error + tensor" where
  "apply_aux_loss self loss_func probs indices activation =
     (case one_hot_sum indices (num_experts self) of
        Inl e \<Rightarrow> Inl e
      | Inr mask' \<Rightarrow>
          Inr (MoEAuxLossAutoScaler_apply activation
                 (loss_func probs mask' (moe_aux_loss_coeff (config self)))))"

text \<open>
  The dropout mask is drawn only when a non-zero rate is configured and the module is in
  training mode. The masked logits replace the logits for the rest of the function.
\<close>

definition sigmoid_load_balancing ::
  "real \<Rightarrow> router \<Rightarrow> rng \<Rightarrow> tensor \<Rightarrow> (error + tensor \<times> itensor) \<times> rng" where
  "sigmoid_load_balancing fill self g logits =
     (let (masked, g') =
            (case moe_dropout (config self) of
               Some p \<Rightarrow>
                 if p \<noteq> 0 \<and> training self then
                   (case bernoulli_mask logits p g of
                      (Inl e, g') \<Rightarrow> (Inl e, g')
                    | (Inr mask', g') \<Rightarrow> (Inr (attention_mask_func fill logits mask'), g'))
                 else (Inr logits, g)
             | None \<Rightarrow> (Inr logits, g))
      in case masked of
           Inl e \<Rightarrow> (Inl e, g')
         | Inr logits' \<Rightarrow>
             (case torch_topk (torch_sigmoid logits') (topk self) of
                Inl e \<Rightarrow> (Inl e, g')
              | Inr (scores, indices) \<Rightarrow>
                  (case apply_aux_loss self (moe_aux_loss_func self)
                          (torch_softmax logits' Float32) indices scores of
                     Inl e \<Rightarrow> (Inl e, g')
                   | Inr scores' \<Rightarrow> (Inr (scores', indices), g'))))"

text \<open>
  \<^verbatim>\<open>grouped_router\<close>: the softmax over all experts, the top \<open>topk // moe_group_size\<close> within
  each group of \<open>num_moe_experts // moe_group_size\<close> experts, and the local indices moved to
  global expert ids.
\<close>

definition grouped_router ::
  "tensor \<Rightarrow> nat \<Rightarrow> nat \<Rightarrow> nat \<Rightarrow> error + tensor \<times> tensor \<times> itensor" where
  "grouped_router logits num_moe_experts' topk' moe_group_size' =
     (let probs = torch_softmax logits Float32 in
      if moe_group_size' = 0 then Inl ZeroDivisionError
      else
        let group_num_experts = num_moe_experts' div moe_group_size';
            group_topk = topk' div moe_group_size'
        in case view_3d probs moe_group_size' group_num_experts of
             Inl e \<Rightarrow> Inl e
           | Inr grouped \<Rightarrow>
               (case torch_topk grouped group_topk of
                  Inl e \<Rightarrow> Inl e
                | Inr (scores3, indices) \<Rightarrow>
                    (case view_2d scores3 topk' of
                       Inl e \<Rightarrow> Inl e
                     | Inr scores \<Rightarrow>
                         (case arange num_moe_experts' group_num_experts of
                            Inl e \<Rightarrow> Inl e
                          | Inr offs \<Rightarrow>
                              (case add_offsets indices offs of
                                 Inl e \<Rightarrow> Inl e
                               | Inr adjusted3 \<Rightarrow>
                                   (case iview_2d adjusted3 topk' of
                                      Inl e \<Rightarrow> Inl e
                                    | Inr adjusted_indices \<Rightarrow>
                                        Inr (probs, scores, adjusted_indices)))))))"

definition aux_loss_load_balancing :: "router \<Rightarrow> tensor \<Rightarrow> error + tensor \<times> itensor" where
  "aux_loss_load_balancing self logits =
     (case
        (if moe_router_type (config self) = ''mixtral'' then
           (case torch_topk logits (topk self) of
              Inl e \<Rightarrow> Inl e
            | Inr (top_logits, indices) \<Rightarrow>
                Inr (torch_softmax logits Float32,
                     type_as (torch_softmax top_logits Float32) logits, indices))
         else if moe_router_type (config self) = ''st'' then
           (let probs = type_as (torch_softmax logits Float32) logits in
            case torch_topk probs (topk self) of
              Inl e \<Rightarrow> Inl e
            | Inr (scores, indices) \<Rightarrow> Inr (probs, scores, indices))
         else if moe_router_type (config self) = ''grouped'' then
           grouped_router logits (num_moe_experts (config self)) (topk self)
             (moe_group_size (config self))
         else Inl NotImplementedError)
      of
        Inl e \<Rightarrow> Inl e
      | Inr (probs, scores, indices) \<Rightarrow>
          (case apply_aux_loss self (moe_aux_loss_func self) probs indices scores of
             Inl e \<Rightarrow> Inl e
           | Inr scores' \<Rightarrow> Inr (scores', indices)))"

text \<open>
  The scatter of the top-k softmax values into a zero tensor, lines 213 to 219 of the source:
  under \<^verbatim>\<open>btx_nograd\<close> it runs inside \<^verbatim>\<open>torch.no_grad()\<close>.
\<close>

definition btx_top_logits_scattered :: "router \<Rightarrow> tensor \<Rightarrow> itensor \<Rightarrow> tensor \<Rightarrow> error + tensor" where
  "btx_top_logits_scattered self probs indices scores32 =
     (if moe_aux_loss_type (config self) = ''btx_nograd'' then
        (case scatter_zeros probs indices scores32 of
           Inl e \<Rightarrow> Inl e
         | Inr top_logits_scattered \<Rightarrow> Inr (no_grad top_logits_scattered))
      else scatter_zeros probs indices scores32)"

text \<open>
  In the source the loss is \<^verbatim>\<open>coeff * N * scattered.mean(0) @ probs.mean(0)\<close>: the vector of
  means is scaled first and then multiplied with the other vector. The weights are cast
  after the loss has been computed.
\<close>

definition btx_aux_loss_load_balancing :: "router \<Rightarrow> tensor \<Rightarrow> error + tensor \<times> itensor" where
  "btx_aux_loss_load_balancing self logits =
     (case torch_topk logits (topk self) of
        Inl e \<Rightarrow> Inl e
      | Inr (top_logits, indices) \<Rightarrow>
          (let scores32 = torch_softmax top_logits Float32;
               probs = torch_softmax logits Float32
           in (case btx_top_logits_scattered self probs indices scores32 of
                 Inl e \<Rightarrow> Inl e
               | Inr top_logits_scattered \<Rightarrow>
                   (case vdot (mul_scalar (moe_aux_loss_coeff (config self)
                                             * real (num_moe_experts (config self)))
                                 (mean0 top_logits_scattered))
                              (mean0 probs) of
                      Inl e \<Rightarrow> Inl e
                    | Inr aux_loss \<Rightarrow>
                        (let scores = type_as scores32 logits
                         in Inr (MoEAuxLossAutoScaler_apply scores aux_loss, indices))))))"

subsection \<open>Regularisation of the logits\<close>

definition apply_z_loss :: "moe_utils \<Rightarrow> router \<Rightarrow> tensor \<Rightarrow> tensor" where
  "apply_z_loss U self logits =
     (case moe_z_loss_coeff (config self) of
        Some c \<Rightarrow> MoEAuxLossAutoScaler_apply logits (z_loss_func U logits c)
      | None \<Rightarrow> logits)"

text \<open>
  The sampler is constructed on first use and kept in \<open>input_jitter\<close>; every use draws one
  number per element from the random state.
\<close>

definition apply_input_jitter :: "router \<Rightarrow> rng \<Rightarrow> tensor \<Rightarrow> tensor \<times> router \<times> rng" where
  "apply_input_jitter self g input =
     (case moe_input_jitter_eps (config self) of
        Some eps \<Rightarrow>
          (let s = (case input_jitter self of
                      None \<Rightarrow> Uniform (1 - eps) (1 + eps)
                    | Some s \<Rightarrow> s);
               self' = self\<lparr>input_jitter := Some s\<rparr>;
               (noise, g') = rsample s (shape input) g
           in (mul input noise, self', g'))
      | None \<Rightarrow> (input, self, g))"

subsection \<open>Dispatch\<close>

definition routing ::
  "moe_utils \<Rightarrow> real \<Rightarrow> router \<Rightarrow> rng \<Rightarrow> tensor \<Rightarrow> (error + tensor \<times> itensor) \<times> router \<times> rng" where
  "routing U fill self g logits =
     (case view_2d logits (num_moe_experts (config self)) of
        Inl e \<Rightarrow> (Inl e, self, g)
      | Inr logits1 \<Rightarrow>
          (let logits2 = apply_z_loss U self logits1 in
           case apply_input_jitter self g logits2 of
            (logits3, self', g') \<Rightarrow>
              if routing_type self' = ''sinkhorn'' then
                (sinkhorn_load_balancing U self' logits3, self', g')
              else if routing_type self' = ''aux_loss'' then
                (if moe_aux_loss_type (config self') = ''switch'' then
                   (aux_loss_load_balancing self' logits3, self', g')
                 else if sublist ''btx'' (moe_aux_loss_type (config self')) then
                   (btx_aux_loss_load_balancing self' logits3, self', g')
                 else (Inl ValueError, self', g'))
              else if routing_type self' = ''none'' then
                (case torch_topk logits3 (topk self') of
                   Inl e \<Rightarrow> (Inl e, self', g')
                 | Inr (top_logits, indices) \<Rightarrow>
                     (Inr (type_as (torch_softmax top_logits Float32) logits3, indices), self', g'))
              else if routing_type self' = ''sigmoid'' then
                (case sigmoid_load_balancing fill self' g' logits3 of
                   (r, g'') \<Rightarrow> (r, self', g''))
              else (Inl ValueError, self', g')))"

definition forward ::
  "moe_utils \<Rightarrow> real \<Rightarrow> router \<Rightarrow> rng \<Rightarrow> tensor \<Rightarrow> (error + tensor \<times> itensor) \<times> router \<times> rng" where
  "forward U fill self g input =
     (if shape input = [] then (Inl IndexError, self, g)
      else
        let self1 = self\<lparr>hidden := Some (last (shape input))\<rparr> in
        case gating self1 input of
          Inl e \<Rightarrow> (Inl e, self1, g)
        | Inr logits \<Rightarrow>
            (case view_2d logits (num_moe_experts (config self1)) of
               Inl e \<Rightarrow> (Inl e, self1, g)
             | Inr logits' \<Rightarrow> routing U fill self1 g logits'))"

section \<open>Descriptions used in the statements\<close>

text \<open>
  The jitter noise in the specification's words: one draw per element, uniform between the
  bounds of the sampler.
\<close>

definition jitter_noise :: "real \<times> real \<Rightarrow> nat \<Rightarrow> rng \<Rightarrow> real list" where
  "jitter_noise s n g = map (\<lambda>i. fst s + g i * (snd s - fst s)) [0..<n]"

text \<open>
  The tensor \<open>x\<close> multiplied elementwise with the noise of the sampler \<open>s\<close>: the product is
  formed in 32-bit precision at least, and the noise carries no gradient.
\<close>

definition jittered :: "real \<times> real \<Rightarrow> rng \<Rightarrow> tensor \<Rightarrow> tensor" where
  "jittered s g x =
     mk_tensor (shape x) (map2 (*) (data x) (jitter_noise s (numel (shape x)) g))
       (promote (dtype x) Float32) (requires_grad x)"

text \<open>
  The sampler in use once an epsilon is configured: the one the router already holds, or
  else the one over \<open>[1 - eps, 1 + eps]\<close>.
\<close>

definition sampler_of :: "router \<Rightarrow> real \<Rightarrow> real \<times> real" where
  "sampler_of self eps = (case input_jitter self of None \<Rightarrow> (1 - eps, 1 + eps) | Some s \<Rightarrow> s)"

text \<open>
  The same router with neither an input-jitter epsilon nor a z-loss coefficient configured:
  its routing call hands the logits as they are to the strategy.
\<close>

definition strategy_only :: "router \<Rightarrow> router" where
  "strategy_only self =
     self\<lparr>config := (config self)\<lparr>moe_input_jitter_eps := None, moe_z_loss_coeff := None\<rparr>\<rparr>"

text \<open>The routing decision of the strategy of \<open>self\<close> on the logits \<open>l\<close> as they are.\<close>

definition routed_with ::
  "moe_utils \<Rightarrow> real \<Rightarrow> router \<Rightarrow> rng \<Rightarrow> tensor \<Rightarrow> (error + tensor \<times> itensor) \<times> router \<times> rng" where
  "routed_with U fill self g l =
     (case routing U fill (strategy_only self) g l of (r, _, g') \<Rightarrow> (r, self, g'))"

text \<open>
  The logits after the dropout mask of the sigmoid strategy, in the specification's words:
  in training mode with a non-zero rate \<open>p\<close>, every element whose draw falls below \<open>p\<close> is
  overwritten with \<open>fill\<close>; otherwise the logits are untouched. \<open>dropout_draws\<close> is the
  number of random numbers this consumes.
\<close>

definition dropout_masked :: "real \<Rightarrow> router \<Rightarrow> rng \<Rightarrow> tensor \<Rightarrow> tensor" where
  "dropout_masked fill self g logits =
     (case moe_dropout (config self) of
        Some p \<Rightarrow>
          if p \<noteq> 0 \<and> training self
          then logits\<lparr>data := map2 (\<lambda>x u. if u < p then fill else x) (data logits)
                                  (map g [0..<numel (shape logits)])\<rparr>
          else logits
      | None \<Rightarrow> logits)"

definition dropout_draws :: "router \<Rightarrow> tensor \<Rightarrow> nat" where
  "dropout_draws self logits =
     (case moe_dropout (config self) of
        Some p \<Rightarrow> if p \<noteq> 0 \<and> training self then numel (shape logits) else 0
      | None \<Rightarrow> 0)"

text \<open>The activation of the sinkhorn strategy: sigmoid when \<open>k = 1\<close>, softmax otherwise.\<close>

definition activation_row :: "nat \<Rightarrow> real list \<Rightarrow> real list" where
  "activation_row k r = (if k = 1 then map sigmoid r else softmax_row r)"

text \<open>
  The grouped selection of one token, in the specification's words: within each of the \<open>gs\<close>
  groups of \<open>g\<close> experts the top \<open>kt\<close> are taken, and the local indices of group \<open>j\<close> are
  offset by \<open>j * g\<close>; \<open>group_values\<close> are the selected values.
\<close>

definition group_select :: "nat \<Rightarrow> nat \<Rightarrow> nat \<Rightarrow> real list \<Rightarrow> nat list" where
  "group_select gs g kt r =
     concat (map (\<lambda>j. map (\<lambda>v. v + j * g) (topk_row kt (take g (drop (j * g) r)))) [0..<gs])"

definition group_values :: "nat \<Rightarrow> nat \<Rightarrow> nat \<Rightarrow> real list \<Rightarrow> real list" where
  "group_values gs g kt r =
     concat (map (\<lambda>j. pick (take g (drop (j * g) r)) (topk_row kt (take g (drop (j * g) r)))) [0..<gs])"

text \<open>
  The two properties of a routing decision: every row of the indices is free of duplicates
  and within range, and every weight is positive.
\<close>

definition valid_indices :: "nat \<Rightarrow> itensor \<Rightarrow> bool" where
  "valid_indices N idx = (\<forall>row \<in> set (irows idx). distinct row \<and> (\<forall>i \<in> set row. i < N))"

definition positive :: "tensor \<Rightarrow> bool" where
  "positive t = (\<forall>x \<in> set (data t). 0 < x)"

section \<open>Observations and example inputs\<close>


definition indices_of :: "(error + tensor \<times> itensor) \<Rightarrow> nat list list option" where
  "indices_of res = (case res of Inl e \<Rightarrow> None | Inr (scores, indices) \<Rightarrow> Some (irows indices))"

text \<open>The values of the losses attached to the returned weights.\<close>

definition attached_of :: "(error + tensor \<times> itensor) \<Rightarrow> real list option" where
  "attached_of res =
     (case res of Inl e \<Rightarrow> None | Inr (scores, indices) \<Rightarrow> Some (map sval (attached scores)))"

text \<open>
  Stand-ins for the collaborators, used in the examples only: a normalisation without any
  balancing pass, and losses that are simple sums.
\<close>

definition demo_utils :: moe_utils where
  "demo_utils =
     \<lparr>sinkhorn = (\<lambda>t. mk_tensor (shape t) (map exp (data t)) (dtype t) (requires_grad t)),
      switch_load_balancing_loss_func =
        (\<lambda>probs m c. \<lparr>sval = c * sum_list (map2 (\<lambda>p n. p * real n) (data probs) (idata m)),
                       sdtype = dtype probs, operands_grad = [requires_grad probs]\<rparr>),
      z_loss_func =
        (\<lambda>logits c. \<lparr>sval = c * sum_list (map (\<lambda>x. x * x) (data logits)),
                      sdtype = dtype logits, operands_grad = [requires_grad logits]\<rparr>)\<rparr>"

definition demo_config :: config where
  "demo_config =
     \<lparr>num_moe_experts = 2, hidden_size = 2, moe_router_topk = 1,
      moe_router_load_balancing_type = ''none'', moe_aux_loss_type = ''switch'',
      moe_router_type = ''st'', moe_aux_loss_coeff = 0, moe_z_loss_coeff = None,
      moe_input_jitter_eps = None, moe_dropout = None, moe_group_size = 1,
      moe_token_dropping = False, moe_groupedmoe = False\<rparr>"

text \<open>The router that \<^verbatim>\<open>TopKRouter(config)\<close> returns, with the identity as gate weight.\<close>

definition demo_router :: "config \<Rightarrow> router" where
  "demo_router cfg =
     \<lparr>config = cfg, num_experts = num_moe_experts cfg,
      moe_aux_loss_func = switch_load_balancing_loss_func demo_utils,
      weight = mk_tensor [2, 2] [1, 0, 0, 1] Float32 True,
      topk = moe_router_topk cfg, routing_type = moe_router_load_balancing_type cfg,
      input_jitter = None, hidden = None, training = True\<rparr>"

definition demo_rng :: rng where
  "demo_rng = (\<lambda>i. 1 / real (i + 2))"

definition demo_fill :: real where
  "demo_fill = - 10000"

definition sinkhorn_coeff_config :: config where
  "sinkhorn_coeff_config =
     demo_config\<lparr>moe_router_load_balancing_type := ''sinkhorn'', moe_aux_loss_coeff := 1 / 10,
                 moe_input_jitter_eps := Some (1 / 2)\<rparr>"

definition logits_2_3 :: tensor where
  "logits_2_3 = mk_tensor [1, 2] [2, 3] Float32 True"

definition jitter_eval_router :: router where
  "jitter_eval_router =
     (demo_router (demo_config\<lparr>moe_input_jitter_eps := Some (1 / 2)\<rparr>))\<lparr>training := False\<rparr>"

definition plain_eval_router :: router where
  "plain_eval_router = (demo_router demo_config)\<lparr>training := False\<rparr>"

definition input_6_7 :: tensor where
  "input_6_7 = mk_tensor [1, 2] [6, 7] Float32 False"

definition logits_6_7 :: tensor where
  "logits_6_7 = mk_tensor [1, 2] [6, 7] Float32 False"

definition dropout_router :: router where
  "dropout_router =
     demo_router (demo_config\<lparr>moe_router_load_balancing_type := ''sigmoid'',
                              moe_dropout := Some (1 / 2), moe_aux_loss_coeff := 1\<rparr>)"

definition sinkhorn_router :: router where
  "sinkhorn_router = demo_router (demo_config\<lparr>moe_router_load_balancing_type := ''sinkhorn''\<rparr>)"

text \<open>
  The BTX variant over three experts with \<open>top_k = 2\<close>, and two tokens in reduced precision
  whose softmax values are rational.
\<close>

definition btx_config :: config where
  "btx_config =
     demo_config\<lparr>num_moe_experts := 3, moe_router_topk := 2,
                 moe_router_load_balancing_type := ''aux_loss'',
                 moe_aux_loss_type := ''btx'', moe_aux_loss_coeff := 1\<rparr>"

definition btx_router :: router where
  "btx_router = demo_router btx_config"

definition btx_nograd_router :: router where
  "btx_nograd_router = demo_router (btx_config\<lparr>moe_aux_loss_type := ''btx_nograd''\<rparr>)"

definition logits_btx :: tensor where
  "logits_btx = mk_tensor [2, 3] [ln 3, 0, ln 2,  0, ln 4, ln 3] BFloat16 True"

text \<open>The logits of the worked example in the documentation of \<^verbatim>\<open>grouped_router\<close>.\<close>

definition docstring_logits :: tensor where
  "docstring_logits =
     mk_tensor [4, 8]
       [0.6605, 0.5067, -2.7087, -1.0703, -0.4339, -0.0618, 0.3023, -0.6805,
        0.2585, 1.1013, 1.2551, 0.0448, 0.8753, -0.0532, 1.7316, 1.0494,
        0.3005, -1.2615, -0.4880, -0.7913, 0.1651, 1.3444, 0.3161, -0.6222,
        -1.4876, -0.2928, 0.2573, 0.9561, -0.3219, 0.8441, -0.6582, -0.6504]
       Float32 False"

definition grouped_indices_of :: "(error + tensor \<times> tensor \<times> itensor) \<Rightarrow> nat list list option" where
  "grouped_indices_of res =
     (case res of Inl e \<Rightarrow> None | Inr (probs, scores, indices) \<Rightarrow> Some (irows indices))"

definition weights_dtype_of :: "(error + tensor \<times> itensor) \<Rightarrow> dtype option" where
  "weights_dtype_of res = (case res of Inl e \<Rightarrow> None | Inr (scores, indices) \<Rightarrow> Some (dtype scores))"

text \<open>
  Grouped routing over four experts in two groups, with \<open>top_k = 3\<close> (not a multiple of the
  group size) and with \<open>top_k = 2\<close>, and the st-style router on the same experts.
\<close>

definition grouped_odd_router :: router where
  "grouped_odd_router =
     demo_router (demo_config\<lparr>num_moe_experts := 4, moe_router_topk := 3,
                              moe_router_load_balancing_type := ''aux_loss'',
                              moe_aux_loss_type := ''switch'', moe_router_type := ''grouped'',
                              moe_group_size := 2\<rparr>)"

definition logits_3x4 :: tensor where
  "logits_3x4 = mk_tensor [3, 4] [3, 0, 2, 0,  5, 1, 0, 4,  1, 2, 7, 6] Float32 False"

definition grouped_even_router :: router where
  "grouped_even_router =
     demo_router (demo_config\<lparr>num_moe_experts := 4, moe_router_topk := 2,
                              moe_router_load_balancing_type := ''aux_loss'',
                              moe_aux_loss_type := ''switch'', moe_router_type := ''grouped'',
                              moe_group_size := 2\<rparr>)"

definition st_router :: router where
  "st_router =
     demo_router (demo_config\<lparr>num_moe_experts := 4, moe_router_topk := 2,
                              moe_router_load_balancing_type := ''aux_loss'',
                              moe_aux_loss_type := ''switch'', moe_router_type := ''st''\<rparr>)"

definition logits_3x4_bf16 :: tensor where
  "logits_3x4_bf16 = mk_tensor [3, 4] [3, 0, 2, 0,  5, 1, 0, 4,  1, 2, 7, 6] BFloat16 True"


section \<open>Lists of rows\<close>

lemma drop_concat_rows:
  "\<forall>r \<in> set rs. length r = n \<Longrightarrow> drop (i * n) (concat rs) = concat (drop i rs)"
proof (induction rs arbitrary: i)
  case Nil
  then show ?case by simp
next
  case (Cons r rs)
  show ?case
  proof (cases i)
    case 0
    then show ?thesis by simp
  next
    case (Suc j)
    with Cons show ?thesis by simp
  qed
qed

lemma length_rows_of [simp]: "length (rows_of cnt n xs) = cnt"
  by (simp add: rows_of_def)

lemma rows_of_concat:
  assumes "\<forall>r \<in> set rs. length r = n"
  shows "rows_of (length rs) n (concat rs) = rs"
proof (rule nth_equalityI)
  show "length (rows_of (length rs) n (concat rs)) = length rs"
    by simp
next
  fix i assume "i < length (rows_of (length rs) n (concat rs))"
  then have i: "i < length rs" by simp
  then have "drop i rs = rs ! i # drop (Suc i) rs"
    by (simp add: Cons_nth_drop_Suc)
  moreover have "length (rs ! i) = n" using assms i by simp
  ultimately have "take n (concat (drop i rs)) = rs ! i" by simp
  with i show "rows_of (length rs) n (concat rs) ! i = rs ! i"
    by (simp add: rows_of_def drop_concat_rows[OF assms])
qed

lemma rows_of_row_length:
  assumes "length xs = cnt * n" "r \<in> set (rows_of cnt n xs)"
  shows "length r = n"
proof -
  from assms(2) obtain i where i: "i < cnt" and r: "r = take n (drop (i * n) xs)"
    by (auto simp: rows_of_def)
  have "i * n + n \<le> cnt * n"
    using i by (metis Suc_leI mult_Suc mult_le_mono1 add.commute)
  then show ?thesis using assms(1) r by simp
qed

lemma concat_rows_of_take: "concat (rows_of cnt n xs) = take (cnt * n) xs"
proof (induction cnt)
  case 0
  then show ?case by (simp add: rows_of_def)
next
  case (Suc c)
  have "rows_of (Suc c) n xs = rows_of c n xs @ [take n (drop (c * n) xs)]"
    by (simp add: rows_of_def)
  moreover have "take (c * n + n) xs = take (c * n) xs @ take n (drop (c * n) xs)"
    by (rule take_add)
  ultimately show ?case using Suc by (simp add: add.commute)
qed

lemma concat_rows_of: "length xs = cnt * n \<Longrightarrow> concat (rows_of cnt n xs) = xs"
  by (simp add: concat_rows_of_take)

lemma concat_map_length:
  "\<forall>r \<in> set rs. length (f r) = k \<Longrightarrow> length (concat (map f rs)) = length rs * k"
  by (induction rs) auto

lemma rows_of_concat_map:
  assumes "\<forall>r \<in> set rs. length (f r) = k" "length rs = cnt"
  shows "rows_of cnt k (concat (map f rs)) = map f rs"
  using rows_of_concat[of "map f rs" k] assms by simp

section \<open>Top-k selection of a row\<close>

lemma length_topk_row: "k \<le> length xs \<Longrightarrow> length (topk_row k xs) = k"
  by (simp add: topk_row_def)

lemma distinct_topk_row: "distinct (topk_row k xs)"
  by (simp add: topk_row_def)

lemma set_topk_row: "i \<in> set (topk_row k xs) \<Longrightarrow> i < length xs"
  unfolding topk_row_def using in_set_takeD by fastforce

lemma insort_key_order_cong:
  assumes "\<forall>y \<in> set ys. (f x \<le> f y) = (h x \<le> h y)"
  shows "insort_key f x ys = insort_key h x ys"
  using assms by (induction ys) auto

lemma sort_key_order_cong:
  assumes "\<forall>x \<in> set xs. \<forall>y \<in> set xs. (f x \<le> f y) = (h x \<le> h y)"
  shows "sort_key f xs = sort_key h xs"
  using assms
proof (induction xs)
  case Nil
  then show ?case by simp
next
  case (Cons x xs)
  then have "sort_key f xs = sort_key h xs" by simp
  moreover have "insort_key f x (sort_key h xs) = insort_key h x (sort_key h xs)"
    using Cons.prems by (intro insort_key_order_cong) simp
  ultimately show ?case by simp
qed

text \<open>The selection depends on the order of the entries only.\<close>

lemma topk_row_map_mono:
  assumes "\<And>a b. (f a \<le> f b) = (a \<le> (b::real))"
  shows "topk_row k (map f xs) = topk_row k xs"
proof -
  have "sort_key (\<lambda>i. - (map f xs ! i)) [0..<length xs] = sort_key (\<lambda>i. - (xs ! i)) [0..<length xs]"
    by (rule sort_key_order_cong) (simp add: assms)
  then show ?thesis by (simp add: topk_row_def)
qed

lemma sum_list_exp_pos: "xs \<noteq> [] \<Longrightarrow> 0 < sum_list (map exp (xs::real list))"
proof (induction xs)
  case Nil
  then show ?case by simp
next
  case (Cons a xs)
  have "0 \<le> sum_list (map exp xs)" by (rule sum_list_nonneg) auto
  moreover have "0 < exp a" by simp
  ultimately show ?case by (simp add: add_pos_nonneg)
qed

section \<open>Shapes and rows of the tensor operations\<close>

lemma numel_simps [simp]: "numel [] = 1" "numel (n # sh) = n * numel sh"
  by (simp_all add: numel_def)

lemma last_dim_simps [simp]:
  "last_dim [] = 1" "last_dim [n] = n" "last_dim (a # b # sh) = last_dim (b # sh)"
  by (simp_all add: last_dim_def)

lemma mk_tensor_sel [simp]:
  "shape (mk_tensor sh xs d rg) = sh" "data (mk_tensor sh xs d rg) = xs"
  "dtype (mk_tensor sh xs d rg) = d" "requires_grad (mk_tensor sh xs d rg) = rg"
  "attached (mk_tensor sh xs d rg) = []" "precision (mk_tensor sh xs d rg) = d"
  by (simp_all add: mk_tensor_def)

lemma trows_2d: "shape t = [T, N] \<Longrightarrow> trows t = rows_of T N (data t)"
  by (simp add: trows_def)

lemma irows_2d: "ishape t = [T, N] \<Longrightarrow> irows t = rows_of T N (idata t)"
  by (simp add: irows_def)

lemma torch_topk_2d:
  assumes "wf_tensor t" "shape t = [T, N]" "k \<le> N"
  shows "\<exists>v idx. torch_topk t k = Inr (v, idx)
           \<and> shape v = [T, k] \<and> ishape idx = [T, k] \<and> dtype v = dtype t
           \<and> requires_grad v = requires_grad t \<and> attached v = [] \<and> precision v = precision t
           \<and> wf_tensor v \<and> length (idata idx) = T * k
           \<and> irows idx = map (topk_row k) (trows t)
           \<and> trows v = map (\<lambda>r. pick r (topk_row k r)) (trows t)"
proof -
  let ?rs = "rows_of T N (data t)"
  have len: "length (data t) = T * N" using assms by (simp add: wf_tensor_def)
  have rl: "\<forall>r \<in> set ?rs. length r = N" using rows_of_row_length[OF len] by blast
  then have a: "\<forall>r \<in> set ?rs. length (topk_row k r) = k"
    using assms(3) by (simp add: length_topk_row)
  then have b: "\<forall>r \<in> set ?rs. length (pick r (topk_row k r)) = k"
    by (simp add: pick_def)
  show ?thesis
    using assms rows_of_concat_map[OF a, of T] rows_of_concat_map[OF b, of T]
      concat_map_length[OF a] concat_map_length[OF b]
    by (simp add: torch_topk_def Let_def trows_2d irows_2d wf_tensor_def)
qed

lemma torch_topk_2d_range:
  assumes "wf_tensor t" "shape t = [T, N]" "torch_topk t k = Inr (v, idx)"
  shows "\<forall>i \<in> set (idata idx). i < N"
proof -
  have len: "length (data t) = T * N" using assms by (simp add: wf_tensor_def)
  have "idata idx = concat (map (topk_row k) (rows_of T N (data t)))"
    using assms by (auto simp: torch_topk_def Let_def trows_2d split: if_splits)
  then show ?thesis
    using rows_of_row_length[OF len] set_topk_row by fastforce
qed

lemma rows_of_map: "rows_of cnt n (map f xs) = map (map f) (rows_of cnt n xs)"
  by (simp add: rows_of_def take_map drop_map)

lemma one_hot_sum_ok:
  assumes "ishape idx = [T, K]" "0 < n" "\<forall>i \<in> set (idata idx). i < n"
  shows "\<exists>m. one_hot_sum idx n = Inr m \<and> ishape m = [T, n]
           \<and> irows m = map (\<lambda>r. map (count_list r) [0..<n]) (irows idx)"
proof -
  have "\<forall>r \<in> set (rows_of T K (idata idx)). length (map (count_list r) [0..<n]) = n" by simp
  from rows_of_concat_map[OF this, of T] show ?thesis
    using assms by (auto simp: one_hot_sum_def irows_2d)
qed

lemma view_2d_same: "shape t = [T, N] \<Longrightarrow> 0 < N \<Longrightarrow> view_2d t N = Inr t"
  by (simp add: view_2d_def)

lemma view_2d_Inr:
  "view_2d t n = Inr t' \<Longrightarrow>
     shape t' = [numel (shape t) div n, n] \<and> data t' = data t \<and> dtype t' = dtype t
     \<and> requires_grad t' = requires_grad t \<and> 0 < n \<and> numel (shape t) mod n = 0"
  by (auto simp: view_2d_def split: if_splits)

lemma view_2d_wf: "view_2d t n = Inr t' \<Longrightarrow> wf_tensor t \<Longrightarrow> wf_tensor t'"
  by (auto simp: view_2d_def wf_tensor_def split: if_splits)

lemma sigmoid_le_iff [simp]: "(sigmoid a \<le> sigmoid b) = (a \<le> b)"
proof -
  have "0 < 1 + exp (- a)" "0 < 1 + exp (- b)" by (simp_all add: add_pos_pos)
  then have "(sigmoid a \<le> sigmoid b) = (1 + exp (- b) \<le> 1 + exp (- a))"
    by (simp add: sigmoid_def field_simps)
  then show ?thesis by simp
qed

lemma sigmoid_pos: "0 < sigmoid x"
  by (simp add: sigmoid_def add_pos_pos)

section \<open>The steps before the strategy\<close>

lemma jitter_keeps_config:
  "apply_input_jitter self g x = (r, self', g') \<Longrightarrow>
     config self' = config self \<and> routing_type self' = routing_type self
     \<and> topk self' = topk self \<and> training self' = training self
     \<and> num_experts self' = num_experts self \<and> moe_aux_loss_func self' = moe_aux_loss_func self"
  by (auto simp: apply_input_jitter_def Let_def split: option.splits prod.splits)

lemma apply_input_jitter_none:
  "moe_input_jitter_eps (config self) = None \<Longrightarrow> apply_input_jitter self g x = (x, self, g)"
  by (simp add: apply_input_jitter_def)

lemma apply_input_jitter_some:
  assumes "moe_input_jitter_eps (config self) = Some eps"
  shows "apply_input_jitter self g x =
     (jittered (sampler_of self eps) g x, self\<lparr>input_jitter := Some (sampler_of self eps)\<rparr>,
      (\<lambda>i. g (i + numel (shape x))))"
  using assms
  by (cases "input_jitter self")
     (simp_all add: apply_input_jitter_def Uniform_def rsample_def draw_def Let_def mul_def comp_def
        jitter_noise_def jittered_def sampler_of_def)

lemma jitter_independent_of_mode:
  "apply_input_jitter (self\<lparr>training := b\<rparr>) g x =
     (case apply_input_jitter self g x of (r, self', g') \<Rightarrow> (r, self'\<lparr>training := b\<rparr>, g'))"
  by (simp add: apply_input_jitter_def Let_def rsample_def draw_def split: option.splits)

lemma apply_z_loss_sel [simp]:
  "shape (apply_z_loss U self t) = shape t" "data (apply_z_loss U self t) = data t"
  "dtype (apply_z_loss U self t) = dtype t" "requires_grad (apply_z_loss U self t) = requires_grad t"
  by (simp_all add: apply_z_loss_def MoEAuxLossAutoScaler_apply_def split: option.splits)

lemma apply_z_loss_wf [simp]: "wf_tensor (apply_z_loss U self t) = wf_tensor t"
  by (simp add: wf_tensor_def)

lemma apply_input_jitter_result:
  assumes "apply_input_jitter self g x = (y, self', g')"
  shows "shape y = shape x \<and> requires_grad y = requires_grad x \<and> (wf_tensor x \<longrightarrow> wf_tensor y)
         \<and> (moe_input_jitter_eps (config self) = None \<longrightarrow> y = x)"
  using assms
  by (auto simp: apply_input_jitter_def Let_def rsample_def draw_def mul_def wf_tensor_def
      split: option.splits prod.splits)

lemma routing_dispatch:
  assumes "view_2d logits (num_moe_experts (config self)) = Inr l1"
    and "apply_input_jitter self g (apply_z_loss U self l1) = (l3, self', g')"
  shows "routing U fill self g logits =
     (if routing_type self = ''sinkhorn'' then (sinkhorn_load_balancing U self' l3, self', g')
      else if routing_type self = ''aux_loss'' then
        (if moe_aux_loss_type (config self) = ''switch'' then (aux_loss_load_balancing self' l3, self', g')
         else if sublist ''btx'' (moe_aux_loss_type (config self)) then
           (btx_aux_loss_load_balancing self' l3, self', g')
         else (Inl ValueError, self', g'))
      else if routing_type self = ''none'' then
        (case torch_topk l3 (topk self) of
           Inl e \<Rightarrow> (Inl e, self', g')
         | Inr (top_logits, indices) \<Rightarrow>
             (Inr (type_as (torch_softmax top_logits Float32) l3, indices), self', g'))
      else if routing_type self = ''sigmoid'' then
        (case sigmoid_load_balancing fill self' g' l3 of (r, g'') \<Rightarrow> (r, self', g''))
      else (Inl ValueError, self', g'))"
  using assms jitter_keeps_config[OF assms(2)]
  by (simp add: routing_def Let_def)

lemma routing_pre:
  assumes "view_2d logits N = Inr l1"
    and "apply_input_jitter self g (apply_z_loss U self l1) = (l3, self', g')"
    and "wf_tensor logits"
  shows "wf_tensor l3 \<and> shape l3 = [numel (shape logits) div N, N] \<and> 0 < N"
  using view_2d_Inr[OF assms(1)] view_2d_wf[OF assms(1) assms(3)] apply_input_jitter_result[OF assms(2)]
  by simp

lemma sinkhorn_coeff_raises:
  "moe_aux_loss_coeff (config self) \<noteq> 0 \<Longrightarrow> sinkhorn_load_balancing U self logits = Inl AssertionError"
  by (simp add: sinkhorn_load_balancing_def)

section \<open>More on the tensor operations\<close>

lemma numel_butlast_last: "numel sh = numel (butlast sh) * last_dim sh"
  by (induction sh rule: rev_induct) (simp_all add: numel_def last_dim_def split: list.splits)

lemma last_dim_snoc [simp]: "last_dim (sh @ [k]) = k"
  by (cases sh) (simp_all add: last_dim_def)

lemma trows_length: "wf_tensor t \<Longrightarrow> r \<in> set (trows t) \<Longrightarrow> length r = last_dim (shape t)"
  unfolding trows_def wf_tensor_def
  using rows_of_row_length numel_butlast_last by metis

lemma torch_topk_wf:
  assumes "wf_tensor t" "k \<le> last_dim (shape t)"
  shows "\<exists>v idx. torch_topk t k = Inr (v, idx)
           \<and> shape v = butlast (shape t) @ [k] \<and> ishape idx = butlast (shape t) @ [k]
           \<and> dtype v = dtype t \<and> requires_grad v = requires_grad t \<and> attached v = []
           \<and> precision v = precision t
           \<and> wf_tensor v \<and> length (idata idx) = numel (butlast (shape t)) * k
           \<and> irows idx = map (topk_row k) (trows t)
           \<and> trows v = map (\<lambda>r. pick r (topk_row k r)) (trows t)"
proof -
  let ?rs = "trows t"
  let ?c = "numel (butlast (shape t))"
  have c: "length ?rs = ?c" by (simp add: trows_def)
  have rl: "\<forall>r \<in> set ?rs. length r = last_dim (shape t)"
    using trows_length[OF assms(1)] by blast
  then have a: "\<forall>r \<in> set ?rs. length (topk_row k r) = k"
    using assms(2) by (simp add: length_topk_row)
  then have b: "\<forall>r \<in> set ?rs. length (pick r (topk_row k r)) = k"
    by (simp add: pick_def)
  have n: "numel (butlast (shape t) @ [k]) = ?c * k"
    using numel_butlast_last[of "butlast (shape t) @ [k]"] by simp
  show ?thesis
    using assms rows_of_concat_map[OF a c] rows_of_concat_map[OF b c]
      concat_map_length[OF a] concat_map_length[OF b] c n
    by (simp add: torch_topk_def Let_def wf_tensor_def irows_def
        trows_def[of "(mk_tensor _ _ _ _)\<lparr>precision := _\<rparr>"])
qed

lemma torch_topk_Inr:
  assumes "torch_topk t k = Inr (v, idx)"
  shows "k \<le> last_dim (shape t)"
  using assms by (auto simp: torch_topk_def split: if_splits)

lemma torch_softmax_2d:
  assumes "wf_tensor t" "shape t = [T, N]"
  shows "wf_tensor (torch_softmax t d) \<and> shape (torch_softmax t d) = [T, N]
         \<and> trows (torch_softmax t d) = map softmax_row (trows t)"
proof -
  have len: "length (data t) = T * N" using assms by (simp add: wf_tensor_def)
  have a: "\<forall>r \<in> set (rows_of T N (data t)). length (softmax_row r) = N"
    using rows_of_row_length[OF len] by (simp add: softmax_row_def)
  show ?thesis
    using assms rows_of_concat_map[OF a, of T] concat_map_length[OF a]
    by (simp add: torch_softmax_def trows_2d wf_tensor_def)
qed

lemma sinkhorn_activation_2d:
  assumes "wf_tensor t" "shape t = [T, N]"
  shows "wf_tensor (sinkhorn_activation self t) \<and> shape (sinkhorn_activation self t) = [T, N]
         \<and> dtype (sinkhorn_activation self t) = dtype t
         \<and> requires_grad (sinkhorn_activation self t) = requires_grad t
         \<and> trows (sinkhorn_activation self t) = map (activation_row (topk self)) (trows t)"
proof (cases "topk self = 1")
  case True
  then show ?thesis using assms
    by (simp add: sinkhorn_activation_def torch_sigmoid_def wf_tensor_def trows_2d rows_of_map
        activation_row_def)
next
  case False
  have "trows (type_as (torch_softmax t Float32) t) = trows (torch_softmax t Float32)"
    by (simp add: type_as_def to_dtype_def trows_def torch_softmax_def)
  then show ?thesis using False assms torch_softmax_2d[OF assms, of Float32]
    by (simp add: sinkhorn_activation_def activation_row_def type_as_def to_dtype_def wf_tensor_def
        torch_softmax_def)
qed

lemma torch_gather_Inr:
  assumes "torch_gather t idx = Inr s" "shape t = [T, N]"
    and "ishape idx = sh" "length (idata idx) = numel sh"
  shows "\<exists>T' K. ishape idx = [T', K] \<and> T' \<le> T \<and> (\<forall>i \<in> set (idata idx). i < N)
           \<and> shape s = [T', K] \<and> dtype s = dtype t \<and> requires_grad s = requires_grad t
           \<and> trows s = map2 pick (trows t) (irows idx)"
proof -
  from assms(1,2) obtain T' K where sh: "ishape idx = [T', K]"
    by (auto simp: torch_gather_def split: list.splits)
  with assms have ok: "T' \<le> T" "\<forall>i \<in> set (idata idx). i < N"
    and s: "s = (mk_tensor [T', K] (concat (map2 pick (rows_of T N (data t)) (rows_of T' K (idata idx))))
                 (dtype t) (requires_grad t))\<lparr>precision := precision t\<rparr>"
    by (auto simp: torch_gather_def not_le Ball_def split: if_splits)
  have len: "length (idata idx) = T' * K" using assms(3,4) sh by auto
  have "\<forall>p \<in> set (zip (rows_of T N (data t)) (rows_of T' K (idata idx))). length (case p of (r, is) \<Rightarrow> pick r is) = K"
    using rows_of_row_length[OF len] by (auto simp: pick_def dest!: set_zip_rightD)
  from rows_of_concat_map[OF this, of T'] ok(1)
  have "rows_of T' K (concat (map2 pick (rows_of T N (data t)) (rows_of T' K (idata idx))))
          = map2 pick (rows_of T N (data t)) (rows_of T' K (idata idx))"
    by simp
  then show ?thesis using sh ok s assms(2) by (auto simp: trows_2d irows_2d)
qed

lemma no_grad_sel [simp]:
  "shape (no_grad t) = shape t" "data (no_grad t) = data t" "dtype (no_grad t) = dtype t"
  "requires_grad (no_grad t) = False" "wf_tensor (no_grad t) = wf_tensor t" "trows (no_grad t) = trows t"
  by (simp_all add: no_grad_def wf_tensor_def trows_def)

lemma to_dtype_sel [simp]:
  "shape (to_dtype t d) = shape t" "data (to_dtype t d) = data t" "dtype (to_dtype t d) = d"
  "requires_grad (to_dtype t d) = requires_grad t" "wf_tensor (to_dtype t d) = wf_tensor t"
  "trows (to_dtype t d) = trows t"
  "attached (to_dtype t d) = (if dtype t = d then attached t else [])"
  "precision (to_dtype t d) = precision t"
  by (simp_all add: to_dtype_def wf_tensor_def trows_def)

lemma to_dtype_no_grad_sel [simp]:
  "shape (to_dtype_no_grad t d) = shape t" "data (to_dtype_no_grad t d) = data t"
  "dtype (to_dtype_no_grad t d) = d" "wf_tensor (to_dtype_no_grad t d) = wf_tensor t"
  "trows (to_dtype_no_grad t d) = trows t"
  by (simp_all add: to_dtype_no_grad_def wf_tensor_def trows_def no_grad_def)

lemma torch_gather_ok:
  assumes "shape t = [T, N]" "ishape idx = [T', K]" "T' \<le> T" "\<forall>i \<in> set (idata idx). i < N"
  shows "\<exists>s. torch_gather t idx = Inr s"
  using assms by (auto simp: torch_gather_def)

lemma mean0_2d:
  "shape t = [T, N] \<Longrightarrow>
     shape (mean0 t) = [N] \<and> dtype (mean0 t) = dtype t \<and> requires_grad (mean0 t) = requires_grad t
     \<and> data (mean0 t) = map (\<lambda>e. (\<Sum>r \<leftarrow> trows t. r ! e) / real T) [0..<N]"
  by (simp add: mean0_def trows_2d Let_def)

lemma dot_scale: "dot (map (\<lambda>x. c * x) a) b = c * dot a b"
proof -
  have "map2 (*) (map (\<lambda>x. c * x) a) b = map (\<lambda>p. c * (fst p * snd p)) (zip a b)"
    by (simp add: zip_map1 case_prod_unfold mult.assoc)
  then show ?thesis
    by (simp add: dot_def sum_list_const_mult case_prod_unfold)
qed

lemma length_scatter_fold: "length (foldl (\<lambda>row (i, v). row[i := v]) row ps) = length row"
  by (induction ps arbitrary: row) (simp_all add: case_prod_unfold)

lemma length_scatter_row [simp]: "length (scatter_row n is vs) = n"
  by (simp add: scatter_row_def length_scatter_fold)

lemma nth_scatter_fold:
  assumes "distinct (map fst ps)" "e < length row"
  shows "foldl (\<lambda>row (i, v). row[i := v]) row ps ! e =
           (case map_of ps e of None \<Rightarrow> row ! e | Some v \<Rightarrow> v)"
  using assms
proof (induction ps arbitrary: row)
  case Nil
  then show ?case by simp
next
  case (Cons p ps)
  obtain i v where p: "p = (i, v)" by (cases p)
  have "map_of ps i = None" using Cons.prems(1) p by (simp add: map_of_eq_None_iff)
  then show ?case using Cons p by (auto split: option.splits)
qed

text \<open>Position \<open>e\<close> of a scattered row holds the value scattered there, and zero otherwise.\<close>

lemma nth_scatter_row:
  assumes "distinct is" "length is = length vs" "e < n"
  shows "scatter_row n is vs ! e = (case map_of (zip is vs) e of None \<Rightarrow> 0 | Some v \<Rightarrow> v)"
proof -
  have "foldl (\<lambda>row (i, v). row[i := v]) (replicate n 0) (zip is vs) ! e =
          (case map_of (zip is vs) e of None \<Rightarrow> replicate n 0 ! e | Some v \<Rightarrow> v)"
    by (rule nth_scatter_fold) (simp_all add: assms)
  then show ?thesis using assms(3)
    by (cases "map_of (zip is vs) e") (simp_all add: scatter_row_def)
qed

lemma map2_nth:
  assumes "length xs = n" "length ys = n"
  shows "map2 f xs ys = map (\<lambda>t. f (xs ! t) (ys ! t)) [0..<n]"
  using assms by (intro nth_equalityI) simp_all

lemma scatter_zeros_2d:
  assumes "shape p = [T, N]" "ishape idx = [T, K]" "shape src = [T, K]" "dtype p = dtype src"
    and "\<forall>i \<in> set (idata idx). i < N"
  shows "\<exists>s. scatter_zeros p idx src = Inr s \<and> shape s = [T, N] \<and> wf_tensor s
           \<and> requires_grad s = requires_grad src \<and> dtype s = dtype p
           \<and> trows s = map2 (scatter_row N) (irows idx) (trows src)"
proof -
  let ?f = "\<lambda>t. scatter_row N (take K (drop (t * K) (idata idx))) (take K (drop (t * K) (data src)))"
  have eq: "map (\<lambda>t. if t < T then ?f t else replicate N 0) [0..<T] = map ?f [0..<T]"
    by simp
  have s: "scatter_zeros p idx src =
             Inr ((mk_tensor [T, N] (concat (map ?f [0..<T])) (dtype p) (requires_grad src))
                    \<lparr>precision := precision src\<rparr>)"
    using assms by (simp add: scatter_zeros_def not_le eq cong: map_cong)
  have l: "\<forall>t \<in> set [0..<T]. length (?f t) = N" by simp
  have m: "map2 (scatter_row N) (irows idx) (trows src) = map ?f [0..<T]"
    using assms(2,3) map2_nth[of "irows idx" T "trows src" "scatter_row N"]
    by (simp add: irows_2d trows_2d rows_of_def)
  show ?thesis
    using s rows_of_concat_map[OF l, of T] concat_map_length[OF l] m
    by (simp add: trows_2d wf_tensor_def)
qed

lemma map2_same: "map2 h (map f rs) (map g rs) = map (\<lambda>r. h (f r) (g r)) rs"
  by (induction rs) simp_all

lemma scaler_sel [simp]:
  "shape (MoEAuxLossAutoScaler_apply t l) = shape t" "data (MoEAuxLossAutoScaler_apply t l) = data t"
  "dtype (MoEAuxLossAutoScaler_apply t l) = dtype t"
  "requires_grad (MoEAuxLossAutoScaler_apply t l) = requires_grad t"
  "precision (MoEAuxLossAutoScaler_apply t l) = precision t"
  "attached (MoEAuxLossAutoScaler_apply t l) = attached t @ [l]"
  "trows (MoEAuxLossAutoScaler_apply t l) = trows t"
  "wf_tensor (MoEAuxLossAutoScaler_apply t l) = wf_tensor t"
  by (simp_all add: MoEAuxLossAutoScaler_apply_def trows_def wf_tensor_def)

lemma type_as_sel [simp]:
  "shape (type_as t o') = shape t" "data (type_as t o') = data t" "dtype (type_as t o') = dtype o'"
  "requires_grad (type_as t o') = requires_grad t" "wf_tensor (type_as t o') = wf_tensor t"
  "trows (type_as t o') = trows t"
  "attached (type_as t o') = (if dtype t = dtype o' then attached t else [])"
  "precision (type_as t o') = precision t"
  by (simp_all add: type_as_def)

lemma torch_softmax_sel [simp]:
  "shape (torch_softmax t d) = shape t" "dtype (torch_softmax t d) = d"
  "requires_grad (torch_softmax t d) = requires_grad t" "attached (torch_softmax t d) = []"
  "precision (torch_softmax t d) = d"
  by (simp_all add: torch_softmax_def)

section \<open>The grouped router\<close>

lemma rows_of_rows:
  assumes "\<forall>r \<in> set rs. length r = gs * g"
  shows "rows_of (length rs * gs) g (concat rs) = concat (map (rows_of gs g) rs)"
proof -
  let ?C = "concat (map (rows_of gs g) rs)"
  have l: "\<forall>c \<in> set ?C. length c = g"
    using assms rows_of_row_length[of _ gs g] by fastforce
  have n: "length ?C = length rs * gs"
    using concat_map_length[of rs "rows_of gs g" gs] by simp
  have "concat ?C = concat (map (\<lambda>r. concat (rows_of gs g r)) rs)"
    by (induction rs) simp_all
  also have "\<dots> = concat (map (\<lambda>r. r) rs)"
    using assms by (intro arg_cong[where f = concat] map_cong refl) (simp add: concat_rows_of)
  finally have c: "concat ?C = concat rs" by simp
  from rows_of_concat[OF l] show ?thesis using n c by simp
qed

lemma nth_concat_uniform:
  assumes "\<forall>x \<in> set xs. length (F x) = n" "r < length xs" "j < n"
  shows "concat (map F xs) ! (r * n + j) = F (xs ! r) ! j"
  using assms
proof (induction xs arbitrary: r)
  case Nil
  then show ?case by simp
next
  case (Cons x xs)
  show ?case
  proof (cases r)
    case 0
    then show ?thesis using Cons.prems by (simp add: nth_append)
  next
    case (Suc r')
    then have "concat (map F (x # xs)) ! (r * n + j) = concat (map F xs) ! (r' * n + j)"
      using Cons.prems by (simp add: nth_append)
    then show ?thesis using Cons Suc by simp
  qed
qed

lemma softmax_row_topk_chunk:
  "topk_row kt (take g (drop d (softmax_row r))) = topk_row kt (take g (drop d r))"
proof (cases "r = []")
  case True
  then show ?thesis by (simp add: softmax_row_def)
next
  case False
  let ?S = "sum_list (map exp r)"
  have S: "0 < ?S" using False by (rule sum_list_exp_pos)
  have "take g (drop d (softmax_row r)) = map (\<lambda>x. exp x / ?S) (take g (drop d r))"
    by (simp add: softmax_row_def take_map drop_map)
  moreover have "(exp a / ?S \<le> exp b / ?S) = (a \<le> b)" for a b
    using S by (simp add: divide_le_cancel)
  ultimately show ?thesis by (simp add: topk_row_map_mono)
qed

lemma group_select_softmax: "group_select gs g kt (softmax_row r) = group_select gs g kt r"
  by (simp add: group_select_def softmax_row_topk_chunk)

lemma length_chunk:
  assumes "length r = gs * g" "j < gs"
  shows "length (take g (drop (j * g) r)) = g"
proof -
  have "j * g + g \<le> gs * g"
    using assms(2) by (metis Suc_leI mult_Suc mult_le_mono1 add.commute)
  then show ?thesis using assms(1) by simp
qed

lemma length_group_select:
  assumes "length r = gs * g" "kt \<le> g"
  shows "length (group_select gs g kt r) = gs * kt"
proof -
  have "\<forall>j \<in> set [0..<gs]. length (map (\<lambda>v. v + j * g) (topk_row kt (take g (drop (j * g) r)))) = kt"
    using assms length_chunk[OF assms(1)] by (simp add: length_topk_row)
  from concat_map_length[OF this] show ?thesis by (simp add: group_select_def)
qed

lemma length_group_values:
  assumes "length r = gs * g" "kt \<le> g"
  shows "length (group_values gs g kt r) = gs * kt"
proof -
  have "\<forall>j \<in> set [0..<gs]. length (pick (take g (drop (j * g) r)) (topk_row kt (take g (drop (j * g) r)))) = kt"
    using assms length_chunk[OF assms(1)] by (simp add: length_topk_row pick_def)
  from concat_map_length[OF this] show ?thesis by (simp add: group_values_def)
qed

lemma torch_topk_data:
  assumes "torch_topk t k = Inr (v, idx)"
  shows "idata idx = concat (map (topk_row k) (trows t))
       \<and> data v = concat (map (\<lambda>r. pick r (topk_row k r)) (trows t))
       \<and> shape v = butlast (shape t) @ [k] \<and> ishape idx = butlast (shape t) @ [k]
       \<and> dtype v = dtype t \<and> requires_grad v = requires_grad t \<and> attached v = []
       \<and> precision v = precision t"
  using assms by (auto simp: torch_topk_def Let_def split: if_splits)

lemma nth_rows_of: "i < cnt \<Longrightarrow> rows_of cnt n xs ! i = take n (drop (i * n) xs)"
  by (simp add: rows_of_def)

lemma chunk_of_concat:
  assumes "\<forall>c \<in> set C. length c = n" "m < length C"
  shows "take n (drop (m * n) (concat C)) = C ! m"
  using rows_of_concat[OF assms(1)] nth_rows_of[OF assms(2), of n "concat C"] by simp

lemma arange_groups: "0 < g \<Longrightarrow> arange (gs * g) g = Inr (map (\<lambda>j. j * g) [0..<gs])"
proof -
  assume g: "0 < g"
  obtain g' where g': "g = Suc g'" using g by (cases g) simp_all
  have "(g' + gs * Suc g') div Suc g' = gs + g' div Suc g'"
    by (rule div_mult_self1) simp
  then have "(gs * g + g - 1) div g = gs" by (simp add: g' add.commute)
  then show ?thesis using g by (simp add: arange_def)
qed

lemma map_nth_upt: "length xs = n \<Longrightarrow> map (\<lambda>i. f (xs ! i)) [0..<n] = map f xs"
  by (intro nth_equalityI) simp_all

lemma group_values_concat:
  "concat (map (\<lambda>c. pick c (topk_row kt c)) (concat (map (rows_of gs g) (map softmax_row rs))))
     = concat (map (\<lambda>r. group_values gs g kt (softmax_row r)) rs)"
  by (induction rs) (simp_all add: group_values_def rows_of_def comp_def)

lemma grouped_router_stage:
  assumes wf: "wf_tensor logits" and sh: "shape logits = [T, gs * g]"
    and gs: "0 < gs" and g: "0 < g" and kt: "k div gs \<le> g" and k: "0 < k"
    and dv: "(T * gs * (k div gs)) mod k = 0"
  shows "\<exists>scores idx. grouped_router logits (gs * g) k gs = Inr (torch_softmax logits Float32, scores, idx)
     \<and> shape scores = [T * gs * (k div gs) div k, k] \<and> ishape idx = [T * gs * (k div gs) div k, k]
     \<and> idata idx = concat (map (group_select gs g (k div gs)) (trows logits))
     \<and> data scores = concat (map (\<lambda>r. group_values gs g (k div gs) (softmax_row r)) (trows logits))
     \<and> dtype scores = Float32 \<and> requires_grad scores = requires_grad logits \<and> attached scores = []"
proof -
  let ?N = "gs * g"
  let ?kt = "k div gs"
  let ?probs = "torch_softmax logits Float32"
  let ?rs = "trows logits"
  let ?srs = "map softmax_row ?rs"
  let ?grouped = "?probs\<lparr>shape := [T, gs, g]\<rparr>"
  have lrs: "length ?rs = T" using sh by (simp add: trows_2d)
  have len: "length (data logits) = T * ?N" using wf sh by (simp add: wf_tensor_def)
  have rl: "\<forall>r \<in> set ?rs. length r = ?N"
    using rows_of_row_length[OF len] sh by (simp add: trows_2d)
  have P: "data ?probs = concat ?srs" by (simp add: torch_softmax_def)
  have srl: "\<forall>r \<in> set ?srs. length r = ?N" using rl by (simp add: softmax_row_def)
  have lenP: "length (data ?probs) = T * ?N"
    using concat_map_length[of ?rs softmax_row ?N] rl lrs P by (simp add: softmax_row_def)
  have v3: "view_3d ?probs gs g = Inr ?grouped"
    using gs g sh by (simp add: view_3d_def)
  have wfg: "wf_tensor ?grouped" using lenP by (simp add: wf_tensor_def)
  have rows3: "trows ?grouped = concat (map (rows_of gs g) ?srs)"
    using rows_of_rows[OF srl] lrs P by (simp add: trows_def)
  obtain v idx3 where t: "torch_topk ?grouped ?kt = Inr (v, idx3)"
    using torch_topk_wf[OF wfg, of ?kt] kt by auto
  note td = torch_topk_data[OF t]
  have shv: "shape v = [T, gs, ?kt]" and shi: "ishape idx3 = [T, gs, ?kt]"
    using td by simp_all
  have vw: "view_2d v k = Inr (v\<lparr>shape := [T * gs * ?kt div k, k]\<rparr>)"
    using k dv shv by (simp add: view_2d_def mult.assoc)
  let ?C = "map (topk_row ?kt) (trows ?grouped)"
  have lC: "length ?C = T * gs" by (simp add: trows_def)
  have cl: "\<forall>c \<in> set ?C. length c = ?kt"
  proof -
    have "\<forall>c \<in> set (trows ?grouped). length c = g"
      using trows_length[OF wfg] by simp
    then show ?thesis using kt by (simp add: length_topk_row)
  qed
  have Cnth: "?C ! (r * gs + j) = topk_row ?kt (take g (drop (j * g) (?rs ! r)))"
    if "r < T" "j < gs" for r j
  proof -
    let ?F = "\<lambda>x. map (topk_row ?kt) (rows_of gs g (softmax_row x))"
    have "?C = concat (map ?F ?rs)"
      unfolding rows3 by (simp add: map_concat comp_def)
    moreover have "concat (map ?F ?rs) ! (r * gs + j) = ?F (?rs ! r) ! j"
      using that lrs by (intro nth_concat_uniform) simp_all
    ultimately show ?thesis using that by (simp add: nth_rows_of softmax_row_topk_chunk)
  qed
  have chunk: "take ?kt (drop ((r * gs + j) * ?kt) (idata idx3)) = topk_row ?kt (take g (drop (j * g) (?rs ! r)))"
    if "r < T" "j < gs" for r j
  proof -
    have "r * gs + j < T * gs"
    proof -
      have "r * gs + j < r * gs + gs" using that by simp
      also have "\<dots> = Suc r * gs" by simp
      also have "\<dots> \<le> T * gs" using that by (intro mult_le_mono1) simp
      finally show ?thesis .
    qed
    then show ?thesis using chunk_of_concat[OF cl, of "r * gs + j"] lC td Cnth[OF that] by simp
  qed
  have ar: "arange ?N g = Inr (map (\<lambda>j. j * g) [0..<gs])" using g by (rule arange_groups)
  let ?adj = "concat (map (group_select gs g ?kt) ?rs)"
  have ao: "add_offsets idx3 (map (\<lambda>j. j * g) [0..<gs]) = Inr \<lparr>ishape = [T, gs, ?kt], idata = ?adj\<rparr>"
  proof -
    have inner: "map (\<lambda>j. map (\<lambda>v. v + map (\<lambda>j. j * g) [0..<gs] ! (if gs = 1 then 0 else j))
                    (take ?kt (drop ((r * gs + (if gs = 1 then 0 else j)) * ?kt) (idata idx3)))) [0..<gs]
               = map (\<lambda>j. map (\<lambda>v. v + j * g) (topk_row ?kt (take g (drop (j * g) (?rs ! r))))) [0..<gs]"
      if "r < T" for r
      using that chunk by (intro map_cong refl) auto
    have "map (\<lambda>r. concat (map (\<lambda>j. map (\<lambda>v. v + map (\<lambda>j. j * g) [0..<gs] ! (if gs = 1 then 0 else j))
                    (take ?kt (drop ((r * gs + (if gs = 1 then 0 else j)) * ?kt) (idata idx3)))) [0..<gs])) [0..<T]
          = map (\<lambda>r. group_select gs g ?kt (?rs ! r)) [0..<T]"
    proof (rule map_cong[OF refl])
      fix r assume "r \<in> set [0..<T]"
      then have "r < T" by simp
      from arg_cong[OF inner[OF this], of concat]
      show "concat (map (\<lambda>j. map (\<lambda>v. v + map (\<lambda>j. j * g) [0..<gs] ! (if gs = 1 then 0 else j))
                    (take ?kt (drop ((r * gs + (if gs = 1 then 0 else j)) * ?kt) (idata idx3)))) [0..<gs])
            = group_select gs g ?kt (?rs ! r)"
        unfolding group_select_def .
    qed
    also have "\<dots> = map (group_select gs g ?kt) ?rs"
      using lrs by (rule map_nth_upt)
    finally show ?thesis using shi by (simp add: add_offsets_def Let_def)
  qed
  have iv: "iview_2d \<lparr>ishape = [T, gs, ?kt], idata = ?adj\<rparr> k
              = Inr \<lparr>ishape = [T * gs * ?kt div k, k], idata = ?adj\<rparr>"
    using k dv by (simp add: iview_2d_def mult.assoc)
  have gr: "grouped_router logits ?N k gs
      = Inr (?probs, v\<lparr>shape := [T * gs * ?kt div k, k]\<rparr>, \<lparr>ishape = [T * gs * ?kt div k, k], idata = ?adj\<rparr>)"
    using gs g v3 t vw ar ao iv by (simp add: grouped_router_def Let_def)
  have dv': "data v = concat (map (\<lambda>r. group_values gs g ?kt (softmax_row r)) ?rs)"
  proof -
    have "data v = concat (map (\<lambda>c. pick c (topk_row ?kt c)) (concat (map (rows_of gs g) ?srs)))"
      using td rows3 by simp
    also have "\<dots> = concat (map (\<lambda>r. group_values gs g ?kt (softmax_row r)) ?rs)"
      by (rule group_values_concat)
    finally show ?thesis .
  qed
  show ?thesis using gr dv' td by simp
qed

lemma group_select_2_4:
  assumes "length r = 8"
  shows "group_select 2 4 2 r = topk_row 2 (take 4 r) @ map (\<lambda>v. v + 4) (topk_row 2 (drop 4 r))"
  using assms by (simp add: group_select_def numeral_2_eq_2)

lemma group_values_2_4:
  assumes "length r = 8"
  shows "group_values 2 4 2 r = pick (take 4 r) (topk_row 2 (take 4 r)) @ pick (drop 4 r) (topk_row 2 (drop 4 r))"
  using assms by (simp add: group_values_def numeral_2_eq_2)

lemma filter_two_groups:
  assumes "\<forall>i \<in> set A. i < (4::nat)" "\<forall>i \<in> set B. i < (4::nat)"
  shows "filter (\<lambda>i. i < 4) (A @ map (\<lambda>v. v + 4) B) = A"
    and "filter (\<lambda>i. 4 \<le> i \<and> i < 8) (A @ map (\<lambda>v. v + 4) B) = map (\<lambda>v. v + 4) B"
proof -
  have a: "filter (\<lambda>i. i < 4) A = A" "filter (\<lambda>i. 4 \<le> i \<and> i < 8) A = []"
    using assms(1) by (auto simp: filter_empty_conv)
  have b: "filter (\<lambda>i. i < 4) (map (\<lambda>v. v + 4) B) = []"
    "filter (\<lambda>i. 4 \<le> i \<and> i < 8) (map (\<lambda>v. v + 4) B) = map (\<lambda>v. v + 4) B"
    using assms(2) by (auto simp: filter_empty_conv filter_map comp_def)
  show "filter (\<lambda>i. i < 4) (A @ map (\<lambda>v. v + 4) B) = A" using a b by simp
  show "filter (\<lambda>i. 4 \<le> i \<and> i < 8) (A @ map (\<lambda>v. v + 4) B) = map (\<lambda>v. v + 4) B" using a b by simp
qed

section \<open>Valid indices and positive weights\<close>

lemma softmax_row_pos: "x \<in> set (softmax_row xs) \<Longrightarrow> 0 < x"
proof -
  assume a: "x \<in> set (softmax_row xs)"
  then have "xs \<noteq> []" by (auto simp: softmax_row_def)
  then have "0 < sum_list (map exp xs)" by (rule sum_list_exp_pos)
  with a show ?thesis by (auto simp: softmax_row_def)
qed

lemma positive_softmax [simp]: "positive (torch_softmax t d)"
  by (auto simp: positive_def torch_softmax_def dest: softmax_row_pos)

lemma positive_sigmoid [simp]: "positive (torch_sigmoid t)"
  by (auto simp: positive_def torch_sigmoid_def sigmoid_pos)

lemma positive_type_as [simp]: "positive (type_as t o') = positive t"
  by (simp add: positive_def)

lemma positive_scaler [simp]: "positive (MoEAuxLossAutoScaler_apply t l) = positive t"
  by (simp add: positive_def)

lemma positive_activation [simp]: "positive (sinkhorn_activation self t)"
  by (simp add: sinkhorn_activation_def)

lemma set_rows_of: "r \<in> set (rows_of cnt n xs) \<Longrightarrow> set r \<subseteq> set xs"
  by (auto simp: rows_of_def dest!: in_set_takeD in_set_dropD)

lemma set_pick_topk: "set (pick r (topk_row k r)) \<subseteq> set r"
  by (auto simp: pick_def dest: set_topk_row)

lemma topk_valid:
  assumes "torch_topk x k = Inr (v, idx)" "wf_tensor x" "shape x = [T, N]"
  shows "valid_indices N idx \<and> ishape idx = [T, k] \<and> shape v = [T, k] \<and> wf_tensor v
         \<and> (positive x \<longrightarrow> positive v) \<and> k \<le> N
         \<and> irows idx = map (topk_row k) (trows x)
         \<and> trows v = map (\<lambda>r. pick r (topk_row k r)) (trows x)
         \<and> dtype v = dtype x \<and> requires_grad v = requires_grad x \<and> attached v = []
         \<and> precision v = precision x"
proof -
  have k: "k \<le> N" using torch_topk_Inr[OF assms(1)] assms(3) by simp
  from torch_topk_2d[OF assms(2,3) k] assms(1)
  have f: "shape v = [T, k]" "ishape idx = [T, k]" "wf_tensor v"
    "irows idx = map (topk_row k) (trows x)" "trows v = map (\<lambda>r. pick r (topk_row k r)) (trows x)"
    "dtype v = dtype x" "requires_grad v = requires_grad x" "attached v = []"
    "precision v = precision x"
    by auto
  have len: "length (data x) = T * N" using assms(2,3) by (simp add: wf_tensor_def)
  have "valid_indices N idx"
    unfolding valid_indices_def f(4)
    using rows_of_row_length[OF len] assms(3)
    by (auto simp: trows_2d distinct_topk_row dest!: set_topk_row)
  moreover have "positive v" if "positive x"
  proof -
    have "data v = concat (map (\<lambda>r. pick r (topk_row k r)) (trows x))"
      using torch_topk_data[OF assms(1)] by simp
    then have "set (data v) \<subseteq> set (data x)"
      using set_pick_topk set_rows_of[of _ _ _ "data x"] by (fastforce simp: trows_def)
    then show ?thesis using that by (auto simp: positive_def)
  qed
  ultimately show ?thesis using f k by simp
qed

lemma distinct_group_select:
  assumes "length r = gs * g"
  shows "distinct (group_select gs g kt r) \<and> (\<forall>i \<in> set (group_select gs g kt r). i < gs * g)"
proof -
  have "distinct (concat (map (\<lambda>j. map (\<lambda>v. v + j * g) (topk_row kt (take g (drop (j * g) r)))) [0..<n]))
        \<and> (\<forall>i \<in> set (concat (map (\<lambda>j. map (\<lambda>v. v + j * g) (topk_row kt (take g (drop (j * g) r)))) [0..<n])).
              i < n * g)"
    if "n \<le> gs" for n
    using that
  proof (induction n)
    case 0
    then show ?case by simp
  next
    case (Suc n)
    let ?new = "map (\<lambda>v. v + n * g) (topk_row kt (take g (drop (n * g) r)))"
    have lc: "length (take g (drop (n * g) r)) = g"
      using length_chunk[OF assms, of n] Suc.prems by simp
    have d: "distinct ?new"
      by (simp add: distinct_map distinct_topk_row)
    have rng: "\<forall>i \<in> set ?new. n * g \<le> i \<and> i < Suc n * g"
      using set_topk_row[of _ kt "take g (drop (n * g) r)"] lc by auto
    from Suc have ih: "distinct (concat (map (\<lambda>j. map (\<lambda>v. v + j * g) (topk_row kt (take g (drop (j * g) r)))) [0..<n]))"
      "\<forall>i \<in> set (concat (map (\<lambda>j. map (\<lambda>v. v + j * g) (topk_row kt (take g (drop (j * g) r)))) [0..<n])). i < n * g"
      by simp_all
    have "set (concat (map (\<lambda>j. map (\<lambda>v. v + j * g) (topk_row kt (take g (drop (j * g) r)))) [0..<n])) \<inter> set ?new = {}"
      using ih(2) rng by fastforce
    then show ?case using ih d rng
      by (auto simp del: set_concat set_map simp: less_Suc_eq intro: less_le_trans)
  qed
  from this[of gs] show ?thesis by (simp add: group_select_def)
qed

lemma set_group_values:
  assumes "length r = gs * g"
  shows "set (group_values gs g kt r) \<subseteq> set r"
  using set_pick_topk by (fastforce simp: group_values_def dest!: in_set_takeD in_set_dropD)

lemma groups_divide:
  assumes "0 < (gs::nat)" "0 < (N::nat) div gs"
    and "gs = (N + N div gs - 1) div (N div gs) \<or> (N + N div gs - 1) div (N div gs) = 1 \<or> gs = 1"
  shows "N = gs * (N div gs)"
proof -
  define g where "g = N div gs"
  define L where "L = (N + g - 1) div g"
  define p where "p = gs * g"
  have g: "0 < g" using assms(2) by (simp add: g_def)
  have f1: "p \<le> N" using times_div_less_eq_dividend[of gs N] by (simp add: p_def g_def)
  have l1: "L * g \<le> N + g - 1" unfolding L_def by simp
  have l2: "N + g - 1 < L * g + g"
    unfolding L_def using g dividend_less_div_times[of g "N + g - 1"] by (simp add: add.commute)
  from assms(3) consider "gs = L" | "L = 1" | "gs = 1" by (auto simp: L_def g_def)
  then have "N = p"
  proof cases
    case 1
    then have "N + g - 1 < p + g" using l2 by (simp add: p_def)
    then show ?thesis using f1 g by arith
  next
    case 2
    then have "N \<le> g" using l2 g by arith
    then have "gs * N \<le> p" unfolding p_def by simp
    then have le: "gs * N \<le> N" using f1 by (rule order_trans)
    have  pos: "0 < N" using g f1 assms(1) by (cases N) (simp_all add: g_def)
    have "gs \<le> 1"
    proof (rule ccontr)
      assume "\<not> gs \<le> 1"
      then have "2 \<le> gs" by simp
      then have "2 * N \<le> gs * N" by (rule mult_le_mono1)
      with le pos show False by simp
    qed
    then have "gs = 1" using assms(1) by simp
    then show ?thesis by (simp add: p_def g_def)
  next
    case 3
    then show ?thesis by (simp add: p_def g_def)
  qed
  then show ?thesis by (simp add: p_def g_def)
qed

lemma arange_length: "arange n s = Inr offs \<Longrightarrow> length offs = (n + s - 1) div s"
  by (auto simp: arange_def split: if_splits)

lemma add_offsets_Inr:
  "add_offsets idx offs = Inr adj \<Longrightarrow> ishape idx = [R, G, K] \<Longrightarrow>
     G = length offs \<or> length offs = 1 \<or> G = 1"
  by (auto simp: add_offsets_def Let_def split: if_splits)

lemma view_3d_Inr:
  "view_3d t a b = Inr t' \<Longrightarrow>
     0 < a \<and> 0 < b \<and> numel (shape t) mod (a * b) = 0 \<and> t' = t\<lparr>shape := [numel (shape t) div (a * b), a, b]\<rparr>"
  by (auto simp: view_3d_def split: if_splits)

lemma grouped_router_Inr:
  assumes "grouped_router l N k gs = Inr res" "shape l = [T, N]"
  shows "0 < gs \<and> 0 < N div gs \<and> N = gs * (N div gs) \<and> k div gs \<le> N div gs \<and> 0 < k
         \<and> (T * gs * (k div gs)) mod k = 0"
proof -
  let ?g = "N div gs"
  let ?kt = "k div gs"
  from assms(1) obtain grouped v3 idx3 sc offs adj where
    gs: "gs \<noteq> 0" and v: "view_3d (torch_softmax l Float32) gs ?g = Inr grouped"
    and t: "torch_topk grouped ?kt = Inr (v3, idx3)" and vw: "view_2d v3 k = Inr sc"
    and ar: "arange N ?g = Inr offs" and ao: "add_offsets idx3 offs = Inr adj"
    by (auto simp: grouped_router_def Let_def split: if_splits sum.splits prod.splits)
  from view_3d_Inr[OF v] have g: "0 < ?g"
    and shg: "shape grouped = [numel (shape (torch_softmax l Float32)) div (gs * ?g), gs, ?g]"
    by simp_all
  from torch_topk_Inr[OF t] shg have kt: "?kt \<le> ?g" by simp
  from torch_topk_data[OF t] shg
  have sh3: "ishape idx3 = [numel (shape (torch_softmax l Float32)) div (gs * ?g), gs, ?kt]"
    "shape v3 = [numel (shape (torch_softmax l Float32)) div (gs * ?g), gs, ?kt]"
    by simp_all
  from add_offsets_Inr[OF ao sh3(1)] arange_length[OF ar]
  have "gs = (N + ?g - 1) div ?g \<or> (N + ?g - 1) div ?g = 1 \<or> gs = 1" by simp
  with gs g have N: "N = gs * ?g" by (intro groups_divide) simp_all
  have "numel (shape (torch_softmax l Float32)) div (gs * ?g) = T"
    using assms(2) N gs g by (metis mult.right_neutral mult_pos_pos nonzero_mult_div_cancel_right numel_simps(1) numel_simps(2) torch_softmax_sel(1) less_not_refl2 neq0_conv)
  with view_2d_Inr[OF vw] sh3(2) have "0 < k" "(T * gs * ?kt) mod k = 0"
    by (simp_all add: mult.assoc)
  then show ?thesis using gs g N kt by simp
qed

lemma grouped_valid:
  assumes "grouped_router l N k gs = Inr (probs, scores, idx)" "wf_tensor l" "shape l = [T, N]"
  shows "positive scores \<and> (\<forall>i \<in> set (idata idx). i < N) \<and> (\<exists>R. ishape idx = [R, k]) \<and> 0 < N
         \<and> dtype scores = Float32
         \<and> (k mod gs = 0 \<longrightarrow> valid_indices N idx \<and> ishape idx = [T, k])"
proof -
  let ?g = "N div gs"
  let ?kt = "k div gs"
  let ?rs = "trows l"
  from grouped_router_Inr[OF assms(1,3)]
  have c: "0 < gs" "0 < ?g" "N = gs * ?g" "?kt \<le> ?g" "0 < k" "(T * gs * ?kt) mod k = 0"
    by simp_all
  have sh: "shape l = [T, gs * ?g]" using assms(3) c(3) by simp
  from grouped_router_stage[OF assms(2) sh c(1,2,4,5,6)] assms(1) c(3)
  have r: "ishape idx = [T * gs * ?kt div k, k]"
    "idata idx = concat (map (group_select gs ?g ?kt) ?rs)"
    "data scores = concat (map (\<lambda>r. group_values gs ?g ?kt (softmax_row r)) ?rs)"
    "dtype scores = Float32"
    by auto
  have len: "length (data l) = T * N" using assms(2,3) by (simp add: wf_tensor_def)
  have rl: "\<forall>r \<in> set ?rs. length r = gs * ?g"
    using rows_of_row_length[OF len] assms(3) c(3) by (simp add: trows_2d)
  have lrs: "length ?rs = T" using assms(3) by (simp add: trows_2d)
  have pos: "positive scores"
  proof -
    have "x \<in> set (group_values gs ?g ?kt (softmax_row r)) \<Longrightarrow> 0 < x" for x r
      using set_group_values[of "softmax_row r" _ _ ?kt] softmax_row_pos
      by (fastforce simp: group_values_def pick_def dest!: set_topk_row in_set_takeD in_set_dropD
          dest: nth_mem)
    then show ?thesis unfolding positive_def r(3) by auto
  qed
  have rng: "\<forall>i \<in> set (idata idx). i < N"
    unfolding r(2) using distinct_group_select rl c(3) by fastforce
  have "0 < N" using c(1,2,3) by (metis mult_pos_pos)
  moreover have "valid_indices N idx \<and> ishape idx = [T, k]" if "k mod gs = 0"
  proof -
    have "gs dvd k" using that by (simp add: mod_eq_0_iff_dvd)
    then have k: "k = gs * ?kt" by simp
    have "T * gs * ?kt div k = T" using k c(5) by (metis mult.assoc nonzero_mult_div_cancel_right less_not_refl2)
    then have i: "ishape idx = [T, k]" using r(1) by simp
    have "\<forall>r \<in> set ?rs. length (group_select gs ?g ?kt r) = k"
      using rl length_group_select[of _ gs ?g ?kt] c(4) k by simp
    from rows_of_concat_map[OF this lrs] have "irows idx = map (group_select gs ?g ?kt) ?rs"
      using i r(2) by (simp add: irows_2d)
    then have "valid_indices N idx"
      unfolding valid_indices_def using distinct_group_select rl c(3) by fastforce
    then show ?thesis using i by simp
  qed
  ultimately show ?thesis using pos rng r(1,4) by blast
qed

lemma apply_aux_loss_Inr:
  "apply_aux_loss self f probs idx act = Inr s \<Longrightarrow>
     \<exists>l. s = MoEAuxLossAutoScaler_apply act l"
  by (auto simp: apply_aux_loss_def split: sum.splits)

lemma softmax_2d_facts:
  assumes "wf_tensor l" "shape l = [T, N]"
  shows "wf_tensor (type_as (torch_softmax l d) l')" "shape (type_as (torch_softmax l d) l') = [T, N]"
    "positive (type_as (torch_softmax l d) l')"
  using torch_softmax_2d[OF assms, of d] by simp_all

lemma aux_loss_valid:
  assumes "aux_loss_load_balancing self l = Inr (scores, idx)" "wf_tensor l" "shape l = [T, N]"
    and "N = num_moe_experts (config self)"
    and "moe_router_type (config self) = ''grouped'' \<longrightarrow> topk self mod moe_group_size (config self) = 0"
  shows "valid_indices N idx \<and> positive scores \<and> ishape idx = [T, topk self]"
proof -
  from assms(1) obtain probs sc where
    a: "(if moe_router_type (config self) = ''mixtral'' then
           (case torch_topk l (topk self) of
              Inl e \<Rightarrow> Inl e
            | Inr (top_logits, indices) \<Rightarrow>
                Inr (torch_softmax l Float32,
                     type_as (torch_softmax top_logits Float32) l, indices))
         else if moe_router_type (config self) = ''st'' then
           (let probs = type_as (torch_softmax l Float32) l in
            case torch_topk probs (topk self) of
              Inl e \<Rightarrow> Inl e
            | Inr (scores, indices) \<Rightarrow> Inr (probs, scores, indices))
         else if moe_router_type (config self) = ''grouped'' then
           grouped_router l (num_moe_experts (config self)) (topk self)
             (moe_group_size (config self))
         else Inl NotImplementedError) = Inr (probs, sc, idx)"
    and b: "apply_aux_loss self (moe_aux_loss_func self) probs idx sc = Inr scores"
    by (auto simp: aux_loss_load_balancing_def split: sum.splits)
  from apply_aux_loss_Inr[OF b] have p: "positive scores = positive sc" by auto
  consider (m) "moe_router_type (config self) = ''mixtral''"
    | (s) "moe_router_type (config self) = ''st''"
    | (g) "moe_router_type (config self) = ''grouped''"
    using a by (auto split: if_splits)
  then have "valid_indices N idx \<and> positive sc \<and> ishape idx = [T, topk self]"
  proof cases
    case m
    with a obtain top where t: "torch_topk l (topk self) = Inr (top, idx)"
      and sc: "sc = type_as (torch_softmax top Float32) l"
      by (auto split: sum.splits)
    from topk_valid[OF t assms(2,3)] sc show ?thesis by simp
  next
    case s
    with a have t: "torch_topk (type_as (torch_softmax l Float32) l) (topk self) = Inr (sc, idx)"
      by (auto simp: Let_def split: sum.splits)
    from topk_valid[OF t softmax_2d_facts(1,2)[OF assms(2,3)]] softmax_2d_facts(3)[OF assms(2,3)]
    show ?thesis by simp
  next
    case g
    with a have r: "grouped_router l N (topk self) (moe_group_size (config self)) = Inr (probs, sc, idx)"
      using assms(4) by auto
    from grouped_valid[OF r assms(2,3)] assms(5) g show ?thesis by simp
  qed
  then show ?thesis using p by simp
qed

lemma btx_valid:
  assumes "btx_aux_loss_load_balancing self l = Inr (scores, idx)" "wf_tensor l" "shape l = [T, N]"
  shows "valid_indices N idx \<and> positive scores \<and> ishape idx = [T, topk self]"
proof -
  from assms(1) obtain top aux where t: "torch_topk l (topk self) = Inr (top, idx)"
    and sc: "scores = MoEAuxLossAutoScaler_apply (type_as (torch_softmax top Float32) l) aux"
    by (auto simp: btx_aux_loss_load_balancing_def Let_def split: sum.splits)
  from topk_valid[OF t assms(2,3)] sc show ?thesis by simp
qed

lemma sigmoid_valid:
  assumes "sigmoid_load_balancing fill self g l = (Inr (scores, idx), g')" "wf_tensor l" "shape l = [T, N]"
  shows "valid_indices N idx \<and> positive scores \<and> ishape idx = [T, topk self]"
proof -
  define masked where "masked =
     (case moe_dropout (config self) of
        Some p \<Rightarrow>
          if p \<noteq> 0 \<and> training self then
            (case bernoulli_mask l p g of
               (Inl e, g') \<Rightarrow> (Inl e, g')
             | (Inr mask', g') \<Rightarrow> (Inr (attention_mask_func fill l mask'), g'))
          else (Inr l, g)
      | None \<Rightarrow> (Inr l, g))"
  have w: "wf_tensor m \<and> shape m = [T, N]" if "masked = (Inr m, g1)" for m g1
    using that assms(2,3) unfolding masked_def
    by (auto simp: bernoulli_mask_def draw_def attention_mask_func_def wf_tensor_def
        split: option.splits if_splits)
  from assms(1) obtain m g1 sc where
    m: "masked = (Inr m, g1)"
    and t: "torch_topk (torch_sigmoid m) (topk self) = Inr (sc, idx)"
    and b: "apply_aux_loss self (moe_aux_loss_func self) (torch_softmax m Float32) idx sc = Inr scores"
    unfolding sigmoid_load_balancing_def masked_def[symmetric]
    by (auto simp: Let_def split: sum.splits prod.splits)
  from w[OF m] have "wf_tensor m" "shape m = [T, N]" by simp_all
  then have "wf_tensor (torch_sigmoid m)" "shape (torch_sigmoid m) = [T, N]"
    by (simp_all add: torch_sigmoid_def wf_tensor_def)
  from topk_valid[OF t this] apply_aux_loss_Inr[OF b] show ?thesis by auto
qed

lemma gather_positive:
  assumes "torch_gather a idx = Inr s" "wf_tensor a" "shape a = [T, N]" "ishape idx = [T', K]"
    "positive a"
  shows "positive s"
proof -
  from assms(1,3,4) have ok: "\<forall>i \<in> set (idata idx). i < N"
    and d: "data s = concat (map2 pick (rows_of T N (data a)) (rows_of T' K (idata idx)))"
    by (auto simp: torch_gather_def not_le Ball_def split: if_splits)
  have len: "length (data a) = T * N" using assms(2,3) by (simp add: wf_tensor_def)
  have "x \<in> set (data a)" if "x \<in> set (data s)" for x
  proof -
    from that d obtain r js where z: "(r, js) \<in> set (zip (rows_of T N (data a)) (rows_of T' K (idata idx)))"
      and x: "x \<in> set (pick r js)" by auto
    from z have r: "r \<in> set (rows_of T N (data a))" and i: "js \<in> set (rows_of T' K (idata idx))"
      by (auto dest: set_zip_leftD set_zip_rightD)
    from x obtain j where j: "j \<in> set js" "x = r ! j" by (auto simp: pick_def)
    have "j < N" using j(1) set_rows_of[OF i] ok by auto
    then have "x \<in> set r" using j(2) rows_of_row_length[OF len r] by simp
    then show ?thesis using set_rows_of[OF r] by auto
  qed
  then show ?thesis using assms(5) by (auto simp: positive_def)
qed

lemma sinkhorn_valid:
  assumes "sinkhorn_load_balancing U self l = Inr (scores, idx)" "wf_tensor l" "shape l = [T, N]"
    and "\<forall>x. wf_tensor x \<longrightarrow> wf_tensor (sinkhorn U x) \<and> shape (sinkhorn U x) = shape x"
  shows "valid_indices N idx \<and> positive scores \<and> ishape idx = [T, topk self]"
proof (cases "training self")
  case True
  let ?n = "no_grad (sinkhorn U (to_dtype_no_grad l Float32))"
  from assms(1) True obtain v where t: "torch_topk ?n (topk self) = Inr (v, idx)"
    and g: "torch_gather (sinkhorn_activation self l) idx = Inr scores"
    by (auto simp: sinkhorn_load_balancing_def split: sum.splits if_splits)
  have n: "wf_tensor ?n" "shape ?n = [T, N]" using assms(2,3,4) by simp_all
  note tv = topk_valid[OF t n]
  note act = sinkhorn_activation_2d[OF assms(2,3), of self]
  from gather_positive[OF g, of T N T "topk self"] act tv show ?thesis by simp
next
  case False
  with assms(1) have t: "torch_topk (sinkhorn_activation self l) (topk self) = Inr (scores, idx)"
    by (auto simp: sinkhorn_load_balancing_def split: if_splits)
  note act = sinkhorn_activation_2d[OF assms(2,3), of self]
  from topk_valid[OF t, of T N] act show ?thesis by simp
qed

lemma routing_Inr:
  assumes "routing U fill self g logits = (Inr res, self', g')"
  shows "\<exists>l1 l3 g1.
      view_2d logits (num_moe_experts (config self)) = Inr l1
    \<and> apply_input_jitter self g (apply_z_loss U self l1) = (l3, self', g1)
    \<and> (routing_type self = ''sinkhorn'' \<and> sinkhorn_load_balancing U self' l3 = Inr res
       \<or> routing_type self = ''aux_loss'' \<and> moe_aux_loss_type (config self) = ''switch''
           \<and> aux_loss_load_balancing self' l3 = Inr res
       \<or> routing_type self = ''aux_loss'' \<and> moe_aux_loss_type (config self) \<noteq> ''switch''
           \<and> btx_aux_loss_load_balancing self' l3 = Inr res
       \<or> routing_type self = ''none''
           \<and> (\<exists>top idx. torch_topk l3 (topk self) = Inr (top, idx)
                 \<and> res = (type_as (torch_softmax top Float32) l3, idx))
       \<or> routing_type self = ''sigmoid''
           \<and> (\<exists>g2. sigmoid_load_balancing fill self' g1 l3 = (Inr res, g2)))"
proof -
  from assms obtain l1 where v: "view_2d logits (num_moe_experts (config self)) = Inr l1"
    by (auto simp: routing_def split: sum.splits)
  obtain l3 s1 g1 where j: "apply_input_jitter self g (apply_z_loss U self l1) = (l3, s1, g1)"
    by (metis prod_cases3)
  note d = routing_dispatch[OF v j]
  from assms d have s: "s1 = self'"
    by (auto split: if_splits sum.splits prod.splits)
  from assms d show ?thesis
    using v j s
    by (auto split: if_splits sum.splits prod.splits)
qed

lemma routing_valid_positive:
  assumes "wf_tensor logits" "shape logits = [T, num_moe_experts (config self)]"
    and "\<forall>x. wf_tensor x \<longrightarrow> wf_tensor (sinkhorn U x) \<and> shape (sinkhorn U x) = shape x"
    and "routing U fill self g logits = (Inr (scores, indices), self', g')"
  shows "positive scores
       \<and> ((routing_type self = ''aux_loss'' \<and> moe_aux_loss_type (config self) = ''switch''
            \<and> moe_router_type (config self) = ''grouped''
            \<longrightarrow> topk self mod moe_group_size (config self) = 0)
          \<longrightarrow> valid_indices (num_moe_experts (config self)) indices \<and> ishape indices = [T, topk self])"
proof -
  let ?N = "num_moe_experts (config self)"
  from routing_Inr[OF assms(4)] obtain l1 l3 g1 where
    v: "view_2d logits ?N = Inr l1"
    and j: "apply_input_jitter self g (apply_z_loss U self l1) = (l3, self', g1)"
    and c: "routing_type self = ''sinkhorn'' \<and> sinkhorn_load_balancing U self' l3 = Inr (scores, indices)
       \<or> routing_type self = ''aux_loss'' \<and> moe_aux_loss_type (config self) = ''switch''
           \<and> aux_loss_load_balancing self' l3 = Inr (scores, indices)
       \<or> routing_type self = ''aux_loss'' \<and> moe_aux_loss_type (config self) \<noteq> ''switch''
           \<and> btx_aux_loss_load_balancing self' l3 = Inr (scores, indices)
       \<or> routing_type self = ''none''
           \<and> (\<exists>top idx. torch_topk l3 (topk self) = Inr (top, idx)
                 \<and> (scores, indices) = (type_as (torch_softmax top Float32) l3, idx))
       \<or> routing_type self = ''sigmoid''
           \<and> (\<exists>g2. sigmoid_load_balancing fill self' g1 l3 = (Inr (scores, indices), g2))"
    by blast
  note k = jitter_keeps_config[OF j]
  from routing_pre[OF v j assms(1)] assms(2) have wf3: "wf_tensor l3" and N: "0 < ?N"
    and sh3: "shape l3 = [T, ?N]" by simp_all
  from c consider
      (sk) "routing_type self = ''sinkhorn''" "sinkhorn_load_balancing U self' l3 = Inr (scores, indices)"
    | (aux) "routing_type self = ''aux_loss''" "moe_aux_loss_type (config self) = ''switch''"
        "aux_loss_load_balancing self' l3 = Inr (scores, indices)"
    | (btx) "btx_aux_loss_load_balancing self' l3 = Inr (scores, indices)"
    | (none) top where "torch_topk l3 (topk self) = Inr (top, indices)"
        "scores = type_as (torch_softmax top Float32) l3"
    | (sg) g2 where "sigmoid_load_balancing fill self' g1 l3 = (Inr (scores, indices), g2)"
    by auto
  then show ?thesis
  proof cases
    case sk
    from sinkhorn_valid[OF sk(2) wf3 sh3 assms(3)] k show ?thesis by simp
  next
    case aux
    have pos: "positive scores"
    proof -
      from aux(3) obtain probs sc where
        b: "apply_aux_loss self' (moe_aux_loss_func self') probs indices sc = Inr scores"
        and a: "moe_router_type (config self') = ''grouped'' \<longrightarrow>
                 grouped_router l3 (num_moe_experts (config self')) (topk self')
                   (moe_group_size (config self')) = Inr (probs, sc, indices)"
        by (auto simp: aux_loss_load_balancing_def split: sum.splits if_splits)
      show ?thesis
      proof (cases "moe_router_type (config self') = ''grouped''")
        case True
        with a grouped_valid[OF _ wf3 sh3] apply_aux_loss_Inr[OF b] k show ?thesis by auto
      next
        case False
        with aux_loss_valid[OF aux(3) wf3 sh3] k show ?thesis by simp
      qed
    qed
    moreover have "valid_indices ?N indices \<and> ishape indices = [T, topk self]"
      if "moe_router_type (config self) = ''grouped'' \<longrightarrow> topk self mod moe_group_size (config self) = 0"
      using aux_loss_valid[OF aux(3) wf3 sh3] that k by simp
    ultimately show ?thesis using aux by simp
  next
    case btx
    from btx_valid[OF btx wf3 sh3] k show ?thesis by simp
  next
    case none
    from topk_valid[OF none(1) wf3 sh3] none(2) show ?thesis by simp
  next
    case sg
    from sigmoid_valid[OF sg wf3 sh3] k show ?thesis by simp
  qed
qed

section \<open>Sums of the activations\<close>



section \<open>Evaluating the examples\<close>

lemma routing_plain:
  assumes "shape l = [T, num_moe_experts (config R)]" "0 < num_moe_experts (config R)"
    and "moe_input_jitter_eps (config R) = None" "moe_z_loss_coeff (config R) = None"
  shows "routing U fill R g l =
     (if routing_type R = ''sinkhorn'' then (sinkhorn_load_balancing U R l, R, g)
      else if routing_type R = ''aux_loss'' then
        (if moe_aux_loss_type (config R) = ''switch'' then (aux_loss_load_balancing R l, R, g)
         else if sublist ''btx'' (moe_aux_loss_type (config R)) then
           (btx_aux_loss_load_balancing R l, R, g)
         else (Inl ValueError, R, g))
      else if routing_type R = ''none'' then
        (case torch_topk l (topk R) of
           Inl e \<Rightarrow> (Inl e, R, g)
         | Inr (top_logits, indices) \<Rightarrow>
             (Inr (type_as (torch_softmax top_logits Float32) l, indices), R, g))
      else if routing_type R = ''sigmoid'' then
        (case sigmoid_load_balancing fill R g l of (r, g'') \<Rightarrow> (r, R, g''))
      else (Inl ValueError, R, g))"
proof -
  have v: "view_2d l (num_moe_experts (config R)) = Inr l"
    using assms(1,2) by (simp add: view_2d_same)
  have j: "apply_input_jitter R g (apply_z_loss U R l) = (l, R, g)"
    using assms(3,4) by (simp add: apply_input_jitter_none apply_z_loss_def)
  from routing_dispatch[OF v j] show ?thesis .
qed

lemma grouped_routing_example:
  assumes "num_moe_experts (config R) = 4" "topk R = k" "moe_group_size (config R) = 2"
    "moe_router_type (config R) = ''grouped''" "routing_type R = ''aux_loss''"
    "moe_aux_loss_type (config R) = ''switch''" "num_experts R = 4"
    "moe_input_jitter_eps (config R) = None" "moe_z_loss_coeff (config R) = None"
    and "k = 2 \<or> k = 3" and "wf_tensor l" "shape l = [3, 4]"
  shows "\<exists>scores indices.
           routing U fill R g l = (Inr (scores, indices), R, g)
         \<and> dtype scores = Float32 \<and> ishape indices = [6 div k, k]
         \<and> idata indices = concat (map (group_select 2 2 1) (trows l))"
proof -
  have sh: "shape l = [3, 2 * 2]" using assms(12) by simp
  have kt: "k div 2 = 1" "0 < k" "(3 * 2 * (k div 2)) mod k = 0" using assms(10) by auto
  from grouped_router_stage[OF assms(11) sh _ _ _ kt(2), of ] kt obtain scores idx where
    g: "grouped_router l 4 k 2 = Inr (torch_softmax l Float32, scores, idx)"
    "ishape idx = [6 div k, k]" "idata idx = concat (map (group_select 2 2 1) (trows l))"
    "dtype scores = Float32"
    by auto
  have len: "length (data l) = 3 * 4" using assms(11,12) by (simp add: wf_tensor_def)
  have rl: "\<forall>r \<in> set (trows l). length r = 2 * 2"
    using rows_of_row_length[OF len] assms(12) by (simp add: trows_2d)
  have rng: "\<forall>i \<in> set (idata idx). i < 4"
    unfolding g(3) using distinct_group_select[of _ 2 2 1] rl by fastforce
  from one_hot_sum_ok[OF g(2), of 4] rng obtain m where oh: "one_hot_sum idx 4 = Inr m"
    by auto
  have a: "aux_loss_load_balancing R l =
      Inr (MoEAuxLossAutoScaler_apply scores
             (moe_aux_loss_func R (torch_softmax l Float32) m (moe_aux_loss_coeff (config R))), idx)"
    using g(1) oh assms(1-7) by (simp add: aux_loss_load_balancing_def apply_aux_loss_def)
  have "routing U fill R g l = (aux_loss_load_balancing R l, R, g)"
    using routing_plain[of l 3 R U fill g] assms by simp
  then show ?thesis using a g(2,3,4) by simp
qed

lemma st_routing_example:
  assumes "num_moe_experts (config R) = N" "topk R \<le> N" "0 < N"
    "moe_router_type (config R) = ''st''" "routing_type R = ''aux_loss''"
    "moe_aux_loss_type (config R) = ''switch''" "num_experts R = N"
    "moe_input_jitter_eps (config R) = None" "moe_z_loss_coeff (config R) = None"
    and "wf_tensor l" "shape l = [T, N]"
  shows "\<exists>scores indices.
           routing U fill R g l = (Inr (scores, indices), R, g) \<and> dtype scores = dtype l"
proof -
  let ?p = "type_as (torch_softmax l Float32) l"
  note sf = softmax_2d_facts[OF assms(10,11), of Float32 l]
  from torch_topk_2d[OF sf(1,2) assms(2)] obtain v idx where
    t: "torch_topk ?p (topk R) = Inr (v, idx)" "ishape idx = [T, topk R]" "dtype v = dtype ?p"
    by auto
  from one_hot_sum_ok[OF t(2) assms(3)] torch_topk_2d_range[OF sf(1,2) t(1)]
  obtain m where oh: "one_hot_sum idx N = Inr m" by auto
  have a: "aux_loss_load_balancing R l =
      Inr (MoEAuxLossAutoScaler_apply v
             (moe_aux_loss_func R ?p m (moe_aux_loss_coeff (config R))), idx)"
    using t(1) oh assms(4,7) by (simp add: aux_loss_load_balancing_def apply_aux_loss_def Let_def)
  have "routing U fill R g l = (aux_loss_load_balancing R l, R, g)"
    using routing_plain[of l T R U fill g] assms by simp
  then show ?thesis using a t(3) by simp
qed

lemma grouped_rows_3x4:
  "concat (map (group_select 2 2 1) (trows logits_3x4)) = [0, 2, 0, 3, 1, 2]"
  by (simp add: logits_3x4_def trows_def rows_of_def group_select_def topk_row_def
      numeral_2_eq_2 numeral_3_eq_3 upt_rec[of 0] upt_rec[of "Suc 0"] upt_rec[of "Suc (Suc 0)"])

lemma demo_sinkhorn_keeps_shape:
  "\<forall>x. wf_tensor x \<longrightarrow> wf_tensor (sinkhorn demo_utils x) \<and> shape (sinkhorn demo_utils x) = shape x"
  by (simp add: demo_utils_def wf_tensor_def)

section \<open>The strategy on given logits\<close>

lemma strategy_only_sel [simp]:
  "routing_type (strategy_only s) = routing_type s" "topk (strategy_only s) = topk s"
  "training (strategy_only s) = training s" "num_experts (strategy_only s) = num_experts s"
  "moe_aux_loss_func (strategy_only s) = moe_aux_loss_func s"
  "num_moe_experts (config (strategy_only s)) = num_moe_experts (config s)"
  "moe_aux_loss_type (config (strategy_only s)) = moe_aux_loss_type (config s)"
  "moe_aux_loss_coeff (config (strategy_only s)) = moe_aux_loss_coeff (config s)"
  "moe_router_type (config (strategy_only s)) = moe_router_type (config s)"
  "moe_group_size (config (strategy_only s)) = moe_group_size (config s)"
  "moe_dropout (config (strategy_only s)) = moe_dropout (config s)"
  "moe_input_jitter_eps (config (strategy_only s)) = None"
  "moe_z_loss_coeff (config (strategy_only s)) = None"
  by (simp_all add: strategy_only_def)

lemma strategy_only_steps:
  "sinkhorn_activation (strategy_only s) l = sinkhorn_activation s l"
  "apply_aux_loss (strategy_only s) f probs idx act = apply_aux_loss s f probs idx act"
  "btx_top_logits_scattered (strategy_only s) probs idx sc = btx_top_logits_scattered s probs idx sc"
  by (simp_all add: sinkhorn_activation_def apply_aux_loss_def btx_top_logits_scattered_def
      cong: sum.case_cong)

lemma strategy_only_strategies:
  "sinkhorn_load_balancing U (strategy_only s) l = sinkhorn_load_balancing U s l"
  "aux_loss_load_balancing (strategy_only s) l = aux_loss_load_balancing s l"
  "btx_aux_loss_load_balancing (strategy_only s) l = btx_aux_loss_load_balancing s l"
  "sigmoid_load_balancing fill (strategy_only s) g l = sigmoid_load_balancing fill s g l"
  by (simp_all add: sinkhorn_load_balancing_def aux_loss_load_balancing_def
      btx_aux_loss_load_balancing_def sigmoid_load_balancing_def strategy_only_steps
      cong: sum.case_cong prod.case_cong option.case_cong if_cong)

lemma routed_with_dispatch:
  assumes "shape l = [T, num_moe_experts (config R)]" "0 < num_moe_experts (config R)"
  shows "routed_with U fill R g l =
     (if routing_type R = ''sinkhorn'' then (sinkhorn_load_balancing U R l, R, g)
      else if routing_type R = ''aux_loss'' then
        (if moe_aux_loss_type (config R) = ''switch'' then (aux_loss_load_balancing R l, R, g)
         else if sublist ''btx'' (moe_aux_loss_type (config R)) then
           (btx_aux_loss_load_balancing R l, R, g)
         else (Inl ValueError, R, g))
      else if routing_type R = ''none'' then
        (case torch_topk l (topk R) of
           Inl e \<Rightarrow> (Inl e, R, g)
         | Inr (top_logits, indices) \<Rightarrow>
             (Inr (type_as (torch_softmax top_logits Float32) l, indices), R, g))
      else if routing_type R = ''sigmoid'' then
        (case sigmoid_load_balancing fill R g l of (r, g'') \<Rightarrow> (r, R, g''))
      else (Inl ValueError, R, g))"
  using routing_plain[of l T "strategy_only R" U fill g] assms
  by (simp add: routed_with_def strategy_only_strategies split: sum.splits prod.splits)

text \<open>
  The routing call is the strategy run on the logits that the view, the z-loss attachment and
  the jitter step have produced.
\<close>

lemma routing_routed_with:
  assumes "view_2d logits (num_moe_experts (config self)) = Inr l1"
    and "apply_input_jitter self g (apply_z_loss U self l1) = (l3, self', g')"
  shows "routing U fill self g logits = routed_with U fill self' g' l3"
proof -
  note k = jitter_keeps_config[OF assms(2)]
  from view_2d_Inr[OF assms(1)] apply_input_jitter_result[OF assms(2)]
  have sh: "shape l3 = [numel (shape logits) div num_moe_experts (config self'), num_moe_experts (config self')]"
    and N: "0 < num_moe_experts (config self')"
    using k by simp_all
  show ?thesis
    unfolding routing_dispatch[OF assms] routed_with_dispatch[OF sh N]
    using k by simp
qed

lemma view_2d_numel: "view_2d t n = Inr t' \<Longrightarrow> numel (shape t') = numel (shape t)"
  by (auto simp: view_2d_def split: if_splits)

lemma apply_z_loss_config:
  "config s' = config s \<Longrightarrow> apply_z_loss U s' l = apply_z_loss U s l"
  by (simp add: apply_z_loss_def)

lemma forward_routing:
  assumes "shape input \<noteq> []" "gating self input = Inr lg"
    and "view_2d lg (num_moe_experts (config self)) = Inr l1"
  shows "forward U fill self g input = routing U fill (self\<lparr>hidden := Some (last (shape input))\<rparr>) g l1"
  using assms by (simp add: forward_def gating_def Let_def)

section \<open>The weights of the strategies\<close>



lemma trows_rows:
  assumes "wf_tensor t" "shape t = [T, N]"
  shows "length (trows t) = T" "\<forall>r \<in> set (trows t). length r = N"
proof -
  have len: "length (data t) = T * N" using assms by (simp add: wf_tensor_def)
  show "length (trows t) = T" using assms(2) by (simp add: trows_2d)
  show "\<forall>r \<in> set (trows t). length r = N"
    using rows_of_row_length[OF len] assms(2) by (simp add: trows_2d)
qed





section \<open>Sums behind the BTX loss\<close>

lemma sum_list_nth_sum: "sum_list (map f xs) = (\<Sum>t<length xs. f (xs ! t))" for f :: "'a \<Rightarrow> real"
proof -
  have "sum_list (map f xs) = (\<Sum>i = 0..<length (map f xs). map f xs ! i)"
    by (rule sum_list_sum_nth)
  also have "\<dots> = (\<Sum>i = 0..<length xs. f (xs ! i))"
    by (intro sum.cong) simp_all
  finally show ?thesis by (simp add: atLeast0LessThan)
qed

lemma dot_sum:
  assumes "length a = n" "length b = n"
  shows "dot a b = (\<Sum>e<n. a ! e * b ! e)"
proof -
  have "map2 (*) a b = map (\<lambda>t. a ! t * b ! t) [0..<n]"
    using assms by (rule map2_nth)
  then have "dot a b = sum_list (map (\<lambda>t. a ! t * b ! t) [0..<n])" by (simp add: dot_def)
  also have "\<dots> = (\<Sum>e<n. a ! e * b ! e)"
    by (simp add: interv_sum_list_conv_sum_set_nat atLeast0LessThan)
  finally show ?thesis .
qed

text \<open>
  Entry \<open>e\<close> of a scattered row is the value whose index is \<open>e\<close>, and zero when no index is.
\<close>

lemma scatter_row_entry:
  assumes "distinct is" "length is = length vs" "e < n"
  shows "scatter_row n is vs ! e = (\<Sum>j<length is. if is ! j = e then vs ! j else 0)"
proof (cases "e \<in> set is")
  case False
  then have "map_of (zip is vs) e = None"
    using assms(2) by (simp add: map_of_zip_is_None)
  then have "scatter_row n is vs ! e = 0"
    using nth_scatter_row[OF assms] by simp
  moreover have "(\<Sum>j<length is. if is ! j = e then vs ! j else 0) = 0"
    using False by (intro sum.neutral) auto
  ultimately show ?thesis by simp
next
  case True
  then obtain m where m: "m < length is" "is ! m = e" by (auto simp: in_set_conv_nth)
  have "map_of (zip is vs) e = Some (vs ! m)"
    using map_of_zip_nth[OF assms(2,1), of m] m assms(2) by simp
  then have "scatter_row n is vs ! e = vs ! m"
    using nth_scatter_row[OF assms] by simp
  moreover have "(\<Sum>j<length is. if is ! j = e then vs ! j else 0)
                 = (\<Sum>j<length is. if j = m then vs ! j else 0)"
    using assms(1) m by (intro sum.cong refl) (auto simp: nth_eq_iff_index_eq)
  moreover have "(\<Sum>j<length is. if j = m then vs ! j else 0) = vs ! m"
    using m(1) by (simp add: sum.delta)
  ultimately show ?thesis by simp
qed

lemma vdot_vectors:
  assumes "shape a = [n]" "shape b = [n]" "dtype a = dtype b"
  shows "vdot a b = Inr \<lparr>sval = dot (data a) (data b), sdtype = dtype a,
                         operands_grad = [requires_grad a, requires_grad b]\<rparr>"
  using assms by (simp add: vdot_def)

lemma mul_scalar_sel [simp]:
  "shape (mul_scalar c t) = shape t" "data (mul_scalar c t) = map (\<lambda>x. c * x) (data t)"
  "dtype (mul_scalar c t) = dtype t" "requires_grad (mul_scalar c t) = requires_grad t"
  by (simp_all add: mul_scalar_def)

section \<open>Construction\<close>

text \<open>
  C10. Constructing a \<^verbatim>\<open>TopKRouter\<close> from a configuration with \<open>moe_token_dropping\<close> set
  fails with an assertion error and yields no router, so none of the routing attributes
  (\<open>topk\<close>, \<open>routing_type\<close>, the loss function, the jitter sampler) is set up; without
  \<open>moe_token_dropping\<close> the construction succeeds whatever the routing type is. Hence every
  constructed router has \<open>moe_token_dropping\<close> false.
\<close>

theorem TopKRouter_init_token_dropping:
  "(moe_token_dropping cfg \<longrightarrow> TopKRouter_init U im cfg = Inl AssertionError) \<and>
   (\<not> moe_token_dropping cfg \<longrightarrow>
      (\<exists>r. TopKRouter_init U im cfg = Inr r \<and> config r = cfg \<and> topk r = moe_router_topk cfg
          \<and> routing_type r = moe_router_load_balancing_type cfg
          \<and> moe_aux_loss_func r = switch_load_balancing_loss_func U \<and> input_jitter r = None)) \<and>
   (\<forall>r. TopKRouter_init U im cfg = Inr r \<longrightarrow> \<not> moe_token_dropping (config r))"
  by (simp add: TopKRouter_init_def Router_init_def Let_def)

theorem TopKRouter_init_token_dropping_witness:
  "TopKRouter_init demo_utils (\<lambda>n. replicate n 0) (demo_config\<lparr>moe_token_dropping := True\<rparr>)
     = Inl AssertionError
   \<and> (\<exists>r. TopKRouter_init demo_utils (\<lambda>n. replicate n 0) demo_config = Inr r
          \<and> config r = demo_config \<and> topk r = 1 \<and> routing_type r = ''none'')"
  using TopKRouter_init_token_dropping [of "demo_config\<lparr>moe_token_dropping := True\<rparr>" demo_utils "\<lambda>n. replicate n 0"]
    TopKRouter_init_token_dropping [of demo_config demo_utils "\<lambda>n. replicate n 0"]
  by (auto simp: demo_config_def)

section \<open>Configuration errors\<close>

text \<open>
  C6 (as amended). With routing type \<open>sinkhorn\<close> and a non-zero auxiliary-loss coefficient
  no forward call and no routing call returns weights and indices: the call raises. The check
  sits at the entry of the sinkhorn strategy, after the gate projection, the z-loss attachment
  and the input jitter; when these succeed, the error is the assertion error and the router
  and the random state are the ones the jitter step left behind.
\<close>

theorem sinkhorn_aux_coeff_error:
  assumes "routing_type self = ''sinkhorn''" "moe_aux_loss_coeff (config self) \<noteq> 0"
  shows "(\<exists>e. fst (forward U fill self g input) = Inl e) \<and>
         (\<exists>e. fst (routing U fill self g logits) = Inl e) \<and>
         (\<forall>l1 l3 self' g'.
            view_2d logits (num_moe_experts (config self)) = Inr l1 \<longrightarrow>
            apply_input_jitter self g (apply_z_loss U self l1) = (l3, self', g') \<longrightarrow>
            routing U fill self g logits = (Inl AssertionError, self', g'))"
proof -
  have r: "\<exists>e. fst (routing U fill s g' l) = Inl e"
    if "routing_type s = ''sinkhorn''" "moe_aux_loss_coeff (config s) \<noteq> 0" for s g' l
    using that
    by (auto simp: routing_def Let_def sinkhorn_coeff_raises split: sum.splits prod.splits
        dest!: jitter_keeps_config)
  have "\<exists>e. fst (forward U fill self g input) = Inl e"
    using r[of "self\<lparr>hidden := Some (last (shape input))\<rparr>"] assms
    by (auto simp: forward_def Let_def split: sum.splits)
  moreover have "routing U fill self g logits = (Inl AssertionError, self', g')"
    if "view_2d logits (num_moe_experts (config self)) = Inr l1"
       "apply_input_jitter self g (apply_z_loss U self l1) = (l3, self', g')" for l1 l3 self' g'
    using that assms jitter_keeps_config[OF that(2)]
    by (simp add: routing_def Let_def sinkhorn_coeff_raises)
  ultimately show ?thesis using r[OF assms] by blast
qed

theorem sinkhorn_aux_coeff_error_witness:
  "\<exists>e. fst (routing demo_utils demo_fill (demo_router sinkhorn_coeff_config) demo_rng logits_2_3) = Inl e"
  using sinkhorn_aux_coeff_error [of "demo_router sinkhorn_coeff_config" demo_utils demo_fill
      demo_rng logits_2_3 logits_2_3]
  by (simp add: demo_router_def sinkhorn_coeff_config_def demo_config_def)

text \<open>
  The claim as stated fails: with a jitter epsilon configured, the forward call that raises
  has already projected the token through the gate, constructed the jitter sampler and drawn
  two random numbers for the two logits.
\<close>

theorem sinkhorn_error_after_jitter_counterexample:
  "fst (forward demo_utils demo_fill (demo_router sinkhorn_coeff_config) demo_rng input_6_7)
      = Inl AssertionError
   \<and> input_jitter (demo_router sinkhorn_coeff_config) = None
   \<and> input_jitter (fst (snd (forward demo_utils demo_fill (demo_router sinkhorn_coeff_config)
                                 demo_rng input_6_7)))
      = Some (1 / 2, 3 / 2)
   \<and> demo_rng 0 = 1 / 2
   \<and> snd (snd (forward demo_utils demo_fill (demo_router sinkhorn_coeff_config) demo_rng input_6_7)) 0
      = 1 / 4"
  by (simp add: forward_def gating_def linear_def trows_def rows_of_def dot_def
      routing_def demo_router_def sinkhorn_coeff_config_def demo_config_def input_6_7_def
      view_2d_def apply_z_loss_def apply_input_jitter_def Uniform_def rsample_def draw_def Let_def
      sinkhorn_load_balancing_def demo_rng_def numeral_2_eq_2 upt_rec[of 0])

section \<open>Input jitter\<close>

text \<open>
  C4 (as amended). When an input-jitter epsilon is configured (non-null), every routing call
  and every forward call, under every routing strategy and whatever the mode flag is, stores
  the sampler in the router (the one over \<open>[1 - eps, 1 + eps]\<close> on first use, the stored one
  afterwards), draws one number per element of the logits that the gate has produced,
  multiplies these logits with the noise exactly once and runs the strategy on the product.
  The jitter step does not read the mode flag, and with draws from \<open>[0, 1)\<close> and \<open>eps \<ge> 0\<close>
  the noise lies in \<open>[1 - eps, 1 + eps]\<close>. When no epsilon is configured the strategy runs on
  the unperturbed logits, with the router and the random state as they were.
\<close>

theorem input_jitter_in_every_mode:
  "(\<forall>eps l1.
      moe_input_jitter_eps (config self) = Some eps \<longrightarrow>
      view_2d logits (num_moe_experts (config self)) = Inr l1 \<longrightarrow>
        routing U fill self g logits =
          routed_with U fill (self\<lparr>input_jitter := Some (sampler_of self eps)\<rparr>)
            (\<lambda>i. g (i + numel (shape l1)))
            (jittered (sampler_of self eps) g (apply_z_loss U self l1)))
   \<and> (\<forall>eps lg l1.
      moe_input_jitter_eps (config self) = Some eps \<longrightarrow> shape input \<noteq> [] \<longrightarrow>
      gating self input = Inr lg \<longrightarrow> view_2d lg (num_moe_experts (config self)) = Inr l1 \<longrightarrow>
        forward U fill self g input =
          routed_with U fill
            (self\<lparr>hidden := Some (last (shape input)), input_jitter := Some (sampler_of self eps)\<rparr>)
            (\<lambda>i. g (i + numel (shape l1)))
            (jittered (sampler_of self eps) g (apply_z_loss U self l1)))
   \<and> (\<forall>eps x.
      moe_input_jitter_eps (config self) = Some eps \<longrightarrow>
        (input_jitter self = None \<longrightarrow>
           sampler_of self eps = (1 - eps, 1 + eps)
           \<and> input_jitter (fst (snd (apply_input_jitter self g x))) = Some (1 - eps, 1 + eps))
        \<and> (\<forall>s. input_jitter self = Some s \<longrightarrow>
              sampler_of self eps = s
              \<and> input_jitter (fst (snd (apply_input_jitter self g x))) = Some s))
   \<and> (\<forall>b x.
        apply_input_jitter (self\<lparr>training := b\<rparr>) g x =
          (case apply_input_jitter self g x of (y, self', g') \<Rightarrow> (y, self'\<lparr>training := b\<rparr>, g')))
   \<and> (\<forall>eps n. 0 \<le> eps \<longrightarrow> (\<forall>i. 0 \<le> g i \<and> g i < 1) \<longrightarrow>
         (\<forall>u \<in> set (jitter_noise (1 - eps, 1 + eps) n g). 1 - eps \<le> u \<and> u \<le> 1 + eps))
   \<and> (\<forall>l1.
      moe_input_jitter_eps (config self) = None \<longrightarrow>
      view_2d logits (num_moe_experts (config self)) = Inr l1 \<longrightarrow>
        routing U fill self g logits = routed_with U fill self g (apply_z_loss U self l1))
   \<and> (\<forall>lg l1.
      moe_input_jitter_eps (config self) = None \<longrightarrow> shape input \<noteq> [] \<longrightarrow>
      gating self input = Inr lg \<longrightarrow> view_2d lg (num_moe_experts (config self)) = Inr l1 \<longrightarrow>
        forward U fill self g input =
          routed_with U fill (self\<lparr>hidden := Some (last (shape input))\<rparr>) g (apply_z_loss U self l1))"
proof -
  let ?N = "num_moe_experts (config self)"
  have conf: "routing U fill s g logits' =
          routed_with U fill (s\<lparr>input_jitter := Some (sampler_of s eps)\<rparr>)
            (\<lambda>i. g (i + numel (shape l1)))
            (jittered (sampler_of s eps) g (apply_z_loss U s l1))"
    if "moe_input_jitter_eps (config s) = Some eps" "view_2d logits' (num_moe_experts (config s)) = Inr l1"
    for s eps logits' l1
    using routing_routed_with[OF that(2), of g U] apply_input_jitter_some[OF that(1), of g "apply_z_loss U s l1"]
    by simp
  have unconf: "routing U fill s g logits' = routed_with U fill s g (apply_z_loss U s l1)"
    if "moe_input_jitter_eps (config s) = None" "view_2d logits' (num_moe_experts (config s)) = Inr l1"
    for s logits' l1
    using routing_routed_with[OF that(2), of g U] apply_input_jitter_none[OF that(1), of g "apply_z_loss U s l1"]
    by simp
  have again: "view_2d l1 n = Inr l1" if "view_2d lg n = Inr l1" for lg l1 n
    using view_2d_Inr[OF that] by (simp add: view_2d_same)
  have fconf: "forward U fill self g input =
          routed_with U fill
            (self\<lparr>hidden := Some (last (shape input)), input_jitter := Some (sampler_of self eps)\<rparr>)
            (\<lambda>i. g (i + numel (shape l1)))
            (jittered (sampler_of self eps) g (apply_z_loss U self l1))"
    if "moe_input_jitter_eps (config self) = Some eps" "shape input \<noteq> []"
      "gating self input = Inr lg" "view_2d lg ?N = Inr l1" for eps lg l1
    using forward_routing[OF that(2,3,4), of U fill g]
      conf[of "self\<lparr>hidden := Some (last (shape input))\<rparr>" eps l1 l1] that(1) again[OF that(4)]
      apply_z_loss_config[of "self\<lparr>hidden := Some (last (shape input))\<rparr>" self U l1]
    by (simp add: sampler_of_def)
  have funconf: "forward U fill self g input =
          routed_with U fill (self\<lparr>hidden := Some (last (shape input))\<rparr>) g (apply_z_loss U self l1)"
    if "moe_input_jitter_eps (config self) = None" "shape input \<noteq> []"
      "gating self input = Inr lg" "view_2d lg ?N = Inr l1" for lg l1
    using forward_routing[OF that(2,3,4), of U fill g]
      unconf[of "self\<lparr>hidden := Some (last (shape input))\<rparr>" l1 l1] that(1) again[OF that(4)]
      apply_z_loss_config[of "self\<lparr>hidden := Some (last (shape input))\<rparr>" self U l1]
    by simp
  have mode: "apply_input_jitter (self\<lparr>training := b\<rparr>) g x =
          (case apply_input_jitter self g x of (y, self', g') \<Rightarrow> (y, self'\<lparr>training := b\<rparr>, g'))" for b x
    by (rule jitter_independent_of_mode)
  have range: "\<forall>u \<in> set (jitter_noise (1 - eps, 1 + eps) n g). 1 - eps \<le> u \<and> u \<le> 1 + eps"
    if "0 \<le> eps" "\<forall>i. 0 \<le> g i \<and> g i < 1" for eps n
  proof
    fix u assume "u \<in> set (jitter_noise (1 - eps, 1 + eps) n g)"
    then obtain i where u: "u = 1 - eps + g i * (2 * eps)" by (auto simp: jitter_noise_def)
    have "0 \<le> g i * (2 * eps)" using that by simp
    moreover have "g i * (2 * eps) \<le> 1 * (2 * eps)"
      using that by (intro mult_right_mono) (simp_all add: less_imp_le)
    ultimately show "1 - eps \<le> u \<and> u \<le> 1 + eps" using u by simp
  qed
  have samp: "(input_jitter self = None \<longrightarrow>
           sampler_of self eps = (1 - eps, 1 + eps)
           \<and> input_jitter (fst (snd (apply_input_jitter self g x))) = Some (1 - eps, 1 + eps))
        \<and> (\<forall>s. input_jitter self = Some s \<longrightarrow>
              sampler_of self eps = s
              \<and> input_jitter (fst (snd (apply_input_jitter self g x))) = Some s)"
    if "moe_input_jitter_eps (config self) = Some eps" for eps x
    using apply_input_jitter_some[OF that, of g x] by (simp add: sampler_of_def)
  show ?thesis
    using conf[of self] unconf[of self] fconf funconf mode range samp by blast
qed

theorem input_jitter_in_every_mode_witness:
  "training jitter_eval_router = False
   \<and> moe_input_jitter_eps (config jitter_eval_router) = Some (1 / 2)
   \<and> forward demo_utils demo_fill jitter_eval_router demo_rng input_6_7 =
       routed_with demo_utils demo_fill
         (jitter_eval_router\<lparr>hidden := Some 2, input_jitter := Some (1 / 2, 3 / 2)\<rparr>)
         (\<lambda>i. demo_rng (i + 2)) (mk_tensor [1, 2] [6, 35 / 6] Float32 True)
   \<and> indices_of (fst (forward demo_utils demo_fill jitter_eval_router demo_rng input_6_7)) = Some [[0]]
   \<and> routing demo_utils demo_fill jitter_eval_router demo_rng logits_6_7 =
       routed_with demo_utils demo_fill (jitter_eval_router\<lparr>input_jitter := Some (1 / 2, 3 / 2)\<rparr>)
         (\<lambda>i. demo_rng (i + 2)) (mk_tensor [1, 2] [6, 35 / 6] Float32 False)
   \<and> moe_input_jitter_eps (config plain_eval_router) = None
   \<and> forward demo_utils demo_fill plain_eval_router demo_rng input_6_7 =
       routed_with demo_utils demo_fill (plain_eval_router\<lparr>hidden := Some 2\<rparr>) demo_rng
         (mk_tensor [1, 2] [6, 7] Float32 True)
   \<and> indices_of (fst (forward demo_utils demo_fill plain_eval_router demo_rng input_6_7)) = Some [[1]]"
proof -
  let ?J = jitter_eval_router
  let ?P = plain_eval_router
  let ?l = "mk_tensor [1, 2] [6, 7] Float32 True"
  have c: "training ?J = False" "moe_input_jitter_eps (config ?J) = Some (1 / 2)"
    "num_moe_experts (config ?J) = 2" "input_jitter ?J = None"
    "moe_input_jitter_eps (config ?P) = None" "num_moe_experts (config ?P) = 2"
    by (simp_all add: jitter_eval_router_def plain_eval_router_def demo_router_def demo_config_def)
  have s: "sampler_of ?J (1 / 2) = (1 / 2, 3 / 2)" using c(4) by (simp add: sampler_of_def)
  have gj: "gating ?J input_6_7 = Inr ?l" "gating ?P input_6_7 = Inr ?l"
    by (simp_all add: gating_def linear_def jitter_eval_router_def plain_eval_router_def demo_router_def
        input_6_7_def trows_def rows_of_def dot_def numeral_2_eq_2 upt_rec[of 0])
  have v: "view_2d ?l 2 = Inr ?l" "view_2d logits_6_7 2 = Inr logits_6_7"
    by (simp_all add: view_2d_def mk_tensor_def logits_6_7_def)
  have i: "shape input_6_7 \<noteq> []" "last (shape input_6_7) = 2" by (simp_all add: input_6_7_def)
  have z: "apply_z_loss demo_utils ?J l = l" "apply_z_loss demo_utils ?P l = l" for l
    by (simp_all add: apply_z_loss_def jitter_eval_router_def plain_eval_router_def demo_router_def
        demo_config_def)
  have n: "jittered (1 / 2, 3 / 2) demo_rng ?l = mk_tensor [1, 2] [6, 35 / 6] Float32 True"
    "jittered (1 / 2, 3 / 2) demo_rng logits_6_7 = mk_tensor [1, 2] [6, 35 / 6] Float32 False"
    by (simp_all add: jittered_def jitter_noise_def demo_rng_def logits_6_7_def promote_def
        numeral_2_eq_2 upt_rec[of 0])
  have m: "numel (shape ?l) = 2" "numel (shape logits_6_7) = 2" by (simp_all add: logits_6_7_def)
  note J = input_jitter_in_every_mode [of ?J logits_6_7 demo_utils demo_fill demo_rng input_6_7]
  note P = input_jitter_in_every_mode [of ?P logits_6_7 demo_utils demo_fill demo_rng input_6_7]
  have v': "view_2d ?l (num_moe_experts (config ?J)) = Inr ?l"
    "view_2d logits_6_7 (num_moe_experts (config ?J)) = Inr logits_6_7"
    "view_2d ?l (num_moe_experts (config ?P)) = Inr ?l"
    using v c(3,6) by simp_all
  from J c(2) i(1) gj(1) v'(1)
  have "forward demo_utils demo_fill ?J demo_rng input_6_7 =
       routed_with demo_utils demo_fill
         (?J\<lparr>hidden := Some (last (shape input_6_7)), input_jitter := Some (sampler_of ?J (1 / 2))\<rparr>)
         (\<lambda>i. demo_rng (i + numel (shape ?l)))
         (jittered (sampler_of ?J (1 / 2)) demo_rng (apply_z_loss demo_utils ?J ?l))"
    by blast
  then have f1: "forward demo_utils demo_fill ?J demo_rng input_6_7 =
       routed_with demo_utils demo_fill (?J\<lparr>hidden := Some 2, input_jitter := Some (1 / 2, 3 / 2)\<rparr>)
         (\<lambda>i. demo_rng (i + 2)) (mk_tensor [1, 2] [6, 35 / 6] Float32 True)"
    using i(2) s z(1) n(1) m(1) by simp
  from J c(2) v'(2)
  have "routing demo_utils demo_fill ?J demo_rng logits_6_7 =
       routed_with demo_utils demo_fill (?J\<lparr>input_jitter := Some (sampler_of ?J (1 / 2))\<rparr>)
         (\<lambda>i. demo_rng (i + numel (shape logits_6_7)))
         (jittered (sampler_of ?J (1 / 2)) demo_rng (apply_z_loss demo_utils ?J logits_6_7))"
    by blast
  then have r1: "routing demo_utils demo_fill ?J demo_rng logits_6_7 =
       routed_with demo_utils demo_fill (?J\<lparr>input_jitter := Some (1 / 2, 3 / 2)\<rparr>)
         (\<lambda>i. demo_rng (i + 2)) (mk_tensor [1, 2] [6, 35 / 6] Float32 False)"
    using s z(1) n(2) m(2) by simp
  from P c(5) i(1) gj(2) v'(3)
  have "forward demo_utils demo_fill ?P demo_rng input_6_7 =
       routed_with demo_utils demo_fill (?P\<lparr>hidden := Some (last (shape input_6_7))\<rparr>) demo_rng
         (apply_z_loss demo_utils ?P ?l)"
    by blast
  then have f2: "forward demo_utils demo_fill ?P demo_rng input_6_7 =
       routed_with demo_utils demo_fill (?P\<lparr>hidden := Some 2\<rparr>) demo_rng ?l"
    using i(2) z(2) by simp
  have e1: "indices_of (fst (routed_with demo_utils demo_fill
              (?J\<lparr>hidden := Some 2, input_jitter := Some (1 / 2, 3 / 2)\<rparr>)
              (\<lambda>i. demo_rng (i + 2)) (mk_tensor [1, 2] [6, 35 / 6] Float32 True))) = Some [[0]]"
    by (simp add: routed_with_def strategy_only_def routing_def jitter_eval_router_def demo_router_def
        demo_config_def view_2d_def apply_z_loss_def apply_input_jitter_def Let_def torch_topk_def
        topk_row_def trows_def irows_def rows_of_def indices_of_def numeral_2_eq_2 upt_rec[of 0])
  have e2: "indices_of (fst (routed_with demo_utils demo_fill (?P\<lparr>hidden := Some 2\<rparr>) demo_rng ?l))
              = Some [[1]]"
    by (simp add: routed_with_def strategy_only_def routing_def plain_eval_router_def demo_router_def
        demo_config_def view_2d_def apply_z_loss_def apply_input_jitter_def Let_def torch_topk_def
        topk_row_def trows_def irows_def rows_of_def indices_of_def numeral_2_eq_2 upt_rec[of 0])
  show ?thesis using c(1,2,5) f1 r1 f2 e1 e2 by simp
qed

text \<open>
  The claim as stated fails: in evaluation mode, with an epsilon configured, the forward call
  routes the token \<open>[6, 7]\<close> to expert 0, whereas the unperturbed logits select expert 1.
\<close>

theorem input_jitter_in_evaluation_counterexample:
  "training jitter_eval_router = False
   \<and> indices_of (fst (forward demo_utils demo_fill jitter_eval_router demo_rng input_6_7)) = Some [[0]]
   \<and> indices_of (fst (forward demo_utils demo_fill plain_eval_router demo_rng input_6_7)) = Some [[1]]"
  by (simp add: forward_def jitter_eval_router_def plain_eval_router_def demo_router_def
      demo_config_def input_6_7_def gating_def linear_def Let_def trows_def rows_of_def dot_def
      routing_def view_2d_def apply_z_loss_def apply_input_jitter_def Uniform_def rsample_def
      draw_def mul_def demo_rng_def promote_def torch_topk_def topk_row_def pick_def indices_of_def
      irows_def type_as_def to_dtype_def torch_softmax_def numeral_2_eq_2 upt_rec[of 0])

section \<open>The sigmoid strategy\<close>

text \<open>
  C5 (as amended). Under the sigmoid strategy, in training mode with a non-zero dropout rate
  \<open>p\<close>, a mask with one draw per logit (set where the draw is below \<open>p\<close>) overwrites the
  masked logits with the large negative value before the elementwise sigmoid; weights and
  indices are the top-k by sigmoid value of these logits; and the 32-bit full-softmax
  probabilities handed to the balancing loss are computed over the same masked logits. They
  are the probabilities of the original logits only when no mask is applied.
\<close>

theorem sigmoid_strategy_on_masked_logits:
  assumes "wf_tensor logits" "shape logits = [T, N]" "topk self \<le> N" "num_experts self = N" "0 < N"
    and "\<forall>p. moe_dropout (config self) = Some p \<longrightarrow> 0 \<le> p \<and> p \<le> 1"
  shows "\<exists>scores indices mask'.
           sigmoid_load_balancing fill self g logits =
             (Inr (scores, indices), (\<lambda>i. g (i + dropout_draws self logits)))
         \<and> irows indices = map (\<lambda>r. topk_row (topk self) (map sigmoid r))
                              (trows (dropout_masked fill self g logits))
         \<and> trows scores = map (\<lambda>r. pick (map sigmoid r) (topk_row (topk self) (map sigmoid r)))
                             (trows (dropout_masked fill self g logits))
         \<and> one_hot_sum indices N = Inr mask'
         \<and> irows mask' = map (\<lambda>r. map (count_list r) [0..<N]) (irows indices)
         \<and> dtype (torch_softmax (dropout_masked fill self g logits) Float32) = Float32
         \<and> attached scores =
             [moe_aux_loss_func self (torch_softmax (dropout_masked fill self g logits) Float32) mask'
                (moe_aux_loss_coeff (config self))]"
proof -
  let ?m = "dropout_masked fill self g logits"
  let ?k = "topk self"
  have m: "(case moe_dropout (config self) of
               Some p \<Rightarrow>
                 if p \<noteq> 0 \<and> training self then
                   (case bernoulli_mask logits p g of
                      (Inl e, g') \<Rightarrow> (Inl e, g')
                    | (Inr mask', g') \<Rightarrow> (Inr (attention_mask_func fill logits mask'), g'))
                 else (Inr logits, g)
             | None \<Rightarrow> (Inr logits, g)) = (Inr ?m, (\<lambda>i. g (i + dropout_draws self logits)))"
    using assms(6)
    by (auto simp: dropout_masked_def dropout_draws_def bernoulli_mask_def draw_def
        attention_mask_func_def Let_def zip_map2 comp_def case_prod_unfold split: option.splits)
  have shm: "shape ?m = [T, N]" using assms(2)
    by (simp add: dropout_masked_def split: option.splits)
  have wfm: "wf_tensor ?m" using assms(1,2)
    by (simp add: dropout_masked_def wf_tensor_def split: option.splits)
  have wfs: "wf_tensor (torch_sigmoid ?m)" "shape (torch_sigmoid ?m) = [T, N]"
    using wfm shm by (simp_all add: torch_sigmoid_def wf_tensor_def)
  obtain v idx where t: "torch_topk (torch_sigmoid ?m) ?k = Inr (v, idx)"
    "ishape idx = [T, ?k]" "attached v = []"
    "irows idx = map (topk_row ?k) (trows (torch_sigmoid ?m))"
    "trows v = map (\<lambda>r. pick r (topk_row ?k r)) (trows (torch_sigmoid ?m))"
    using torch_topk_2d[OF wfs assms(3)] by auto
  have rs: "trows (torch_sigmoid ?m) = map (map sigmoid) (trows ?m)"
    using shm by (simp add: trows_2d torch_sigmoid_def rows_of_map)
  obtain mk where oh: "one_hot_sum idx N = Inr mk"
    "irows mk = map (\<lambda>r. map (count_list r) [0..<N]) (irows idx)"
    using one_hot_sum_ok[OF t(2) assms(5) torch_topk_2d_range[OF wfs t(1)]] by auto
  let ?sc = "MoEAuxLossAutoScaler_apply v
               (moe_aux_loss_func self (torch_softmax ?m Float32) mk (moe_aux_loss_coeff (config self)))"
  have "sigmoid_load_balancing fill self g logits = (Inr (?sc, idx), (\<lambda>i. g (i + dropout_draws self logits)))"
    unfolding sigmoid_load_balancing_def m
    using t(1) oh(1) assms(4) by (simp add: apply_aux_loss_def)
  moreover have "irows idx = map (\<lambda>r. topk_row ?k (map sigmoid r)) (trows ?m)"
    using t(4) rs by (simp add: comp_def)
  moreover have "trows ?sc = map (\<lambda>r. pick (map sigmoid r) (topk_row ?k (map sigmoid r))) (trows ?m)"
    using t(5) rs by (simp add: comp_def trows_def MoEAuxLossAutoScaler_apply_def)
  moreover have "attached ?sc = [moe_aux_loss_func self (torch_softmax ?m Float32) mk (moe_aux_loss_coeff (config self))]"
    using t(3) by (simp add: MoEAuxLossAutoScaler_apply_def)
  moreover have "dtype (torch_softmax ?m Float32) = Float32"
    by (simp add: torch_softmax_def)
  ultimately show ?thesis using oh by blast
qed

theorem sigmoid_strategy_on_masked_logits_witness:
  "\<exists>scores indices mask'.
     sigmoid_load_balancing demo_fill dropout_router demo_rng logits_2_3 =
       (Inr (scores, indices), (\<lambda>i. demo_rng (i + 2)))
     \<and> irows indices = [[0]]
     \<and> attached scores =
         [moe_aux_loss_func dropout_router
            (torch_softmax (dropout_masked demo_fill dropout_router demo_rng logits_2_3) Float32) mask' 1]"
proof -
  have "map (\<lambda>r. topk_row 1 (map sigmoid r))
          (trows (dropout_masked demo_fill dropout_router demo_rng logits_2_3)) = [[0]]"
    by (simp add: topk_row_map_mono dropout_masked_def dropout_router_def demo_router_def
        demo_config_def logits_2_3_def demo_rng_def demo_fill_def trows_def rows_of_def topk_row_def
        numeral_2_eq_2 upt_rec[of 0])
  moreover have "dropout_draws dropout_router logits_2_3 = 2"
    by (simp add: dropout_draws_def dropout_router_def demo_router_def demo_config_def logits_2_3_def)
  moreover have "wf_tensor logits_2_3" "shape logits_2_3 = [1, 2]" "topk dropout_router \<le> 2"
    "num_experts dropout_router = 2" "topk dropout_router = 1"
    "\<forall>p. moe_dropout (config dropout_router) = Some p \<longrightarrow> 0 \<le> p \<and> p \<le> 1"
    "moe_aux_loss_coeff (config dropout_router) = 1"
    by (simp_all add: dropout_router_def demo_router_def demo_config_def logits_2_3_def wf_tensor_def)
  ultimately show ?thesis
    using sigmoid_strategy_on_masked_logits [of logits_2_3 1 2 dropout_router demo_fill demo_rng]
    by auto
qed

text \<open>
  The claim as stated fails: in training mode with dropout rate 1/2 the second logit of the
  token \<open>[2, 3]\<close> is masked, and the loss attached to the weights is computed from the softmax
  of the masked logits, not from the softmax of the original logits.
\<close>

theorem sigmoid_loss_on_unmasked_logits_counterexample:
  "indices_of (fst (sigmoid_load_balancing demo_fill dropout_router demo_rng logits_2_3)) = Some [[0]]
   \<and> attached_of (fst (sigmoid_load_balancing demo_fill dropout_router demo_rng logits_2_3))
       = Some [exp 2 / (exp 2 + exp (- 10000))]
   \<and> sval (switch_load_balancing_loss_func demo_utils (torch_softmax logits_2_3 Float32)
             \<lparr>ishape = [1, 2], idata = [1, 0]\<rparr> 1) = exp 2 / (exp 2 + exp 3)
   \<and> exp 2 / (exp 2 + exp (- 10000)) \<noteq> exp 2 / (exp 2 + exp (3::real))"
proof -
  have "exp 2 / (exp 2 + exp (- 10000)) \<noteq> exp 2 / (exp 2 + exp (3::real))"
  proof
    assume a: "exp 2 / (exp 2 + exp (- 10000)) = exp 2 / (exp 2 + exp (3::real))"
    have "0 < exp 2 + exp (- 10000 :: real)" "0 < exp 2 + exp (3::real)" by (simp_all add: add_pos_pos)
    with a have "exp 2 + exp (- 10000) = exp 2 + exp (3::real)"
      by (simp add: field_simps)
    then show False by simp
  qed
  moreover have "sval (switch_load_balancing_loss_func demo_utils (torch_softmax logits_2_3 Float32)
        \<lparr>ishape = [1, 2], idata = [1, 0]\<rparr> 1) = exp 2 / (exp 2 + exp 3)"
    by (simp add: demo_utils_def torch_softmax_def logits_2_3_def trows_def rows_of_def softmax_row_def)
  moreover have "indices_of (fst (sigmoid_load_balancing demo_fill dropout_router demo_rng logits_2_3)) = Some [[0]]
   \<and> attached_of (fst (sigmoid_load_balancing demo_fill dropout_router demo_rng logits_2_3))
       = Some [exp 2 / (exp 2 + exp (- 10000))]"
    by (simp add: sigmoid_load_balancing_def dropout_router_def demo_router_def demo_config_def
        logits_2_3_def bernoulli_mask_def draw_def demo_rng_def attention_mask_func_def Let_def
        numeral_2_eq_2 upt_rec[of 0] torch_sigmoid_def torch_topk_def trows_def irows_def rows_of_def
        topk_row_def pick_def apply_aux_loss_def one_hot_sum_def demo_utils_def torch_softmax_def
        softmax_row_def demo_fill_def MoEAuxLossAutoScaler_apply_def indices_of_def attached_of_def)
  ultimately show ?thesis by blast
qed

section \<open>The sinkhorn strategy\<close>

text \<open>
  C2. With a zero auxiliary-loss coefficient the sinkhorn strategy, in training mode, takes
  the indices as the top-k of the sinkhorn normalisation of the logits cast to 32-bit float,
  computed without gradient, and returns as weights the activation of the original logits
  (sigmoid when \<open>k = 1\<close>, softmax otherwise), with their element type and gradient flag,
  gathered at those indices; it returns whenever the normalisation keeps the shape. In
  evaluation mode the result is the top-k of the activated logits for both weights and
  indices, whatever the sinkhorn function is.
\<close>

theorem sinkhorn_strategy:
  assumes "moe_aux_loss_coeff (config self) = 0" "wf_tensor logits" "shape logits = [T, N]"
    and "wf_tensor (sinkhorn U (to_dtype_no_grad logits Float32))"
  shows
   "dtype (to_dtype_no_grad logits Float32) = Float32 \<and> data (to_dtype_no_grad logits Float32) = data logits
    \<and> \<not> requires_grad (no_grad (sinkhorn U (to_dtype_no_grad logits Float32)))
    \<and> (training self \<longrightarrow>
        (\<forall>scores indices. sinkhorn_load_balancing U self logits = Inr (scores, indices) \<longrightarrow>
           (\<exists>v. torch_topk (no_grad (sinkhorn U (to_dtype_no_grad logits Float32))) (topk self) = Inr (v, indices))
           \<and> irows indices = map (topk_row (topk self)) (trows (sinkhorn U (to_dtype_no_grad logits Float32)))
           \<and> trows scores = map2 pick (map (activation_row (topk self)) (trows logits)) (irows indices)
           \<and> dtype scores = dtype logits \<and> requires_grad scores = requires_grad logits)
        \<and> (shape (sinkhorn U (to_dtype_no_grad logits Float32)) = [T, N] \<and> topk self \<le> N \<longrightarrow>
             (\<exists>scores indices. sinkhorn_load_balancing U self logits = Inr (scores, indices))))
    \<and> (\<not> training self \<longrightarrow> topk self \<le> N \<longrightarrow>
        (\<exists>scores indices.
           (\<forall>U'. sinkhorn_load_balancing U' self logits = Inr (scores, indices))
           \<and> irows indices = map (\<lambda>r. topk_row (topk self) (activation_row (topk self) r)) (trows logits)
           \<and> trows scores = map (\<lambda>r. pick (activation_row (topk self) r)
                                         (topk_row (topk self) (activation_row (topk self) r))) (trows logits)
           \<and> dtype scores = dtype logits \<and> requires_grad scores = requires_grad logits))"
proof -
  let ?k = "topk self"
  let ?n = "no_grad (sinkhorn U (to_dtype_no_grad logits Float32))"
  let ?a = "sinkhorn_activation self logits"
  note act = sinkhorn_activation_2d[OF assms(2,3), of self]
  have wfn: "wf_tensor ?n" using assms(4) by simp
  have train: "trows scores = map2 pick (map (activation_row ?k) (trows logits)) (irows indices)
      \<and> (\<exists>v. torch_topk ?n ?k = Inr (v, indices))
      \<and> irows indices = map (topk_row ?k) (trows (sinkhorn U (to_dtype_no_grad logits Float32)))
      \<and> dtype scores = dtype logits \<and> requires_grad scores = requires_grad logits"
    if tr: "training self" and r: "sinkhorn_load_balancing U self logits = Inr (scores, indices)"
    for scores indices
  proof -
    from r tr assms(1) obtain v where t: "torch_topk ?n ?k = Inr (v, indices)"
      and g: "torch_gather ?a indices = Inr scores"
      by (auto simp: sinkhorn_load_balancing_def split: sum.splits)
    from torch_topk_wf[OF wfn torch_topk_Inr[OF t]] t
    have i: "ishape indices = butlast (shape ?n) @ [?k]"
      "length (idata indices) = numel (butlast (shape ?n)) * ?k"
      "irows indices = map (topk_row ?k) (trows ?n)"
      by auto
    have "length (idata indices) = numel (ishape indices)"
      using i(1,2) numel_butlast_last[of "butlast (shape ?n) @ [?k]"] by simp
    from torch_gather_Inr[OF g _ refl this] act
    have "trows scores = map2 pick (trows ?a) (irows indices)" "dtype scores = dtype logits"
      "requires_grad scores = requires_grad logits"
      by auto
    then show ?thesis using act t i(3) by simp
  qed
  have total: "\<exists>scores indices. sinkhorn_load_balancing U self logits = Inr (scores, indices)"
    if tr: "training self" and sh: "shape (sinkhorn U (to_dtype_no_grad logits Float32)) = [T, N]" and k: "?k \<le> N"
  proof -
    have shn: "shape ?n = [T, N]" using sh by simp
    from torch_topk_2d[OF wfn shn k] obtain v idx where t: "torch_topk ?n ?k = Inr (v, idx)"
      "ishape idx = [T, ?k]" by auto
    from torch_gather_ok[of ?a T N idx T ?k] act t(2) torch_topk_2d_range[OF wfn shn t(1)]
    obtain s where "torch_gather ?a idx = Inr s" by auto
    then show ?thesis using tr assms(1) t(1) by (simp add: sinkhorn_load_balancing_def)
  qed
  have eval: "\<exists>scores indices.
           (\<forall>U'. sinkhorn_load_balancing U' self logits = Inr (scores, indices))
           \<and> irows indices = map (\<lambda>r. topk_row ?k (activation_row ?k r)) (trows logits)
           \<and> trows scores = map (\<lambda>r. pick (activation_row ?k r) (topk_row ?k (activation_row ?k r))) (trows logits)
           \<and> dtype scores = dtype logits \<and> requires_grad scores = requires_grad logits"
    if ev: "\<not> training self" and k: "?k \<le> N"
  proof -
    from act have wfa: "wf_tensor ?a" and sha: "shape ?a = [T, N]" by simp_all
    from torch_topk_2d[OF wfa sha k] obtain v idx where t: "torch_topk ?a ?k = Inr (v, idx)"
      "irows idx = map (topk_row ?k) (trows ?a)" "trows v = map (\<lambda>r. pick r (topk_row ?k r)) (trows ?a)"
      "dtype v = dtype ?a" "requires_grad v = requires_grad ?a"
      by auto
    have "\<forall>U'. sinkhorn_load_balancing U' self logits = Inr (v, idx)"
      using ev assms(1) t(1) by (simp add: sinkhorn_load_balancing_def)
    then show ?thesis using t act by (auto simp: comp_def)
  qed
  show ?thesis using train total eval by (simp del: no_grad_sel(6))
qed

theorem sinkhorn_strategy_witness:
  "\<exists>scores indices.
     sinkhorn_load_balancing demo_utils sinkhorn_router logits_2_3 = Inr (scores, indices)
     \<and> irows indices = [[1]] \<and> trows scores = [[sigmoid 3]]"
proof -
  have h: "moe_aux_loss_coeff (config sinkhorn_router) = 0" "wf_tensor logits_2_3"
    "shape logits_2_3 = [1, 2]" "wf_tensor (sinkhorn demo_utils (to_dtype_no_grad logits_2_3 Float32))"
    by (simp_all add: sinkhorn_router_def demo_router_def demo_config_def logits_2_3_def
        wf_tensor_def demo_utils_def)
  have tr: "training sinkhorn_router" "topk sinkhorn_router = 1"
    by (simp_all add: sinkhorn_router_def demo_router_def demo_config_def)
  have sh: "shape (sinkhorn demo_utils (to_dtype_no_grad logits_2_3 Float32)) = [1, 2]"
    by (simp add: demo_utils_def logits_2_3_def)
  have e1: "map (topk_row 1) (trows (sinkhorn demo_utils (to_dtype_no_grad logits_2_3 Float32))) = [[1]]"
    by (simp add: demo_utils_def logits_2_3_def trows_def rows_of_def topk_row_def
        numeral_2_eq_2 upt_rec[of 0])
  have e2: "map (activation_row 1) (trows logits_2_3) = [[sigmoid 2, sigmoid 3]]"
    by (simp add: activation_row_def logits_2_3_def trows_def rows_of_def)
  note T = sinkhorn_strategy [OF h]
  from T tr sh obtain scores indices
    where r: "sinkhorn_load_balancing demo_utils sinkhorn_router logits_2_3 = Inr (scores, indices)"
    by auto
  with T tr have "irows indices = map (topk_row 1) (trows (sinkhorn demo_utils (to_dtype_no_grad logits_2_3 Float32)))"
    "trows scores = map2 pick (map (activation_row 1) (trows logits_2_3)) (irows indices)"
    by auto
  then have "irows indices = [[1]]" "trows scores = [[sigmoid 3]]"
    using e1 e2 by (simp_all add: pick_def)
  with r show ?thesis by blast
qed

section \<open>The BTX auxiliary loss\<close>

text \<open>
  C8. Under the BTX variant the indices are the top-k of the raw logits and the weights are
  the softmax of the \<open>k\<close> selected logits, computed in 32-bit precision and cast back to the
  element type of the logits. Exactly one loss is attached to the weights. Its value is
  \<open>coeff * N\<close> times the sum over the experts \<open>e\<close> of the product of two means over the
  tokens: the mean of the scattered weights, where the scattered entry of token \<open>t\<close> at
  expert \<open>e\<close> is the weight whose index is \<open>e\<close> and zero when \<open>e\<close> is not selected, and the
  mean of the softmax of all logits of the token. The loss is a 32-bit scalar, the product
  of these two vectors of means: the second requires a gradient whenever the logits do, and
  the first, the scattered one, does so too except under \<^verbatim>\<open>btx_nograd\<close>, where it carries
  none. The weights keep the gradient flag of the logits in both sub-modes.
\<close>

theorem btx_strategy:
  assumes "wf_tensor logits" "shape logits = [T, N]" "topk self \<le> N" "0 < T"
  shows "\<exists>scores indices loss.
      btx_aux_loss_load_balancing self logits = Inr (scores, indices)
    \<and> irows indices = map (topk_row (topk self)) (trows logits)
    \<and> trows scores = map (\<lambda>r. softmax_row (pick r (topk_row (topk self) r))) (trows logits)
    \<and> precision scores = Float32 \<and> dtype scores = dtype logits
    \<and> requires_grad scores = requires_grad logits
    \<and> attached scores = [loss]
    \<and> sval loss =
        moe_aux_loss_coeff (config self) * real (num_moe_experts (config self))
        * (\<Sum>e<N. ((\<Sum>t<T. \<Sum>j<topk self.
                        if irows indices ! t ! j = e then trows scores ! t ! j else 0) / real T)
                  * ((\<Sum>t<T. softmax_row (trows logits ! t) ! e) / real T))
    \<and> sdtype loss = Float32
    \<and> operands_grad loss =
        [requires_grad logits \<and> moe_aux_loss_type (config self) \<noteq> ''btx_nograd'',
         requires_grad logits]"
proof -
  let ?k = "topk self"
  let ?c = "moe_aux_loss_coeff (config self) * real (num_moe_experts (config self))"
  let ?rs = "trows logits"
  obtain top idx where t: "torch_topk logits ?k = Inr (top, idx)"
    "shape top = [T, ?k]" "ishape idx = [T, ?k]" "wf_tensor top"
    "requires_grad top = requires_grad logits"
    "irows idx = map (topk_row ?k) ?rs"
    "trows top = map (\<lambda>r. pick r (topk_row ?k r)) ?rs"
    using torch_topk_2d[OF assms(1,2,3)] by auto
  let ?s32 = "torch_softmax top Float32"
  let ?probs = "torch_softmax logits Float32"
  let ?W = "map (\<lambda>r. softmax_row (pick r (topk_row ?k r))) ?rs"
  have lrs: "length ?rs = T" and rl: "\<forall>r \<in> set ?rs. length r = N"
    using trows_rows[OF assms(1,2)] by simp_all
  have s32: "trows ?s32 = ?W"
    using torch_softmax_2d[OF t(4) t(2), of Float32] t(7) by (simp add: comp_def)
  have probs: "trows ?probs = map softmax_row ?rs" "shape ?probs = [T, N]"
    using torch_softmax_2d[OF assms(1,2), of Float32] by simp_all
  obtain s where s: "scatter_zeros ?probs idx ?s32 = Inr s" "shape s = [T, N]"
    "requires_grad s = requires_grad ?s32" "dtype s = Float32"
    "trows s = map2 (scatter_row N) (irows idx) (trows ?s32)"
    using scatter_zeros_2d[of ?probs T N idx ?k ?s32] assms(2) t(2,3)
      torch_topk_2d_range[OF assms(1,2) t(1)]
    by auto
  define sc where "sc = (if moe_aux_loss_type (config self) = ''btx_nograd'' then no_grad s else s)"
  have sc: "btx_top_logits_scattered self ?probs idx ?s32 = Inr sc"
    using s(1) by (simp add: btx_top_logits_scattered_def sc_def)
  have sc_rows: "trows sc = map (\<lambda>r. scatter_row N (topk_row ?k r) (softmax_row (pick r (topk_row ?k r)))) ?rs"
    using s(5) t(6) s32 by (simp add: sc_def map2_same)
  have sc_rg: "requires_grad sc = (requires_grad logits \<and> moe_aux_loss_type (config self) \<noteq> ''btx_nograd'')"
    using s(3) t(5) by (auto simp: sc_def)
  have sc_sh: "shape sc = [T, N]" "dtype sc = Float32" using s(2,4) by (simp_all add: sc_def)
  let ?A = "map (\<lambda>e. (\<Sum>r \<leftarrow> trows sc. r ! e) / real T) [0..<N]"
  let ?B = "map (\<lambda>e. (\<Sum>r \<leftarrow> trows ?probs. r ! e) / real T) [0..<N]"
  let ?loss = "\<lparr>sval = dot (map (\<lambda>x. ?c * x) ?A) ?B, sdtype = Float32,
                operands_grad = [requires_grad sc, requires_grad logits]\<rparr>"
  have v: "vdot (mul_scalar ?c (mean0 sc)) (mean0 ?probs) = Inr ?loss"
    using vdot_vectors[of "mul_scalar ?c (mean0 sc)" N "mean0 ?probs"]
      mean0_2d[OF sc_sh(1)] mean0_2d[OF probs(2)] sc_sh(2)
    by simp
  let ?scores = "MoEAuxLossAutoScaler_apply (type_as ?s32 logits) ?loss"
  have r: "btx_aux_loss_load_balancing self logits = Inr (?scores, idx)"
    using t(1) sc v by (simp add: btx_aux_loss_load_balancing_def Let_def)
  have w: "trows ?scores = ?W" using s32 by simp
  have col_sc: "(\<Sum>r \<leftarrow> trows sc. r ! e)
        = (\<Sum>t<T. \<Sum>j<?k. if irows idx ! t ! j = e then trows ?scores ! t ! j else 0)"
    if e: "e < N" for e
  proof -
    have "(\<Sum>r \<leftarrow> trows sc. r ! e)
        = (\<Sum>r \<leftarrow> ?rs. scatter_row N (topk_row ?k r) (softmax_row (pick r (topk_row ?k r))) ! e)"
      unfolding sc_rows by (simp add: comp_def)
    also have "\<dots> = (\<Sum>t<T. scatter_row N (topk_row ?k (?rs ! t))
                              (softmax_row (pick (?rs ! t) (topk_row ?k (?rs ! t)))) ! e)"
      using sum_list_nth_sum[of "\<lambda>r. scatter_row N (topk_row ?k r) (softmax_row (pick r (topk_row ?k r))) ! e" ?rs]
        lrs by simp
    also have "\<dots> = (\<Sum>t<T. \<Sum>j<?k. if irows idx ! t ! j = e then trows ?scores ! t ! j else 0)"
    proof (rule sum.cong[OF refl])
      fix t assume "t \<in> {..<T}"
      then have tT: "t < T" by simp
      let ?r = "?rs ! t"
      have lr: "length ?r = N" using rl lrs tT by simp
      have lk: "length (topk_row ?k ?r) = ?k" using lr assms(3) by (simp add: length_topk_row)
      have lv: "length (topk_row ?k ?r) = length (softmax_row (pick ?r (topk_row ?k ?r)))"
        by (simp add: softmax_row_def pick_def)
      have "scatter_row N (topk_row ?k ?r) (softmax_row (pick ?r (topk_row ?k ?r))) ! e
          = (\<Sum>j<?k. if topk_row ?k ?r ! j = e then softmax_row (pick ?r (topk_row ?k ?r)) ! j else 0)"
        using scatter_row_entry[OF distinct_topk_row lv e] lk by simp
      moreover have "irows idx ! t = topk_row ?k ?r" "trows ?scores ! t = softmax_row (pick ?r (topk_row ?k ?r))"
        using t(6) w lrs tT by simp_all
      ultimately show "scatter_row N (topk_row ?k ?r) (softmax_row (pick ?r (topk_row ?k ?r))) ! e
          = (\<Sum>j<?k. if irows idx ! t ! j = e then trows ?scores ! t ! j else 0)"
        by (simp cong: if_cong)
    qed
    finally show ?thesis .
  qed
  have col_p: "(\<Sum>r \<leftarrow> trows ?probs. r ! e) = (\<Sum>t<T. softmax_row (?rs ! t) ! e)" for e
    using sum_list_nth_sum[of "\<lambda>r. softmax_row r ! e" ?rs] lrs
    by (simp add: probs(1) comp_def)
  have "dot (map (\<lambda>x. ?c * x) ?A) ?B = ?c * dot ?A ?B" by (rule dot_scale)
  also have "dot ?A ?B = (\<Sum>e<N. ?A ! e * ?B ! e)" by (rule dot_sum) simp_all
  also have "\<dots> = (\<Sum>e<N. ((\<Sum>t<T. \<Sum>j<?k.
                        if irows idx ! t ! j = e then trows ?scores ! t ! j else 0) / real T)
                  * ((\<Sum>t<T. softmax_row (?rs ! t) ! e) / real T))"
    by (rule sum.cong[OF refl]) (simp add: col_sc col_p)
  finally have val: "sval ?loss = ?c * (\<Sum>e<N. ((\<Sum>t<T. \<Sum>j<?k.
                        if irows idx ! t ! j = e then trows ?scores ! t ! j else 0) / real T)
                  * ((\<Sum>t<T. softmax_row (?rs ! t) ! e) / real T))"
    by simp
  have att: "attached ?scores = [?loss]" by simp
  have meta: "precision ?scores = Float32" "dtype ?scores = dtype logits"
    "requires_grad ?scores = requires_grad logits"
    using t(5) by simp_all
  have og: "operands_grad ?loss = [requires_grad logits \<and> moe_aux_loss_type (config self) \<noteq> ''btx_nograd'',
         requires_grad logits]"
    using sc_rg by simp
  show ?thesis
    apply (rule exI[of _ ?scores], rule exI[of _ idx], rule exI[of _ ?loss])
    using r t(6) w meta att val og by (simp only: simp_thms scalar.simps)
qed

theorem btx_strategy_witness:
  "(\<exists>scores indices loss.
      btx_aux_loss_load_balancing btx_nograd_router logits_btx = Inr (scores, indices)
    \<and> irows indices = [[0, 2], [1, 2]]
    \<and> trows scores = [[3 / 5, 2 / 5], [4 / 7, 3 / 7]]
    \<and> precision scores = Float32 \<and> dtype scores = BFloat16 \<and> requires_grad scores
    \<and> attached scores = [loss] \<and> sval loss = 141 / 140 \<and> sdtype loss = Float32
    \<and> operands_grad loss = [False, True])
   \<and> (\<exists>scores indices loss.
      btx_aux_loss_load_balancing btx_router logits_btx = Inr (scores, indices)
    \<and> attached scores = [loss] \<and> sval loss = 141 / 140
    \<and> operands_grad loss = [True, True])"
proof -
  let ?R = btx_nograd_router
  let ?G = btx_router
  have h: "wf_tensor logits_btx" "shape logits_btx = [2, 3]" "topk ?R \<le> 3" "0 < (2::nat)"
    "topk ?G \<le> 3"
    by (simp_all add: btx_nograd_router_def btx_router_def btx_config_def demo_router_def
        demo_config_def logits_btx_def wf_tensor_def)
  have c: "topk ?R = 2" "moe_aux_loss_coeff (config ?R) = 1" "num_moe_experts (config ?R) = 3"
    "moe_aux_loss_type (config ?R) = ''btx_nograd''"
    "topk ?G = 2" "moe_aux_loss_coeff (config ?G) = 1" "num_moe_experts (config ?G) = 3"
    "moe_aux_loss_type (config ?G) = ''btx''"
    by (simp_all add: btx_nograd_router_def btx_router_def btx_config_def demo_router_def demo_config_def)
  have d: "dtype logits_btx = BFloat16" "requires_grad logits_btx"
    by (simp_all add: logits_btx_def)
  have rs: "trows logits_btx = [[ln 3, 0, ln 2], [0, ln 4, ln 3]]"
    by (simp add: logits_btx_def trows_def rows_of_def numeral_2_eq_2 upt_rec[of 0])
  have tk: "topk_row 2 [ln 3, 0, ln 2 :: real] = [0, 2]" "topk_row 2 [0, ln 4, ln 3 :: real] = [1, 2]"
    by (simp_all add: topk_row_def numeral_2_eq_2 numeral_3_eq_3 upt_rec[of 0] upt_rec[of "Suc 0"]
        upt_rec[of "Suc (Suc 0)"])
  have sm: "softmax_row [ln 3, ln 2 :: real] = [3 / 5, 2 / 5]"
    "softmax_row [ln 4, ln 3 :: real] = [4 / 7, 3 / 7]"
    "softmax_row [ln 3, 0, ln 2 :: real] = [1 / 2, 1 / 6, 1 / 3]"
    "softmax_row [0, ln 4, ln 3 :: real] = [1 / 8, 1 / 2, 3 / 8]"
    by (simp_all add: softmax_row_def)
  have val: "v = 141 / 140"
    if "irows indices = [[0, 2], [1, 2]]" "trows scores = [[3 / 5, 2 / 5], [4 / 7, 3 / 7]]"
      "v = 1 * real (3::nat)
        * (\<Sum>e<3. ((\<Sum>t<2. \<Sum>j<2.
                        if irows indices ! t ! j = e then trows scores ! t ! j else 0) / real (2::nat))
                  * ((\<Sum>t<2. softmax_row (trows logits_btx ! t) ! e) / real (2::nat)))"
    for indices scores and v :: real
    unfolding that rs
    by (simp add: sm numeral_2_eq_2 numeral_3_eq_3)
  from btx_strategy [OF h(1,2,3,4)] obtain scores indices loss where
    r: "btx_aux_loss_load_balancing ?R logits_btx = Inr (scores, indices)"
      "irows indices = map (topk_row (topk ?R)) (trows logits_btx)"
      "trows scores = map (\<lambda>r. softmax_row (pick r (topk_row (topk ?R) r))) (trows logits_btx)"
      "precision scores = Float32" "dtype scores = dtype logits_btx"
      "requires_grad scores = requires_grad logits_btx" "attached scores = [loss]"
      "sval loss =
        moe_aux_loss_coeff (config ?R) * real (num_moe_experts (config ?R))
        * (\<Sum>e<3. ((\<Sum>t<2. \<Sum>j<topk ?R.
                        if irows indices ! t ! j = e then trows scores ! t ! j else 0) / real (2::nat))
                  * ((\<Sum>t<2. softmax_row (trows logits_btx ! t) ! e) / real (2::nat)))"
      "sdtype loss = Float32"
      "operands_grad loss =
        [requires_grad logits_btx \<and> moe_aux_loss_type (config ?R) \<noteq> ''btx_nograd'',
         requires_grad logits_btx]"
    by blast
  have i: "irows indices = [[0, 2], [1, 2]]" using r(2) c(1) rs tk by simp
  have w: "trows scores = [[3 / 5, 2 / 5], [4 / 7, 3 / 7]]"
    using r(3) c(1) rs tk sm by (simp add: pick_def)
  have v: "sval loss = 141 / 140" using val[OF i w] r(8) c(1,2,3) by simp
  have a: "\<exists>scores indices loss.
      btx_aux_loss_load_balancing ?R logits_btx = Inr (scores, indices)
    \<and> irows indices = [[0, 2], [1, 2]]
    \<and> trows scores = [[3 / 5, 2 / 5], [4 / 7, 3 / 7]]
    \<and> precision scores = Float32 \<and> dtype scores = BFloat16 \<and> requires_grad scores
    \<and> attached scores = [loss] \<and> sval loss = 141 / 140 \<and> sdtype loss = Float32
    \<and> operands_grad loss = [False, True]"
    using r(1,4,5,6,7,9,10) i w v c(4) d by auto
  from btx_strategy [OF h(1,2,5,4)] obtain scores' indices' loss' where
    r': "btx_aux_loss_load_balancing ?G logits_btx = Inr (scores', indices')"
      "irows indices' = map (topk_row (topk ?G)) (trows logits_btx)"
      "trows scores' = map (\<lambda>r. softmax_row (pick r (topk_row (topk ?G) r))) (trows logits_btx)"
      "attached scores' = [loss']"
      "sval loss' =
        moe_aux_loss_coeff (config ?G) * real (num_moe_experts (config ?G))
        * (\<Sum>e<3. ((\<Sum>t<2. \<Sum>j<topk ?G.
                        if irows indices' ! t ! j = e then trows scores' ! t ! j else 0) / real (2::nat))
                  * ((\<Sum>t<2. softmax_row (trows logits_btx ! t) ! e) / real (2::nat)))"
      "operands_grad loss' =
        [requires_grad logits_btx \<and> moe_aux_loss_type (config ?G) \<noteq> ''btx_nograd'',
         requires_grad logits_btx]"
    by blast
  have i': "irows indices' = [[0, 2], [1, 2]]" using r'(2) c(5) rs tk by simp
  have w': "trows scores' = [[3 / 5, 2 / 5], [4 / 7, 3 / 7]]"
    using r'(3) c(5) rs tk sm by (simp add: pick_def)
  have v': "sval loss' = 141 / 140" using val[OF i' w'] r'(5) c(5,6,7) by simp
  have b: "\<exists>scores indices loss.
      btx_aux_loss_load_balancing ?G logits_btx = Inr (scores, indices)
    \<and> attached scores = [loss] \<and> sval loss = 141 / 140
    \<and> operands_grad loss = [True, True]"
    using r'(1,4,6) v' c(8) d by auto
  show ?thesis using a b by blast
qed

section \<open>The grouped router on eight experts\<close>

text \<open>
  C3. For \<open>num_experts = 8\<close>, \<open>top_k = 4\<close> and \<open>moe_group_size = 2\<close> the grouped router
  returns the 32-bit softmax over all eight experts as probabilities and, for every token, the
  top two of the first four probabilities followed by the top two of the last four, the
  latter with their local indices offset by 4; indices and weights have shape \<open>(T, 4)\<close>, and
  every row of indices holds exactly two experts of each group. On the logits of the
  documented example the indices are \<open>[0, 1, 6, 5]\<close>, \<open>[2, 1, 6, 7]\<close>, \<open>[0, 2, 5, 6]\<close> and
  \<open>[3, 2, 5, 4]\<close>.
\<close>

theorem grouped_router_8_4_2:
  assumes "wf_tensor logits" "shape logits = [T, 8]"
  shows "(\<exists>scores idx.
           grouped_router logits 8 4 2 = Inr (torch_softmax logits Float32, scores, idx)
         \<and> dtype (torch_softmax logits Float32) = Float32
         \<and> trows (torch_softmax logits Float32) = map softmax_row (trows logits)
         \<and> shape scores = [T, 4] \<and> ishape idx = [T, 4]
         \<and> irows idx =
             map (\<lambda>r. topk_row 2 (take 4 (softmax_row r))
                       @ map (\<lambda>v. v + 4) (topk_row 2 (drop 4 (softmax_row r)))) (trows logits)
         \<and> trows scores =
             map (\<lambda>r. pick (take 4 (softmax_row r)) (topk_row 2 (take 4 (softmax_row r)))
                       @ pick (drop 4 (softmax_row r)) (topk_row 2 (drop 4 (softmax_row r))))
               (trows logits)
         \<and> (\<forall>row \<in> set (irows idx).
               length (filter (\<lambda>i. i < 4) row) = 2
               \<and> length (filter (\<lambda>i. 4 \<le> i \<and> i < 8) row) = 2))
       \<and> grouped_indices_of (grouped_router docstring_logits 8 4 2)
           = Some [[0, 1, 6, 5], [2, 1, 6, 7], [0, 2, 5, 6], [3, 2, 5, 4]]"
proof -
  have main: "\<exists>scores idx.
           grouped_router l 8 4 2 = Inr (torch_softmax l Float32, scores, idx)
         \<and> trows (torch_softmax l Float32) = map softmax_row (trows l)
         \<and> shape scores = [T', 4] \<and> ishape idx = [T', 4]
         \<and> irows idx = map (group_select 2 4 2) (trows l)
         \<and> irows idx =
             map (\<lambda>r. topk_row 2 (take 4 (softmax_row r))
                       @ map (\<lambda>v. v + 4) (topk_row 2 (drop 4 (softmax_row r)))) (trows l)
         \<and> trows scores =
             map (\<lambda>r. pick (take 4 (softmax_row r)) (topk_row 2 (take 4 (softmax_row r)))
                       @ pick (drop 4 (softmax_row r)) (topk_row 2 (drop 4 (softmax_row r))))
               (trows l)"
    if wf: "wf_tensor l" and sh: "shape l = [T', 8]" for l T'
  proof -
    have sh': "shape l = [T', 2 * 4]" using sh by simp
    have len: "length (data l) = T' * 8" using wf sh by (simp add: wf_tensor_def)
    have rl: "\<forall>r \<in> set (trows l). length r = 8"
      using rows_of_row_length[OF len] sh by (simp add: trows_2d)
    have lrs: "length (trows l) = T'" using sh by (simp add: trows_2d)
    from grouped_router_stage[OF wf sh', of 4] obtain scores idx where
      g: "grouped_router l 8 4 2 = Inr (torch_softmax l Float32, scores, idx)"
      "shape scores = [T', 4]" "ishape idx = [T', 4]"
      "idata idx = concat (map (group_select 2 4 2) (trows l))"
      "data scores = concat (map (\<lambda>r. group_values 2 4 2 (softmax_row r)) (trows l))"
      by auto
    have l1: "\<forall>r \<in> set (trows l). length (group_select 2 4 2 r) = 4"
      using rl length_group_select[of _ 2 4 2] by simp
    have l2: "\<forall>r \<in> set (trows l). length (group_values 2 4 2 (softmax_row r)) = 4"
      using rl length_group_values[of _ 2 4 2] by (simp add: softmax_row_def)
    have i: "irows idx = map (group_select 2 4 2) (trows l)"
      using g(3,4) rows_of_concat_map[OF l1 lrs] by (simp add: irows_2d)
    have s: "trows scores = map (\<lambda>r. group_values 2 4 2 (softmax_row r)) (trows l)"
      using g(2,5) rows_of_concat_map[OF l2 lrs] by (simp add: trows_2d)
    have i': "map (group_select 2 4 2) (trows l) =
             map (\<lambda>r. topk_row 2 (take 4 (softmax_row r))
                       @ map (\<lambda>v. v + 4) (topk_row 2 (drop 4 (softmax_row r)))) (trows l)"
    proof (rule map_cong[OF refl])
      fix r assume "r \<in> set (trows l)"
      then have "length (softmax_row r) = 8" using rl by (simp add: softmax_row_def)
      from group_select_2_4[OF this] show "group_select 2 4 2 r =
          topk_row 2 (take 4 (softmax_row r)) @ map (\<lambda>v. v + 4) (topk_row 2 (drop 4 (softmax_row r)))"
        by (simp add: group_select_softmax)
    qed
    have s': "map (\<lambda>r. group_values 2 4 2 (softmax_row r)) (trows l) =
             map (\<lambda>r. pick (take 4 (softmax_row r)) (topk_row 2 (take 4 (softmax_row r)))
                       @ pick (drop 4 (softmax_row r)) (topk_row 2 (drop 4 (softmax_row r)))) (trows l)"
    proof (rule map_cong[OF refl])
      fix r assume "r \<in> set (trows l)"
      then have "length (softmax_row r) = 8" using rl by (simp add: softmax_row_def)
      from group_values_2_4[OF this] show "group_values 2 4 2 (softmax_row r) =
          pick (take 4 (softmax_row r)) (topk_row 2 (take 4 (softmax_row r)))
          @ pick (drop 4 (softmax_row r)) (topk_row 2 (drop 4 (softmax_row r)))" .
    qed
    show ?thesis
      using g(1,2,3) i s i' s' torch_softmax_2d[OF wf sh, of Float32] by simp
  qed
  from main[OF assms] obtain scores idx where
    g: "grouped_router logits 8 4 2 = Inr (torch_softmax logits Float32, scores, idx)"
      "trows (torch_softmax logits Float32) = map softmax_row (trows logits)"
      "shape scores = [T, 4]" "ishape idx = [T, 4]"
      "irows idx =
             map (\<lambda>r. topk_row 2 (take 4 (softmax_row r))
                       @ map (\<lambda>v. v + 4) (topk_row 2 (drop 4 (softmax_row r)))) (trows logits)"
      "trows scores =
             map (\<lambda>r. pick (take 4 (softmax_row r)) (topk_row 2 (take 4 (softmax_row r)))
                       @ pick (drop 4 (softmax_row r)) (topk_row 2 (drop 4 (softmax_row r))))
               (trows logits)"
    by blast
  have len: "length (data logits) = T * 8" using assms by (simp add: wf_tensor_def)
  have rl: "\<forall>r \<in> set (trows logits). length r = 8"
    using rows_of_row_length[OF len] assms(2) by (simp add: trows_2d)
  have cnt: "length (filter (\<lambda>i. i < 4) row) = 2 \<and> length (filter (\<lambda>i. 4 \<le> i \<and> i < 8) row) = 2"
    if "row \<in> set (irows idx)" for row
  proof -
    from that g(5) obtain r where r: "r \<in> set (trows logits)"
      and row: "row = topk_row 2 (take 4 (softmax_row r)) @ map (\<lambda>v. v + 4) (topk_row 2 (drop 4 (softmax_row r)))"
      by auto
    have l: "length (softmax_row r) = 8" using rl r by (simp add: softmax_row_def)
    let ?A = "topk_row 2 (take 4 (softmax_row r))"
    let ?B = "topk_row 2 (drop 4 (softmax_row r))"
    have a: "\<forall>i \<in> set ?A. i < 4" using set_topk_row[of _ 2 "take 4 (softmax_row r)"] l by auto
    have b: "\<forall>i \<in> set ?B. i < 4" using set_topk_row[of _ 2 "drop 4 (softmax_row r)"] l by auto
    have "length ?A = 2" "length ?B = 2" using l by (simp_all add: length_topk_row)
    then show ?thesis using filter_two_groups[OF a b] row by simp
  qed
  have exl: "wf_tensor docstring_logits" "shape docstring_logits = [4, 8]"
    by (simp_all add: docstring_logits_def wf_tensor_def)
  have "map (group_select 2 4 2) (trows docstring_logits) = [[0, 1, 6, 5], [2, 1, 6, 7], [0, 2, 5, 6], [3, 2, 5, 4]]"
    by (simp add: docstring_logits_def trows_def rows_of_def group_select_def topk_row_def
      numeral_2_eq_2 numeral_3_eq_3 eval_nat_numeral upt_rec[of 0] upt_rec[of "Suc 0"] upt_rec[of "Suc (Suc 0)"] upt_rec[of "Suc (Suc (Suc 0))"])
  with main[OF exl] have ex: "grouped_indices_of (grouped_router docstring_logits 8 4 2)
           = Some [[0, 1, 6, 5], [2, 1, 6, 7], [0, 2, 5, 6], [3, 2, 5, 4]]"
    by (auto simp: grouped_indices_of_def)
  show ?thesis
    using g cnt ex by (simp add: torch_softmax_def)
qed

theorem grouped_router_8_4_2_witness:
  "\<exists>scores idx.
     grouped_router docstring_logits 8 4 2 = Inr (torch_softmax docstring_logits Float32, scores, idx)
     \<and> shape scores = [4, 4] \<and> ishape idx = [4, 4]"
proof -
  have "wf_tensor docstring_logits" "shape docstring_logits = [4, 8]"
    by (simp_all add: docstring_logits_def wf_tensor_def)
  from grouped_router_8_4_2 [OF this] show ?thesis by blast
qed

section \<open>The routing decision\<close>

text \<open>
  C1 (as amended). For every configuration and every well-formed logits matrix of shape
  \<open>(T, N)\<close>, if the routing call returns, then the indices have shape \<open>(T, k)\<close>, no row of
  them holds an expert twice and every entry is below \<open>N\<close>, provided that under the grouped
  variant the group size divides \<open>k\<close>. The sinkhorn function is a parameter that keeps shapes.
\<close>

theorem routing_indices_valid:
  assumes "wf_tensor logits" "shape logits = [T, num_moe_experts (config self)]"
    and "\<forall>x. wf_tensor x \<longrightarrow> wf_tensor (sinkhorn U x) \<and> shape (sinkhorn U x) = shape x"
    and "routing_type self = ''aux_loss'' \<and> moe_aux_loss_type (config self) = ''switch''
            \<and> moe_router_type (config self) = ''grouped''
            \<longrightarrow> topk self mod moe_group_size (config self) = 0"
    and "routing U fill self g logits = (Inr (scores, indices), self', g')"
  shows "ishape indices = [T, topk self]
       \<and> (\<forall>row \<in> set (irows indices).
            distinct row \<and> (\<forall>i \<in> set row. i < num_moe_experts (config self)))"
  using routing_valid_positive[OF assms(1,2,3,5)] assms(4)
  by (simp add: valid_indices_def)

theorem routing_indices_valid_witness:
  "\<exists>scores indices.
     routing demo_utils demo_fill grouped_even_router demo_rng logits_3x4
       = (Inr (scores, indices), grouped_even_router, demo_rng)
     \<and> ishape indices = [3, 2] \<and> irows indices = [[0, 2], [0, 3], [1, 2]]"
proof -
  let ?R = grouped_even_router
  have l: "wf_tensor logits_3x4" "shape logits_3x4 = [3, 4]"
    by (simp_all add: logits_3x4_def wf_tensor_def)
  have c: "num_moe_experts (config ?R) = 4" "topk ?R = 2" "moe_group_size (config ?R) = 2"
    by (simp_all add: grouped_even_router_def demo_router_def demo_config_def)
  have "\<exists>scores indices.
           routing demo_utils demo_fill ?R demo_rng logits_3x4 = (Inr (scores, indices), ?R, demo_rng)
         \<and> dtype scores = Float32 \<and> ishape indices = [6 div 2, 2]
         \<and> idata indices = concat (map (group_select 2 2 1) (trows logits_3x4))"
    by (rule grouped_routing_example)
       (simp_all add: grouped_even_router_def demo_router_def demo_config_def l)
  then obtain scores indices where
    r: "routing demo_utils demo_fill ?R demo_rng logits_3x4 = (Inr (scores, indices), ?R, demo_rng)"
    "idata indices = [0, 2, 0, 3, 1, 2]"
    using grouped_rows_3x4 by auto
  have sh: "shape logits_3x4 = [3, num_moe_experts (config ?R)]" using l c by simp
  have grp: "routing_type ?R = ''aux_loss'' \<and> moe_aux_loss_type (config ?R) = ''switch''
            \<and> moe_router_type (config ?R) = ''grouped''
            \<longrightarrow> topk ?R mod moe_group_size (config ?R) = 0"
    using c by simp
  from routing_indices_valid [OF l(1) sh demo_sinkhorn_keeps_shape grp r(1)]
  have i: "ishape indices = [3, 2]" using c by simp
  then have "irows indices = [[0, 2], [0, 3], [1, 2]]"
    using r(2) by (simp add: irows_2d rows_of_def numeral_3_eq_3 upt_rec[of 0])
  with r(1) i show ?thesis by blast
qed

text \<open>
  The claim as stated fails under the grouped variant when the group size does not divide
  \<open>k\<close>: with four experts in two groups and \<open>k = 3\<close> each group yields one index per token,
  the six indices of three tokens are re-cut into two rows of three, and the first row holds
  expert 0 for two different tokens.
\<close>

theorem grouped_indices_duplicate_counterexample:
  "indices_of (fst (routing demo_utils demo_fill grouped_odd_router demo_rng logits_3x4))
     = Some [[0, 2, 0], [3, 1, 2]]
   \<and> \<not> distinct [0::nat, 2, 0]
   \<and> topk grouped_odd_router \<le> num_moe_experts (config grouped_odd_router)"
proof -
  let ?R = grouped_odd_router
  have l: "wf_tensor logits_3x4" "shape logits_3x4 = [3, 4]"
    by (simp_all add: logits_3x4_def wf_tensor_def)
  have "\<exists>scores indices.
           routing demo_utils demo_fill ?R demo_rng logits_3x4 = (Inr (scores, indices), ?R, demo_rng)
         \<and> dtype scores = Float32 \<and> ishape indices = [6 div 3, 3]
         \<and> idata indices = concat (map (group_select 2 2 1) (trows logits_3x4))"
    by (rule grouped_routing_example)
       (simp_all add: grouped_odd_router_def demo_router_def demo_config_def l)
  then obtain scores indices where
    r: "routing demo_utils demo_fill ?R demo_rng logits_3x4 = (Inr (scores, indices), ?R, demo_rng)"
    "ishape indices = [2, 3]" "idata indices = [0, 2, 0, 3, 1, 2]"
    using grouped_rows_3x4 by auto
  have "irows indices = [[0, 2, 0], [3, 1, 2]]"
    using r(2,3) by (simp add: irows_2d rows_of_def numeral_2_eq_2 upt_rec[of 0])
  then show ?thesis using r(1)
    by (simp add: indices_of_def grouped_odd_router_def demo_router_def demo_config_def)
qed

section \<open>The weights\<close>




section \<open>Element types\<close>

text \<open>
  C9. On logits in reduced precision the grouped variant returns 32-bit weights, whereas the
  st-style variant on the same logits returns weights in the precision of the logits.
\<close>

theorem grouped_weights_dtype:
  "dtype logits_3x4_bf16 = BFloat16
   \<and> weights_dtype_of (fst (routing demo_utils demo_fill grouped_even_router demo_rng logits_3x4_bf16))
       = Some Float32
   \<and> weights_dtype_of (fst (routing demo_utils demo_fill st_router demo_rng logits_3x4_bf16))
       = Some BFloat16"
proof -
  have l: "wf_tensor logits_3x4_bf16" "shape logits_3x4_bf16 = [3, 4]" "dtype logits_3x4_bf16 = BFloat16"
    by (simp_all add: logits_3x4_bf16_def wf_tensor_def)
  have "\<exists>scores indices.
           routing demo_utils demo_fill grouped_even_router demo_rng logits_3x4_bf16
             = (Inr (scores, indices), grouped_even_router, demo_rng)
         \<and> dtype scores = Float32 \<and> ishape indices = [6 div 2, 2]
         \<and> idata indices = concat (map (group_select 2 2 1) (trows logits_3x4_bf16))"
    by (rule grouped_routing_example)
       (simp_all add: grouped_even_router_def demo_router_def demo_config_def l)
  then have a: "weights_dtype_of (fst (routing demo_utils demo_fill grouped_even_router demo_rng logits_3x4_bf16))
       = Some Float32"
    by (auto simp: weights_dtype_of_def)
  have "\<exists>scores indices.
           routing demo_utils demo_fill st_router demo_rng logits_3x4_bf16
             = (Inr (scores, indices), st_router, demo_rng) \<and> dtype scores = dtype logits_3x4_bf16"
    by (rule st_routing_example[where N = 4])
       (simp_all add: st_router_def demo_router_def demo_config_def l)
  then have b: "weights_dtype_of (fst (routing demo_utils demo_fill st_router demo_rng logits_3x4_bf16))
       = Some BFloat16"
    using l(3) by (auto simp: weights_dtype_of_def)
  show ?thesis using a b l(3) by simp
qed

end
